(* ===== verification/Prelude.thy ===== *)
theory Prelude
  imports Complex_Main "HOL-Library.Multiset" "HOL-Library.Code_Target_Numeral"
begin

text \<open>
  Shared vocabulary of the Smart Fare development: the named collections that the
  component theories fill, and generic lemmas on lists, association lists and sum
  types that several components use.  Nothing here is specific to the program.
\<close>

named_theorems js_simps
  "evaluation equations of the JavaScript value semantics (truthiness, property access, arithmetic)"

named_theorems flow_simps
  "unfolding rules of the request handlers and of their phases"

subsection \<open>Error results\<close>

text \<open>
  Fallible code returns \<open>'e + 'a\<close>, the error on the left.  \<open>err_bind\<close> sequences two
  fallible steps the way an \<^verbatim>\<open>await\<close> inside a \<^verbatim>\<open>try\<close> does: the first error
  is the result and nothing after it runs.
\<close>

definition err_bind :: "'e + 'a \<Rightarrow> ('a \<Rightarrow> 'e + 'b) \<Rightarrow> 'e + 'b" where
  "err_bind r f = (case r of Inl e \<Rightarrow> Inl e | Inr a \<Rightarrow> f a)"

lemma err_bind_Inl [simp]: "err_bind (Inl e) f = Inl e"
  by (simp add: err_bind_def)

lemma err_bind_Inr [simp]: "err_bind (Inr a) f = f a"
  by (simp add: err_bind_def)

lemma err_bind_eq_Inr:
  "err_bind r f = Inr b \<longleftrightarrow> (\<exists>a. r = Inr a \<and> f a = Inr b)"
  by (cases r) auto

lemma err_bind_eq_Inl:
  "err_bind r f = Inl e \<longleftrightarrow> r = Inl e \<or> (\<exists>a. r = Inr a \<and> f a = Inl e)"
  by (cases r) auto

subsection \<open>Left folds with an additive accumulator\<close>

text \<open>
  JavaScript's \<^verbatim>\<open>reduce\<close> is a left fold; a fold that adds a value per element
  is the accumulator plus a sum.
\<close>

lemma foldl_add_acc:
  fixes f :: "'a \<Rightarrow> 'b::comm_monoid_add"
  shows "foldl (\<lambda>s x. s + f x) a xs = a + sum_list (map f xs)"
  by (induction xs arbitrary: a) (simp_all add: add.assoc)

subsection \<open>Association lists with the last binding winning\<close>

text \<open>
  \<^verbatim>\<open>JSON.parse\<close> keeps the last of duplicate keys; reading an association list
  from the right gives that lookup.
\<close>

definition lookup_last :: "('k \<times> 'v) list \<Rightarrow> 'k \<Rightarrow> 'v option" where
  "lookup_last kvs k = map_of (rev kvs) k"

lemma lookup_last_Nil [simp]: "lookup_last [] k = None"
  by (simp add: lookup_last_def)

lemma lookup_last_append_Cons [simp]:
  "lookup_last (kvs @ [(k', v)]) k = (if k = k' then Some v else lookup_last kvs k)"
  by (simp add: lookup_last_def)

lemma lookup_last_Cons [simp]:
  "lookup_last ((k', v) # kvs) k =
     (case lookup_last kvs k of None \<Rightarrow> (if k = k' then Some v else None) | Some w \<Rightarrow> Some w)"
  by (auto simp: lookup_last_def map_add_def split: option.splits)

lemma lookup_last_Some_in_set: "lookup_last kvs k = Some v \<Longrightarrow> (k, v) \<in> set kvs"
  by (auto simp: lookup_last_def dest: map_of_SomeD)

subsection \<open>Scanning text\<close>

text \<open>A scanner that skips a prefix and finds a character has consumed something.\<close>

lemma dropWhile_Cons_shorter: "dropWhile P s = c # r \<Longrightarrow> length r < length s"
  using length_dropWhile_le [of P s] by simp

end
