(* ===== verification/JsValue.thy ===== *)
theory JsValue
  imports Prelude
begin

text \<open>
  The fragment of JavaScript that \<^verbatim>\<open>src/server.js\<close> relies on: the values a JSON
  request or response body can hold, JavaScript numbers, truthiness (the \<^verbatim>\<open>!x\<close>
  tests of lines 56 and 71), property and index access with the \<^verbatim>\<open>TypeError\<close> it
  raises on \<^verbatim>\<open>undefined\<close> and \<^verbatim>\<open>null\<close> (lines 71 and 75), strict equality with a
  number literal (line 71) and the arithmetic of lines 45, 75 and 76.

  Numbers are IEEE doubles in the program.  Here a finite number is an exact real:
  rounding and overflow are not modelled, while \<open>NaN\<close> and the infinities, which the
  program can meet (\<^verbatim>\<open>undefined / 1000\<close> is \<open>NaN\<close>), are.  Negative zero is not
  distinguished from zero.  Strings are lists of 8-bit code units (the Latin-1 part of
  JavaScript's UTF-16 strings).
\<close>

section \<open>Values\<close>

datatype num = Fin real | NaN | Infty bool  \<comment> \<open>\<open>Infty True\<close> is \<open>+\<infinity>\<close>, \<open>Infty False\<close> is \<open>-\<infinity>\<close>\<close>

datatype jsval =
    JUndef
  | JNull
  | JBool bool
  | JNum num
  | JStr string
  | JArr "jsval list"
  | JObj "(string \<times> jsval) list"

text \<open>A property key: a name (\<^verbatim>\<open>o.features\<close>) or an integer index (\<^verbatim>\<open>a[0]\<close>).\<close>

datatype key = KName string | KIdx nat

text \<open>
  The exceptions the handlers can meet.  \<open>ReadOfUndefined k\<close> and \<open>ReadOfNull k\<close> are
  the \<^verbatim>\<open>TypeError\<close> of reading property \<open>k\<close> of \<^verbatim>\<open>undefined\<close> or \<^verbatim>\<open>null\<close>;
  \<open>FetchErr\<close> is a rejected \<^verbatim>\<open>fetch\<close> (network failure), \<open>JsonErr\<close> a rejected
  \<^verbatim>\<open>response.json()\<close> (a body that is not JSON), \<open>DbErr\<close> a rejected database
  operation, \<open>ValidationErr\<close> the \<^verbatim>\<open>ValidationError\<close> Mongoose rejects
  \<^verbatim>\<open>save()\<close> with before contacting the database.  Each carries what the program
  reads as \<^verbatim>\<open>err.message\<close>.
\<close>

datatype js_error =
    ReadOfUndefined key
  | ReadOfNull key
  | FetchErr string
  | JsonErr string
  | DbErr string
  | ValidationErr string

section \<open>Strings of indices and error messages\<close>

text \<open>\<^verbatim>\<open>String(i)\<close> for a non-negative integer: its decimal digits.\<close>

fun dec_string :: "nat \<Rightarrow> string" where
  "dec_string n =
     (if n < 10 then [char_of (48 + n)]
      else dec_string (n div 10) @ [char_of (48 + n mod 10)])"

declare dec_string.simps [simp del]

primrec key_string :: "key \<Rightarrow> string" where
  "key_string (KName s) = s"
| "key_string (KIdx i) = dec_string i"

text \<open>The messages V8 (Node.js) gives these errors; \<^verbatim>\<open>err.message\<close> in the handlers.\<close>

fun err_message :: "js_error \<Rightarrow> string" where
  "err_message (ReadOfUndefined k) =
     ''Cannot read properties of undefined (reading '' @ [CHR 0x27] @ key_string k @ [CHR 0x27] @ '')''"
| "err_message (ReadOfNull k) =
     ''Cannot read properties of null (reading '' @ [CHR 0x27] @ key_string k @ [CHR 0x27] @ '')''"
| "err_message (FetchErr m) = m"
| "err_message (JsonErr m) = m"
| "err_message (DbErr m) = m"
| "err_message (ValidationErr m) = m"

section \<open>Truthiness\<close>

text \<open>
  \<^verbatim>\<open>!v\<close> is true exactly for the falsy values: \<^verbatim>\<open>undefined\<close>, \<^verbatim>\<open>null\<close>,
  \<^verbatim>\<open>false\<close>, \<^verbatim>\<open>0\<close>, \<^verbatim>\<open>NaN\<close> and the empty string.  Arrays and objects are truthy,
  even when empty.
\<close>

fun truthy :: "jsval \<Rightarrow> bool" where
  "truthy JUndef = False"
| "truthy JNull = False"
| "truthy (JBool b) = b"
| "truthy (JNum n) = (n \<noteq> NaN \<and> n \<noteq> Fin 0)"
| "truthy (JStr s) = (s \<noteq> [])"
| "truthy (JArr xs) = True"
| "truthy (JObj kvs) = True"

section \<open>Property access\<close>

text \<open>
  \<^verbatim>\<open>v.k\<close> and \<^verbatim>\<open>v[i]\<close> on a JSON value.  Reading from \<^verbatim>\<open>undefined\<close> or
  \<^verbatim>\<open>null\<close> throws; arrays and strings have \<^verbatim>\<open>length\<close> and indexed elements
  (an index out of range reads \<^verbatim>\<open>undefined\<close>); an object reads its own property,
  the last binding of a duplicated key as \<^verbatim>\<open>JSON.parse\<close> leaves it; every other
  read gives \<^verbatim>\<open>undefined\<close>.  Properties inherited from the prototypes
  (\<^verbatim>\<open>toString\<close> and the like) are not modelled: the program reads none of them.
\<close>

fun get :: "jsval \<Rightarrow> key \<Rightarrow> js_error + jsval" where
  "get JUndef k = Inl (ReadOfUndefined k)"
| "get JNull k = Inl (ReadOfNull k)"
| "get (JBool b) k = Inr JUndef"
| "get (JNum n) k = Inr JUndef"
| "get (JStr s) (KName k) =
     Inr (if k = ''length'' then JNum (Fin (real (length s))) else JUndef)"
| "get (JStr s) (KIdx i) = Inr (if i < length s then JStr [s ! i] else JUndef)"
| "get (JArr xs) (KName k) =
     Inr (if k = ''length'' then JNum (Fin (real (length xs))) else JUndef)"
| "get (JArr xs) (KIdx i) = Inr (if i < length xs then xs ! i else JUndef)"
| "get (JObj kvs) k =
     Inr (case lookup_last kvs (key_string k) of None \<Rightarrow> JUndef | Some v \<Rightarrow> v)"

text \<open>A chain of reads \<^verbatim>\<open>v.k1.k2 ...\<close>, stopping at the first that throws.\<close>

fun get_path :: "jsval \<Rightarrow> key list \<Rightarrow> js_error + jsval" where
  "get_path v [] = Inr v"
| "get_path v (k # ks) = err_bind (get v k) (\<lambda>w. get_path w ks)"

text \<open>\<^verbatim>\<open>v === n\<close> for a number literal \<open>n\<close>: only a number equal to it, never \<open>NaN\<close>.\<close>

definition strict_eq_num :: "jsval \<Rightarrow> real \<Rightarrow> bool" where
  "strict_eq_num v r = (v = JNum (Fin r))"

section \<open>Arithmetic\<close>

text \<open>
  IEEE addition, multiplication and division with their \<open>NaN\<close> and infinity rules.
  A zero divisor is \<open>+0\<close>.
\<close>

fun num_add :: "num \<Rightarrow> num \<Rightarrow> num" where
  "num_add (Fin a) (Fin b) = Fin (a + b)"
| "num_add (Fin a) (Infty p) = Infty p"
| "num_add (Infty p) (Fin b) = Infty p"
| "num_add (Infty p) (Infty q) = (if p = q then Infty p else NaN)"
| "num_add NaN y = NaN"
| "num_add x NaN = NaN"

fun num_mul :: "num \<Rightarrow> num \<Rightarrow> num" where
  "num_mul (Fin a) (Fin b) = Fin (a * b)"
| "num_mul (Fin a) (Infty p) = (if a = 0 then NaN else Infty (p = (0 < a)))"
| "num_mul (Infty p) (Fin b) = (if b = 0 then NaN else Infty (p = (0 < b)))"
| "num_mul (Infty p) (Infty q) = Infty (p = q)"
| "num_mul NaN y = NaN"
| "num_mul x NaN = NaN"

fun num_div :: "num \<Rightarrow> num \<Rightarrow> num" where
  "num_div (Fin a) (Fin b) =
     (if b \<noteq> 0 then Fin (a / b) else if a = 0 then NaN else Infty (0 < a))"
| "num_div (Fin a) (Infty p) = Fin 0"
| "num_div (Infty p) (Fin b) = Infty (p = (0 \<le> b))"
| "num_div (Infty p) (Infty q) = NaN"
| "num_div NaN y = NaN"
| "num_div x NaN = NaN"

fun num_neg :: "num \<Rightarrow> num" where
  "num_neg (Fin a) = Fin (- a)"
| "num_neg (Infty p) = Infty (\<not> p)"
| "num_neg NaN = NaN"

declare truthy.simps [js_simps] get.simps [js_simps] num_add.simps [js_simps]
  num_mul.simps [js_simps] num_div.simps [js_simps]

section \<open>Lemmas\<close>

subsection \<open>Truthiness and reads\<close>

text \<open>A read throws exactly on \<^verbatim>\<open>undefined\<close> and \<^verbatim>\<open>null\<close>.\<close>

lemma get_Inl_iff: "(\<exists>e. get v k = Inl e) \<longleftrightarrow> v = JUndef \<or> v = JNull"
  by (cases v; cases k) auto

lemma truthy_get_Inr: "truthy v \<Longrightarrow> \<exists>w. get v k = Inr w"
  by (cases v; cases k) auto

lemma get_path_append:
  "get_path v (ks @ ks') = err_bind (get_path v ks) (\<lambda>w. get_path w ks')"
  by (induction v ks rule: get_path.induct) (auto simp: err_bind_def split: sum.splits)

lemma get_path_Inl_prefix:
  "get_path v ks = Inl e \<Longrightarrow> get_path v (ks @ ks') = Inl e"
  by (simp add: get_path_append)

subsection \<open>Arithmetic on finite numbers\<close>

lemma num_div_Fin_nonzero [simp]: "b \<noteq> 0 \<Longrightarrow> num_div (Fin a) (Fin b) = Fin (a / b)"
  by simp

lemma num_add_NaN_right [simp]: "num_add x NaN = NaN"
  by (cases x) simp_all

lemma num_mul_NaN_right [simp]: "num_mul x NaN = NaN"
  by (cases x) simp_all

lemma num_div_NaN_right [simp]: "num_div x NaN = NaN"
  by (cases x) simp_all

text \<open>Summing numbers with \<open>num_add\<close> from a finite start: a real sum while every term is finite.\<close>

lemma foldl_num_add_Fin:
  assumes "\<forall>x \<in> set xs. g x = Fin (f x)"
  shows "foldl (\<lambda>s x. num_add s (g x)) (Fin a) xs = Fin (a + sum_list (map f xs))"
  using assms by (induction xs arbitrary: a) (simp_all add: add.assoc)

text \<open>\<open>NaN\<close> is absorbing: once the running sum is \<open>NaN\<close> it stays so.\<close>

lemma foldl_num_add_NaN: "foldl (\<lambda>s x. num_add s (g x)) NaN xs = NaN"
  by (induction xs) simp_all

lemma foldl_num_add_hits_NaN:
  "\<exists>x \<in> set xs. g x = NaN \<Longrightarrow> foldl (\<lambda>s x. num_add s (g x)) a xs = NaN"
proof (induction xs arbitrary: a)
  case Nil
  then show ?case by simp
next
  case (Cons y ys)
  show ?case
  proof (cases "g y = NaN")
    case True
    then show ?thesis by (simp add: foldl_num_add_NaN)
  next
    case False
    with Cons.prems have "\<exists>x \<in> set ys. g x = NaN" by simp
    then show ?thesis by (simp add: Cons.IH)
  qed
qed

end
