(* ===== verification/JsNumber.thy ===== *)
theory JsNumber
  imports JsValue
begin

text \<open>
  ECMAScript's \<^verbatim>\<open>ToNumber\<close> on JSON values, the coercion that
  \<^verbatim>\<open>data.features[0].properties.summary.distance / 1000\<close> (line 75 of
  \<^verbatim>\<open>src/server.js\<close>) applies to whatever the routing service sent as the distance.
  On strings it is \<^verbatim>\<open>StringToNumber\<close>: surrounding white space is dropped, the empty
  string is 0, and the rest must be a \<^verbatim>\<open>StrNumericLiteral\<close> (a signed decimal with
  optional fraction and exponent, \<^verbatim>\<open>Infinity\<close>, or an unsigned \<^verbatim>\<open>0x\<close>/\<^verbatim>\<open>0o\<close>/\<^verbatim>\<open>0b\<close>
  integer), else the result is \<open>NaN\<close>.  Decimal values are kept exact (no rounding to
  a double).
\<close>

section \<open>StringToNumber\<close>

text \<open>White space in the Latin-1 range: TAB, LF, VT, FF, CR, SPACE and NO-BREAK SPACE.\<close>

definition is_ws :: "char \<Rightarrow> bool" where
  "is_ws c \<longleftrightarrow> c \<in> set [CHR 0x09, CHR 0x0A, CHR 0x0B, CHR 0x0C, CHR 0x0D, CHR 0x20, CHR 0xA0]"

definition trim_ws :: "string \<Rightarrow> string" where
  "trim_ws s = rev (dropWhile is_ws (rev (dropWhile is_ws s)))"

text \<open>The value of a digit character in radix up to 36 (\<^verbatim>\<open>0-9\<close>, \<^verbatim>\<open>a-z\<close>, \<^verbatim>\<open>A-Z\<close>).\<close>

definition digit_of :: "char \<Rightarrow> nat option" where
  "digit_of c =
     (let n = (of_char c :: nat) in
      if 48 \<le> n \<and> n \<le> 57 then Some (n - 48)
      else if 97 \<le> n \<and> n \<le> 122 then Some (n - 87)
      else if 65 \<le> n \<and> n \<le> 90 then Some (n - 55)
      else None)"

definition is_radix_digit :: "nat \<Rightarrow> char \<Rightarrow> bool" where
  "is_radix_digit b c = (case digit_of c of Some d \<Rightarrow> d < b | None \<Rightarrow> False)"

abbreviation is_digit :: "char \<Rightarrow> bool" where
  "is_digit \<equiv> is_radix_digit 10"

definition digits_value :: "nat \<Rightarrow> string \<Rightarrow> nat" where
  "digits_value b ds = foldl (\<lambda>n c. b * n + (case digit_of c of Some d \<Rightarrow> d | None \<Rightarrow> 0)) 0 ds"

text \<open>A non-empty run of digits of radix \<open>b\<close> and nothing else.\<close>

definition parse_digits :: "nat \<Rightarrow> string \<Rightarrow> nat option" where
  "parse_digits b ds =
     (if ds \<noteq> [] \<and> list_all (is_radix_digit b) ds then Some (digits_value b ds) else None)"

text \<open>\<^verbatim>\<open>NonDecimalIntegerLiteral\<close>: \<^verbatim>\<open>0x\<close>, \<^verbatim>\<open>0o\<close> or \<^verbatim>\<open>0b\<close> and its digits, no sign.\<close>

definition parse_nondecimal :: "string \<Rightarrow> num option" where
  "parse_nondecimal t =
     (case t of
        c # x # ds \<Rightarrow>
          if c = CHR ''0'' \<and> (x = CHR ''x'' \<or> x = CHR ''X'')
          then map_option (\<lambda>n. Fin (real n)) (parse_digits 16 ds)
          else if c = CHR ''0'' \<and> (x = CHR ''o'' \<or> x = CHR ''O'')
          then map_option (\<lambda>n. Fin (real n)) (parse_digits 8 ds)
          else if c = CHR ''0'' \<and> (x = CHR ''b'' \<or> x = CHR ''B'')
          then map_option (\<lambda>n. Fin (real n)) (parse_digits 2 ds)
          else None
      | _ \<Rightarrow> None)"

text \<open>\<^verbatim>\<open>ExponentPart\<close>, or nothing (exponent 0).\<close>

definition parse_exponent :: "string \<Rightarrow> int option" where
  "parse_exponent r =
     (case r of
        [] \<Rightarrow> Some 0
      | c # r' \<Rightarrow>
          if c = CHR ''e'' \<or> c = CHR ''E'' then
            (case r' of
               s # ds \<Rightarrow>
                 if s = CHR ''+'' then map_option int (parse_digits 10 ds)
                 else if s = CHR ''-'' then map_option (\<lambda>n. - int n) (parse_digits 10 ds)
                 else map_option int (parse_digits 10 r')
             | [] \<Rightarrow> None)
          else None)"

definition scale10 :: "nat \<Rightarrow> int \<Rightarrow> real" where
  "scale10 m e = (if 0 \<le> e then real m * 10 ^ nat e else real m / 10 ^ nat (- e))"

text \<open>
  \<^verbatim>\<open>StrUnsignedDecimalLiteral\<close>: \<^verbatim>\<open>Infinity\<close>, or digits with an optional fraction
  (at least one digit on one side of the point) and an optional exponent.
\<close>

definition parse_unsigned :: "string \<Rightarrow> num option" where
  "parse_unsigned t =
     (if t = ''Infinity'' then Some (Infty True)
      else
        let ip = takeWhile is_digit t;
            r1 = dropWhile is_digit t;
            (fp, r2) = (case r1 of
                          c # r \<Rightarrow> if c = CHR ''.'' then (takeWhile is_digit r, dropWhile is_digit r)
                                   else ([], r1)
                        | [] \<Rightarrow> ([], []))
        in if ip = [] \<and> fp = [] then None
           else map_option (\<lambda>e. Fin (scale10 (digits_value 10 (ip @ fp)) (e - int (length fp))))
                  (parse_exponent r2))"

definition parse_decimal :: "string \<Rightarrow> num option" where
  "parse_decimal t =
     (case t of
        c # r \<Rightarrow>
          if c = CHR ''+'' then parse_unsigned r
          else if c = CHR ''-'' then map_option num_neg (parse_unsigned r)
          else parse_unsigned t
      | [] \<Rightarrow> None)"

definition str_to_number :: "string \<Rightarrow> num" where
  "str_to_number s =
     (let t = trim_ws s in
      if t = [] then Fin 0
      else case parse_nondecimal t of
             Some n \<Rightarrow> n
           | None \<Rightarrow> (case parse_decimal t of Some n \<Rightarrow> n | None \<Rightarrow> NaN))"

section \<open>Number::toString\<close>

text \<open>
  \<^verbatim>\<open>Number::toString(x)\<close> in radix 10 (ECMAScript 6.1.6.1.20), which Mongoose's
  \<^verbatim>\<open>castString\<close> applies to a number and \<^verbatim>\<open>ToNumber\<close> applies to the element
  of a one-element array.  A finite non-zero \<open>x\<close> is written \<open>s \<times> 10\<^sup>n\<^sup>-\<^sup>k\<close> with
  \<open>s\<close> of \<open>k\<close> digits and \<open>k\<close> least (\<open>decimal_parts\<close>: scale \<open>x\<close> by ten until it is an
  integer, then strip trailing zeros); \<open>format_decimal\<close> is the choice between plain
  digits, a decimal point, a leading \<^verbatim>\<open>0.\<close> and exponent notation by the value
  of \<open>n\<close>.  Numbers are exact here, so \<open>s\<close> is the exact decimal expansion; for a
  double it is the shortest one that rounds to it, which has at most 17 digits and
  an exponent above -325, so that scaling by \<open>10\<^sup>j\<close> for some \<open>j \<le> 341\<close> reaches an
  integer.  The search is bounded by \<open>decimal_fuel = 400\<close>; an exact value with no
  terminating expansion (which no JSON number and none of the program's arithmetic on
  one produces) is printed with its first 400 decimals.
\<close>

fun first_integral_scale :: "real \<Rightarrow> nat \<Rightarrow> nat \<Rightarrow> nat" where
  "first_integral_scale x j 0 = j"
| "first_integral_scale x j (Suc f) =
     (if real_of_int \<lfloor>x * 10 ^ j\<rfloor> = x * 10 ^ j then j else first_integral_scale x (Suc j) f)"

definition decimal_fuel :: nat where
  "decimal_fuel = 400"

text \<open>The numbers that \<open>decimal_fuel\<close> decimals write exactly.\<close>

definition decimal_real :: "real \<Rightarrow> bool" where
  "decimal_real x \<longleftrightarrow> real_of_int \<lfloor>x * 10 ^ decimal_fuel\<rfloor> = x * 10 ^ decimal_fuel"

fun strip_zeros :: "nat \<Rightarrow> nat \<Rightarrow> nat \<times> nat" where
  "strip_zeros m z = (if 0 < m \<and> m mod 10 = 0 then strip_zeros (m div 10) (Suc z) else (m, z))"

declare strip_zeros.simps [simp del]

definition decimal_parts :: "real \<Rightarrow> nat \<times> int" where
  "decimal_parts x =
     (let j = first_integral_scale x 0 decimal_fuel;
          (s, z) = strip_zeros (nat \<lfloor>x * 10 ^ j\<rfloor>) 0
      in (s, int (length (dec_string s)) + int z - int j))"

definition exponent_string :: "int \<Rightarrow> string" where
  "exponent_string e = (if 0 \<le> e then CHR ''+'' else CHR ''-'') # dec_string (nat \<bar>e\<bar>)"

definition format_decimal :: "string \<Rightarrow> int \<Rightarrow> string" where
  "format_decimal ds n =
     (let k = int (length ds) in
      if k \<le> n \<and> n \<le> 21 then ds @ replicate (nat (n - k)) (CHR ''0'')
      else if 0 < n \<and> n \<le> 21 then take (nat n) ds @ CHR ''.'' # drop (nat n) ds
      else if -6 < n \<and> n \<le> 0 then ''0.'' @ replicate (nat (- n)) (CHR ''0'') @ ds
      else if k = 1 then ds @ CHR ''e'' # exponent_string (n - 1)
      else take 1 ds @ CHR ''.'' # drop 1 ds @ CHR ''e'' # exponent_string (n - 1))"

definition format_positive :: "real \<Rightarrow> string" where
  "format_positive x = (case decimal_parts x of (s, n) \<Rightarrow> format_decimal (dec_string s) n)"

fun num_to_string :: "num \<Rightarrow> string" where
  "num_to_string NaN = ''NaN''"
| "num_to_string (Infty b) = (if b then ''Infinity'' else ''-Infinity'')"
| "num_to_string (Fin x) =
     (if x = 0 then ''0'' else if x < 0 then CHR ''-'' # format_positive (- x) else format_positive x)"

section \<open>ToNumber\<close>

text \<open>
  \<^verbatim>\<open>ToNumber\<close> on a JSON value.  An object converts through
  \<^verbatim>\<open>"[object Object]"\<close>, which is \<open>NaN\<close>.  An array converts through
  \<^verbatim>\<open>join(",")\<close>: the empty array is \<^verbatim>\<open>""\<close>, hence 0; two or more elements give a
  string with a comma, hence \<open>NaN\<close>; a single element gives that element's string
  (empty for \<^verbatim>\<open>null\<close>), so the result is the element's own conversion: a number
  through its \<^verbatim>\<open>Number::toString\<close> text, a boolean (\<^verbatim>\<open>"true"\<close>, \<^verbatim>\<open>"false"\<close>)
  to \<open>NaN\<close>.
\<close>

fun to_number :: "jsval \<Rightarrow> num" where
  "to_number JUndef = NaN"
| "to_number JNull = Fin 0"
| "to_number (JBool b) = Fin (if b then 1 else 0)"
| "to_number (JNum n) = n"
| "to_number (JStr s) = str_to_number s"
| "to_number (JObj kvs) = NaN"
| "to_number (JArr []) = Fin 0"
| "to_number (JArr [x]) =
     (case x of
        JUndef \<Rightarrow> Fin 0
      | JNull \<Rightarrow> Fin 0
      | JBool b \<Rightarrow> NaN
      | JNum n \<Rightarrow> str_to_number (num_to_string n)
      | JStr s \<Rightarrow> str_to_number s
      | JArr ys \<Rightarrow> to_number (JArr ys)
      | JObj kvs \<Rightarrow> NaN)"
| "to_number (JArr (x # y # zs)) = NaN"

declare to_number.simps [js_simps]

section \<open>Lemmas\<close>

lemma digit_of_char [simp]: "k < 10 \<Longrightarrow> digit_of (char_of (48 + k)) = Some k"
  by (simp add: digit_of_def)

lemma is_digit_not_ws: "is_digit c \<Longrightarrow> \<not> is_ws c"
  by (auto simp: is_radix_digit_def digit_of_def is_ws_def Let_def split: if_splits)

lemma digits_value_snoc:
  "digits_value b (ds @ [c]) = b * digits_value b ds + (case digit_of c of Some d \<Rightarrow> d | None \<Rightarrow> 0)"
  by (simp add: digits_value_def)

lemma dec_string_digits: "list_all is_digit (dec_string n)"
proof (induction n rule: dec_string.induct)
  case (1 n)
  show ?case
  proof (cases "n < 10")
    case True
    then show ?thesis by (subst dec_string.simps) (simp add: is_radix_digit_def)
  next
    case False
    with "1.IH" have "list_all is_digit (dec_string (n div 10))" by simp
    moreover have "is_digit (char_of (48 + n mod 10))" by (simp add: is_radix_digit_def)
    ultimately show ?thesis using False by (subst dec_string.simps) simp
  qed
qed

lemma dec_string_nonempty: "dec_string n \<noteq> []"
  by (subst dec_string.simps) simp

lemma digits_value_dec_string: "digits_value 10 (dec_string n) = n"
proof (induction n rule: dec_string.induct)
  case (1 n)
  show ?case
  proof (cases "n < 10")
    case True
    then show ?thesis by (subst dec_string.simps) (simp add: digits_value_def)
  next
    case False
    with "1.IH" have "digits_value 10 (dec_string (n div 10)) = n div 10" by simp
    with False show ?thesis
      by (subst dec_string.simps) (simp add: digits_value_snoc)
  qed
qed

lemma trim_ws_around:
  assumes "list_all is_ws w1" and "list_all is_ws w2" and "ds \<noteq> []"
    and "\<not> is_ws (hd ds)" and "\<not> is_ws (last ds)"
  shows "trim_ws (w1 @ ds @ w2) = ds"
proof -
  from assms(1) have "dropWhile is_ws (w1 @ ds @ w2) = dropWhile is_ws (ds @ w2)"
    by (simp add: list_all_iff)
  also from assms(3,4) have "\<dots> = ds @ w2" by (cases ds) simp_all
  finally have d: "dropWhile is_ws (w1 @ ds @ w2) = ds @ w2" .
  from assms(2) have "dropWhile is_ws (rev (ds @ w2)) = dropWhile is_ws (rev ds)"
    by (simp, subst dropWhile_append2) (auto simp: list_all_iff)
  also from assms(3,5) have "\<dots> = rev ds"
    by (simp add: dropWhile_eq_self_iff hd_rev)
  finally show ?thesis using d by (simp add: trim_ws_def)
qed

lemma parse_unsigned_digits:
  assumes "ds \<noteq> []" and "list_all is_digit ds"
  shows "parse_unsigned ds = Some (Fin (real (digits_value 10 ds)))"
proof -
  have "ds \<noteq> ''Infinity''"
  proof
    assume "ds = ''Infinity''"
    with assms(2) show False by (simp add: is_radix_digit_def digit_of_def)
  qed
  moreover from assms(2) have tw: "takeWhile is_digit ds = ds" and dw: "dropWhile is_digit ds = []"
    by (simp_all add: list_all_iff)
  ultimately show ?thesis using assms(1)
    by (simp add: parse_unsigned_def parse_exponent_def scale10_def Let_def tw dw)
qed

text \<open>The core of the conversion: a string whose trimmed form is a run of digits.\<close>

lemma str_to_number_trimmed:
  assumes "trim_ws s = ds" and "ds \<noteq> []" and "list_all is_digit ds"
  shows "str_to_number s = Fin (real (digits_value 10 ds))"
proof -
  obtain c cs where ds: "ds = c # cs" using assms(2) by (cases ds) auto
  from assms(3) ds have c: "is_digit c" by simp
  have nd: "parse_nondecimal ds = None"
  proof (cases cs)
    case Nil
    with ds show ?thesis by (simp add: parse_nondecimal_def)
  next
    case (Cons x xs)
    with assms(3) ds have "is_digit x" by simp
    then have "x \<notin> set ''xXoObB''" by (auto simp: is_radix_digit_def digit_of_def)
    with ds Cons show ?thesis by (auto simp: parse_nondecimal_def)
  qed
  from c have "c \<noteq> CHR ''+''" "c \<noteq> CHR ''-''" by (auto simp: is_radix_digit_def digit_of_def)
  with ds have "parse_decimal ds = parse_unsigned ds" by (simp add: parse_decimal_def)
  with assms nd show ?thesis
    by (simp add: str_to_number_def parse_unsigned_digits)
qed

lemma digits_trim_ws:
  assumes "list_all is_ws w1" and "list_all is_ws w2" and "ds \<noteq> []" and "list_all is_digit ds"
  shows "trim_ws (w1 @ ds @ w2) = ds"
proof -
  from assms(3,4) have "\<not> is_ws (hd ds)" "\<not> is_ws (last ds)"
    by (simp_all add: is_digit_not_ws list_all_iff)
  with assms show ?thesis by (simp add: trim_ws_around)
qed

text \<open>
  StringToNumber on digit strings: a non-empty string of decimal digits, with
  white space on either side, converts to its decimal value.
\<close>

lemma str_to_number_digits:
  assumes "list_all is_ws w1" and "list_all is_ws w2"
    and "ds \<noteq> []" and "list_all is_digit ds"
  shows "str_to_number (w1 @ ds @ w2) = Fin (real (digits_value 10 ds))"
  using str_to_number_trimmed [OF digits_trim_ws [OF assms] assms(3,4)] .

theorem str_to_number_digits_witness:
  "list_all is_ws [CHR 0x20] \<and> list_all is_ws [CHR 0x0A] \<and> ''2000'' \<noteq> [] \<and>
   list_all is_digit ''2000'' \<and> str_to_number (CHR 0x20 # ''2000'' @ [CHR 0x0A]) = Fin 2000"
proof -
  have h1: "list_all is_ws [CHR 0x20]" and h2: "list_all is_ws [CHR 0x0A]"
    by (simp_all add: is_ws_def)
  have h3: "list_all is_digit ''2000''" by (simp add: is_radix_digit_def digit_of_def)
  show ?thesis
    using str_to_number_digits [OF h1 h2 _ h3] h1 h2 h3 by (simp add: digits_value_def digit_of_def)
qed

subsection \<open>Number::toString read back\<close>

lemma scale10_powi: "scale10 m e = real m * 10 powi e"
  by (simp add: scale10_def power_int_minus_divide power_int_of_nat [symmetric])

lemma not_ws_chars:
  "\<not> is_ws (CHR ''.'')" "\<not> is_ws (CHR ''e'')" "\<not> is_ws (CHR ''+'')" "\<not> is_ws (CHR ''-'')"
  by (simp_all add: is_ws_def)

lemma trim_ws_no_ws: "list_all (\<lambda>c. \<not> is_ws c) s \<Longrightarrow> trim_ws s = s"
  by (simp add: trim_ws_def dropWhile_eq_self_iff list_all_iff hd_rev)
    (metis dropWhile_eq_self_iff hd_in_set hd_rev list.set_sel(1) rev_is_Nil_conv rev_rev_ident set_rev)

lemma digit_zero: "is_digit (CHR ''0'')"
  by (simp add: is_radix_digit_def digit_of_def)

lemma not_digit_chars:
  "\<not> is_digit (CHR ''.'')" "\<not> is_digit (CHR ''e'')"
  by (simp_all add: is_radix_digit_def digit_of_def)

lemma digits_value_leading_zeros:
  "digits_value b (replicate z (CHR ''0'') @ ds) = digits_value b ds"
  by (induction z) (simp_all add: digits_value_def digit_of_def)

lemma digits_value_append: "digits_value b (xs @ ys) = digits_value b xs * b ^ length ys + digits_value b ys"
proof (induction ys rule: rev_induct)
  case Nil
  then show ?case by (simp add: digits_value_def)
next
  case (snoc y ys)
  then show ?case by (simp add: append_assoc [symmetric] digits_value_snoc del: append_assoc)
      (simp add: algebra_simps)
qed

lemma digits_value_trailing_zeros:
  "digits_value b (ds @ replicate z (CHR ''0'')) = digits_value b ds * b ^ z"
  using digits_value_append [of b ds "replicate z (CHR ''0'')"]
    digits_value_leading_zeros [of b z "[]"]
  by (simp add: digits_value_def)

lemma parse_exponent_string: "parse_exponent (CHR ''e'' # exponent_string e) = Some e"
  by (simp add: parse_exponent_def exponent_string_def parse_digits_def dec_string_nonempty
      dec_string_digits digits_value_dec_string)

lemma parse_unsigned_point:
  assumes "ip \<noteq> []" "list_all is_digit ip" "list_all is_digit fp"
    and "parse_exponent r = Some e" and "r = [] \<or> (\<exists>r'. r = CHR ''e'' # r')"
  shows "parse_unsigned (ip @ CHR ''.'' # fp @ r) =
           Some (Fin (scale10 (digits_value 10 (ip @ fp)) (e - int (length fp))))"
proof -
  have "ip @ CHR ''.'' # fp @ r \<noteq> ''Infinity''"
    using assms(1,2) by (cases ip) (auto simp: is_radix_digit_def digit_of_def)
  moreover have "takeWhile is_digit (ip @ CHR ''.'' # fp @ r) = ip"
    "dropWhile is_digit (ip @ CHR ''.'' # fp @ r) = CHR ''.'' # fp @ r"
    using assms(2) not_digit_chars by (simp_all add: list_all_iff takeWhile_append2 dropWhile_append2)
  moreover have "takeWhile is_digit (fp @ r) = fp" "dropWhile is_digit (fp @ r) = r"
    using assms(3,5) not_digit_chars by (auto simp: list_all_iff takeWhile_append2 dropWhile_append2)
  ultimately show ?thesis using assms(1,4) by (simp add: parse_unsigned_def Let_def)
qed

lemma parse_unsigned_int:
  assumes "ip \<noteq> []" "list_all is_digit ip"
    and "parse_exponent r = Some e" and "r = [] \<or> (\<exists>r'. r = CHR ''e'' # r')"
  shows "parse_unsigned (ip @ r) = Some (Fin (scale10 (digits_value 10 ip) e))"
proof -
  have "ip @ r \<noteq> ''Infinity''"
    using assms(1,2) by (cases ip) (auto simp: is_radix_digit_def digit_of_def)
  moreover have "takeWhile is_digit (ip @ r) = ip" "dropWhile is_digit (ip @ r) = r"
    using assms(2,4) not_digit_chars by (auto simp: list_all_iff takeWhile_append2 dropWhile_append2)
  moreover have "(case r of c # r' \<Rightarrow> if c = CHR ''.'' then (takeWhile is_digit r', dropWhile is_digit r')
                   else ([], r) | [] \<Rightarrow> ([], [])) = ([], r)"
    using assms(4) by auto
  ultimately show ?thesis using assms(1,3) by (simp add: parse_unsigned_def Let_def)
qed

lemma digits_no_ws: "list_all is_digit ds \<Longrightarrow> list_all (\<lambda>c. \<not> is_ws c) ds"
  by (simp add: list_all_iff is_digit_not_ws)

lemma exponent_string_no_ws: "list_all (\<lambda>c. \<not> is_ws c) (exponent_string e)"
  using digits_no_ws [OF dec_string_digits] by (simp add: exponent_string_def is_ws_def)

lemma digit_not_radix_mark: "is_digit x \<Longrightarrow> x \<notin> set ''xXoObB''"
  by (auto simp: is_radix_digit_def digit_of_def)

lemma parse_nondecimal_second:
  "x \<notin> set ''xXoObB'' \<Longrightarrow> parse_nondecimal (c # x # r) = None"
  "parse_nondecimal [c] = None"
  by (auto simp: parse_nondecimal_def)

text \<open>A string that \<^verbatim>\<open>StrUnsignedDecimalLiteral\<close> reads, with no white space and a leading digit.\<close>

lemma str_to_number_form:
  assumes "list_all (\<lambda>c. \<not> is_ws c) t" and "t \<noteq> []" and "is_digit (hd t)"
    and "parse_nondecimal t = None" and "parse_unsigned t = Some v"
  shows "str_to_number t = v" and "str_to_number (CHR ''-'' # t) = num_neg v"
proof -
  from assms(2,3) have "hd t \<noteq> CHR ''+''" "hd t \<noteq> CHR ''-''"
    by (auto simp: is_radix_digit_def digit_of_def)
  with assms(2) have "parse_decimal t = parse_unsigned t"
    by (cases t) (simp_all add: parse_decimal_def)
  with assms show "str_to_number t = v" by (simp add: str_to_number_def trim_ws_no_ws)
  have "list_all (\<lambda>c. \<not> is_ws c) (CHR ''-'' # t)" using assms(1) not_ws_chars by simp
  moreover have "parse_nondecimal (CHR ''-'' # t) = None"
    by (cases t) (simp_all add: parse_nondecimal_def)
  ultimately show "str_to_number (CHR ''-'' # t) = num_neg v"
    using assms(5) by (simp add: str_to_number_def trim_ws_no_ws parse_decimal_def)
qed

lemma parse_format_decimal:
  assumes "ds \<noteq> []" and "list_all is_digit ds"
  shows "parse_unsigned (format_decimal ds n) =
           Some (Fin (scale10 (digits_value 10 ds) (n - int (length ds))))"
proof -
  let ?k = "int (length ds)" and ?v = "digits_value 10 ds"
  have pe0: "parse_exponent [] = Some 0" by (simp add: parse_exponent_def)
  have zeros: "list_all is_digit (replicate z (CHR ''0''))" for z by (simp add: list_all_iff digit_zero)
  consider (int) "?k \<le> n \<and> n \<le> 21" | (point) "\<not> (?k \<le> n \<and> n \<le> 21)" "0 < n \<and> n \<le> 21"
    | (small) "\<not> (?k \<le> n \<and> n \<le> 21)" "\<not> (0 < n \<and> n \<le> 21)" "-6 < n \<and> n \<le> 0"
    | (exp1) "\<not> (?k \<le> n \<and> n \<le> 21)" "\<not> (0 < n \<and> n \<le> 21)" "\<not> (-6 < n \<and> n \<le> 0)" "?k = 1"
    | (exp) "\<not> (?k \<le> n \<and> n \<le> 21)" "\<not> (0 < n \<and> n \<le> 21)" "\<not> (-6 < n \<and> n \<le> 0)" "?k \<noteq> 1"
    by blast
  then show ?thesis
  proof cases
    case int
    have "parse_unsigned ((ds @ replicate (nat (n - ?k)) (CHR ''0'')) @ []) =
            Some (Fin (scale10 (digits_value 10 (ds @ replicate (nat (n - ?k)) (CHR ''0''))) 0))"
      using assms zeros by (intro parse_unsigned_int pe0) simp_all
    with int show ?thesis
      by (simp add: format_decimal_def digits_value_trailing_zeros scale10_def)
  next
    case point
    then have "nat n < length ds" by linarith
    have "parse_unsigned (take (nat n) ds @ CHR ''.'' # drop (nat n) ds @ []) =
            Some (Fin (scale10 (digits_value 10 (take (nat n) ds @ drop (nat n) ds))
                                (0 - int (length (drop (nat n) ds)))))"
      using assms point by (intro parse_unsigned_point pe0)
        (auto simp: list_all_iff dest: in_set_takeD in_set_dropD)
    with point \<open>nat n < length ds\<close> show ?thesis by (simp add: format_decimal_def)
  next
    case small
    have "parse_unsigned (''0'' @ CHR ''.'' # (replicate (nat (- n)) (CHR ''0'') @ ds) @ []) =
            Some (Fin (scale10 (digits_value 10 (''0'' @ replicate (nat (- n)) (CHR ''0'') @ ds))
                                (0 - int (length (replicate (nat (- n)) (CHR ''0'') @ ds)))))"
      using assms zeros digit_zero by (intro parse_unsigned_point pe0) simp_all
    moreover have "digits_value 10 (''0'' @ replicate (nat (- n)) (CHR ''0'') @ ds) = ?v"
      using digits_value_leading_zeros [of 10 "Suc (nat (- n))" ds] by simp
    ultimately show ?thesis using small by (simp add: format_decimal_def)
  next
    case exp1
    have "parse_unsigned (ds @ CHR ''e'' # exponent_string (n - 1)) =
            Some (Fin (scale10 ?v (n - 1)))"
      using assms by (intro parse_unsigned_int parse_exponent_string) simp_all
    moreover from exp1 have "format_decimal ds n = ds @ CHR ''e'' # exponent_string (n - 1)"
      by (auto simp: format_decimal_def Let_def)
    ultimately show ?thesis using exp1 by simp
  next
    case exp
    have "parse_unsigned (take 1 ds @ CHR ''.'' # drop 1 ds @ CHR ''e'' # exponent_string (n - 1)) =
            Some (Fin (scale10 (digits_value 10 (take 1 ds @ drop 1 ds))
                                (n - 1 - int (length (drop 1 ds)))))"
      using assms by (intro parse_unsigned_point parse_exponent_string)
        (auto simp: list_all_iff dest: in_set_takeD in_set_dropD)
    moreover from exp have "format_decimal ds n =
        take 1 ds @ CHR ''.'' # drop 1 ds @ CHR ''e'' # exponent_string (n - 1)"
      by (auto simp: format_decimal_def Let_def)
    moreover from assms(1) have "n - 1 - int (length (drop 1 ds)) = n - int (length ds)"
      by (cases ds) simp_all
    ultimately show ?thesis using assms(1) by simp
  qed
qed

lemma parse_nondecimal_plain: "list_all (\<lambda>c. c \<notin> set ''xXoObB'') t \<Longrightarrow> parse_nondecimal t = None"
  by (cases t rule: remdups_adj.cases) (simp_all add: parse_nondecimal_def)

lemma format_decimal_chars:
  assumes "list_all is_digit ds"
  shows "list_all (\<lambda>c. is_digit c \<or> c \<in> set ''.e+-'') (format_decimal ds n)"
proof -
  have d: "list_all (\<lambda>c. is_digit c \<or> c \<in> set ''.e+-'') (exponent_string e)" for e
    using dec_string_digits [of "nat \<bar>e\<bar>"] by (simp add: exponent_string_def list_all_iff)
  from assms d digit_zero show ?thesis
    by (auto simp: format_decimal_def Let_def list_all_iff dest: in_set_takeD in_set_dropD)
qed

lemma format_decimal_head:
  assumes "ds \<noteq> []" and "list_all is_digit ds"
  shows "format_decimal ds n \<noteq> [] \<and> is_digit (hd (format_decimal ds n))"
proof -
  from assms have "is_digit (hd ds)" by (cases ds) simp_all
  with assms digit_zero show ?thesis
    by (cases ds) (auto simp: format_decimal_def Let_def)
qed

lemma str_to_number_format_decimal:
  fixes n :: int
  assumes "ds \<noteq> []" and "list_all is_digit ds"
  defines "v \<equiv> Fin (scale10 (digits_value 10 ds) (n - int (length ds)))"
  shows "str_to_number (format_decimal ds n) = v"
    and "str_to_number (CHR ''-'' # format_decimal ds n) = num_neg v"
proof -
  have chars: "list_all (\<lambda>c. is_digit c \<or> c \<in> set ''.e+-'') (format_decimal ds n)"
    using assms(2) by (rule format_decimal_chars)
  moreover have "is_digit c \<or> c \<in> set ''.e+-'' \<Longrightarrow> \<not> is_ws c" for c
    using is_digit_not_ws by (auto simp: is_ws_def)
  ultimately have "list_all (\<lambda>c. \<not> is_ws c) (format_decimal ds n)"
    unfolding list_all_iff by blast
  moreover have "is_digit c \<or> c \<in> set ''.e+-'' \<Longrightarrow> c \<notin> set ''xXoObB''" for c
    using digit_not_radix_mark by auto
  with chars have "parse_nondecimal (format_decimal ds n) = None"
    unfolding list_all_iff by (intro parse_nondecimal_plain) (simp add: list_all_iff)
  moreover note format_decimal_head [OF assms(1,2)]
  moreover note parse_format_decimal [OF assms(1,2), of n]
  ultimately show "str_to_number (format_decimal ds n) = v"
    and "str_to_number (CHR ''-'' # format_decimal ds n) = num_neg v"
    unfolding v_def using str_to_number_form by blast+
qed

lemma first_integral_scale_integral:
  assumes "j \<le> i" and "i \<le> j + f" and "real_of_int \<lfloor>x * 10 ^ i\<rfloor> = x * 10 ^ i"
  shows "real_of_int \<lfloor>x * 10 ^ first_integral_scale x j f\<rfloor> = x * 10 ^ first_integral_scale x j f"
  using assms
proof (induction f arbitrary: j)
  case 0
  then show ?case by simp
next
  case (Suc f)
  show ?case
  proof (cases "real_of_int \<lfloor>x * 10 ^ j\<rfloor> = x * 10 ^ j")
    case False
    with Suc.prems have "Suc j \<le> i" by (cases "i = j") auto
    with Suc.prems Suc.IH [of "Suc j"] False show ?thesis by simp
  qed simp
qed

lemma strip_zeros_value:
  "strip_zeros m z = (s, z') \<Longrightarrow> m * 10 ^ z = s * 10 ^ z' \<and> (0 < m \<longrightarrow> 0 < s)"
proof (induction m z rule: strip_zeros.induct)
  case (1 m z)
  show ?case
  proof (cases "0 < m \<and> m mod 10 = 0")
    case True
    with "1.prems" have "strip_zeros (m div 10) (Suc z) = (s, z')" by (simp add: strip_zeros.simps)
    with "1.IH" True have "m div 10 * 10 ^ Suc z = s * 10 ^ z'" "0 < m div 10 \<longrightarrow> 0 < s" by auto
    with True show ?thesis by (auto simp: mult.assoc [symmetric])
  next
    case False
    with "1.prems" show ?thesis by (simp add: strip_zeros.simps)
  qed
qed

lemma decimal_parts_value:
  assumes "0 < x" and "j \<le> decimal_fuel" and "real_of_int \<lfloor>x * 10 ^ j\<rfloor> = x * 10 ^ j"
    and "decimal_parts x = (s, n)"
  shows "x = scale10 s (n - int (length (dec_string s)))"
proof -
  define j0 where "j0 = first_integral_scale x 0 decimal_fuel"
  have int0: "real_of_int \<lfloor>x * 10 ^ j0\<rfloor> = x * 10 ^ j0"
    unfolding j0_def using assms(2,3) by (intro first_integral_scale_integral) simp_all
  obtain z where sz: "strip_zeros (nat \<lfloor>x * 10 ^ j0\<rfloor>) 0 = (s, z)"
    and n: "n = int (length (dec_string s)) + int z - int j0"
  proof -
    obtain s' z' where sz': "strip_zeros (nat \<lfloor>x * 10 ^ j0\<rfloor>) 0 = (s', z')" by fastforce
    with assms(4) have "s' = s" "n = int (length (dec_string s)) + int z' - int j0"
      unfolding decimal_parts_def j0_def [symmetric] Let_def by auto
    with sz' that show ?thesis by blast
  qed
  have pos: "0 \<le> \<lfloor>x * 10 ^ j0\<rfloor>" using assms(1) by simp
  have "nat \<lfloor>x * 10 ^ j0\<rfloor> = s * 10 ^ z" using strip_zeros_value [OF sz] by simp
  then have "real_of_int \<lfloor>x * 10 ^ j0\<rfloor> = real s * 10 ^ z"
    using pos by (metis of_nat_nat of_nat_mult of_nat_numeral of_nat_power)
  with int0 have "x * 10 ^ j0 = real s * 10 ^ z" by simp
  then have x: "x = real s * 10 ^ z / 10 ^ j0" by (simp add: eq_divide_eq)
  have "(10::real) powi (int z - int j0) = 10 ^ z / 10 ^ j0"
    by (simp add: power_int_diff power_int_of_nat)
  with x n show ?thesis by (simp add: scale10_powi)
qed

lemma str_to_number_positive:
  assumes "0 < x" and "j \<le> decimal_fuel" and "real_of_int \<lfloor>x * 10 ^ j\<rfloor> = x * 10 ^ j"
  shows "str_to_number (format_positive x) = Fin x"
    and "str_to_number (CHR ''-'' # format_positive x) = Fin (- x)"
proof -
  obtain s n where p: "decimal_parts x = (s, n)" by fastforce
  have v: "x = scale10 s (n - int (length (dec_string s)))"
    using decimal_parts_value [OF assms p] .
  show "str_to_number (format_positive x) = Fin x"
    and "str_to_number (CHR ''-'' # format_positive x) = Fin (- x)"
    using str_to_number_format_decimal [OF dec_string_nonempty dec_string_digits, of s n] v p
    by (simp_all add: format_positive_def digits_value_dec_string)
qed

text \<open>Every number with a terminating decimal expansion of at most 400 decimals reads back.\<close>

lemma str_to_number_num_to_string:
  assumes "j \<le> decimal_fuel" and "real_of_int \<lfloor>x * 10 ^ j\<rfloor> = x * 10 ^ j"
  shows "str_to_number (num_to_string (Fin x)) = Fin x"
proof (cases "x = 0")
  case True
  have "str_to_number ''0'' = Fin (real (digits_value 10 ''0''))"
    by (rule str_to_number_trimmed) (simp_all add: trim_ws_def is_ws_def digit_zero)
  with True show ?thesis by (simp add: digits_value_def digit_of_def)
next
  case False
  show ?thesis
  proof (cases "0 < x")
    case True
    then show ?thesis using str_to_number_positive(1) [OF True assms] by simp
  next
    case False
    with \<open>x \<noteq> 0\<close> have p: "0 < - x" by simp
    have "- x * 10 ^ j = real_of_int (- \<lfloor>x * 10 ^ j\<rfloor>)"
      by (simp only: of_int_minus assms(2) mult_minus_left)
    then have i: "real_of_int \<lfloor>- x * 10 ^ j\<rfloor> = - x * 10 ^ j" by (simp only: floor_of_int)
    show ?thesis using str_to_number_positive(2) [OF p assms(1) i] False \<open>x \<noteq> 0\<close> by simp
  qed
qed


lemma decimal_real_int: "decimal_real (of_int m)"
  unfolding decimal_real_def by (metis floor_of_int of_int_mult of_int_numeral of_int_power)

lemma decimal_real_scaled:
  assumes "k \<le> decimal_fuel"
  shows "decimal_real (of_int m / 10 ^ k)"
proof -
  from assms have "(10 :: real) ^ decimal_fuel = 10 ^ k * 10 ^ (decimal_fuel - k)"
    by (simp add: power_add [symmetric])
  then have "of_int m / 10 ^ k * 10 ^ decimal_fuel = real_of_int (m * 10 ^ (decimal_fuel - k))"
    by simp
  then show ?thesis unfolding decimal_real_def by (metis floor_of_int)
qed

text \<open>\<^verbatim>\<open>Number::toString\<close> writes digits, the point, the exponent mark and signs only.\<close>

lemma num_to_string_chars: "list_all (\<lambda>c. is_digit c \<or> c \<in> set ''.e+-'') (num_to_string (Fin x))"
proof -
  have "list_all (\<lambda>c. is_digit c \<or> c \<in> set ''.e+-'') (format_positive y)" for y
    using format_decimal_chars [OF dec_string_digits] by (simp add: format_positive_def split: prod.splits)
  then show ?thesis by (simp add: digit_zero)
qed

end
