(* ===== verification/MongooseCast.thy ===== *)
theory MongooseCast
  imports JsNumber
begin

text \<open>
  Mongoose's casting of a value to the type its schema path declares.  The schema of
  lines 24--32 of \<^verbatim>\<open>src/server.js\<close> declares \<^verbatim>\<open>passenger_id\<close> a \<^verbatim>\<open>String\<close> and the
  six other paths \<^verbatim>\<open>Number\<close>s; \<^verbatim>\<open>new Ticket({...})\<close> (line 79) casts every value it
  is given, and a value that does not cast is recorded as a \<^verbatim>\<open>CastError\<close> and left
  unset.  The rules are those of Mongoose's \<^verbatim>\<open>SchemaNumber.prototype.cast\<close> with
  \<^verbatim>\<open>castNumber\<close> (\<^verbatim>\<open>lib/schema/number.js\<close>, \<^verbatim>\<open>lib/cast/number.js\<close>) and
  \<^verbatim>\<open>SchemaString.prototype.cast\<close> with \<^verbatim>\<open>castString\<close>, on the JSON values a request
  body holds.  The message of a \<^verbatim>\<open>CastError\<close> (\<^verbatim>\<open>lib/error/cast.js\<close>) shows the value
  through Node's \<^verbatim>\<open>util.inspect\<close>; \<open>inspect_value\<close> renders it on one line, as
  \<^verbatim>\<open>util.inspect\<close> does for values that fit its line width (longer ones it breaks
  over several lines, which is not modelled).
\<close>

section \<open>Casting a value\<close>

datatype schema_type = SchemaString | SchemaNumber

text \<open>
  \<^verbatim>\<open>SchemaNumber.cast\<close> first replaces a value that has an \<^verbatim>\<open>_id\<close> (a document) by
  that \<^verbatim>\<open>_id\<close>; among JSON values only an object with an \<^verbatim>\<open>_id\<close> key has one.
\<close>

definition number_cast_input :: "jsval \<Rightarrow> jsval" where
  "number_cast_input v =
     (case v of JObj kvs \<Rightarrow> (case lookup_last kvs ''_id'' of Some w \<Rightarrow> w | None \<Rightarrow> v) | _ \<Rightarrow> v)"

text \<open>
  \<^verbatim>\<open>castNumber\<close>: \<^verbatim>\<open>null\<close> and \<^verbatim>\<open>undefined\<close> stay, the empty string is \<^verbatim>\<open>null\<close>,
  strings and booleans go through \<^verbatim>\<open>Number(v)\<close>, and the result must not be
  \<open>NaN\<close>; an array or an object never casts (\<^verbatim>\<open>assert.ok\<close> fails).  \<open>None\<close> is the
  \<^verbatim>\<open>CastError\<close>.
\<close>

fun cast_number :: "jsval \<Rightarrow> jsval option" where
  "cast_number JUndef = Some JUndef"
| "cast_number JNull = Some JNull"
| "cast_number (JBool b) = Some (JNum (Fin (if b then 1 else 0)))"
| "cast_number (JNum n) = (if n = NaN then None else Some (JNum n))"
| "cast_number (JStr s) =
     (if s = [] then Some JNull
      else if str_to_number s = NaN then None else Some (JNum (str_to_number s)))"
| "cast_number (JArr xs) = None"
| "cast_number (JObj kvs) = None"

text \<open>
  \<^verbatim>\<open>castString\<close>: \<^verbatim>\<open>null\<close> and \<^verbatim>\<open>undefined\<close> stay, a document gives its string
  \<^verbatim>\<open>_id\<close>, a value with its own \<^verbatim>\<open>toString\<close> (strings, numbers, booleans) gives
  \<^verbatim>\<open>v.toString()\<close>; arrays and plain objects never cast.
\<close>

fun cast_string :: "jsval \<Rightarrow> jsval option" where
  "cast_string JUndef = Some JUndef"
| "cast_string JNull = Some JNull"
| "cast_string (JBool b) = Some (JStr (if b then ''true'' else ''false''))"
| "cast_string (JNum n) = Some (JStr (num_to_string n))"
| "cast_string (JStr s) = Some (JStr s)"
| "cast_string (JArr xs) = None"
| "cast_string (JObj kvs) =
     (case lookup_last kvs ''_id'' of Some (JStr s) \<Rightarrow> if s \<noteq> [] then Some (JStr s) else None | _ \<Rightarrow> None)"

text \<open>
  \<^verbatim>\<open>castNumber\<close> tests \<^verbatim>\<open>isNaN(v)\<close>, which converts an object or array to a primitive.
  A JSON object with its own \<^verbatim>\<open>toString\<close> key has no callable \<^verbatim>\<open>toString\<close>, so the
  conversion throws a \<^verbatim>\<open>TypeError\<close>, as it does for an array holding such an object
  (through \<^verbatim>\<open>join\<close>); the \<^verbatim>\<open>CastError\<close> then names that reason.
\<close>

fun to_primitive_throws :: "jsval \<Rightarrow> bool" where
  "to_primitive_throws (JObj kvs) = (lookup_last kvs ''toString'' \<noteq> None)"
| "to_primitive_throws (JArr xs) = (\<exists>x \<in> set xs. to_primitive_throws x)"
| "to_primitive_throws v = False"

text \<open>
  A failed cast: the path, the type, the value the error reports and whether its
  reason is a \<^verbatim>\<open>TypeError\<close>.
\<close>

datatype cast_failure = CastFailure string schema_type jsval bool

definition cast_path :: "string \<Rightarrow> schema_type \<Rightarrow> jsval \<Rightarrow> cast_failure + jsval" where
  "cast_path p ty v =
     (case ty of
        SchemaString \<Rightarrow>
          (case cast_string v of Some w \<Rightarrow> Inr w | None \<Rightarrow> Inl (CastFailure p SchemaString v False))
      | SchemaNumber \<Rightarrow>
          (let u = number_cast_input v in
           case cast_number u of
             Some w \<Rightarrow> Inr w
           | None \<Rightarrow> Inl (CastFailure p SchemaNumber u (to_primitive_throws u))))"

text \<open>The values a path of each type can hold once cast.\<close>

fun schema_value :: "schema_type \<Rightarrow> jsval \<Rightarrow> bool" where
  "schema_value ty JUndef = True"
| "schema_value ty JNull = True"
| "schema_value SchemaString (JStr s) = True"
| "schema_value SchemaNumber (JNum n) = (n \<noteq> NaN)"
| "schema_value ty v = False"

section \<open>Error messages\<close>

text \<open>\<^verbatim>\<open>Array.prototype.join(sep)\<close> on strings.\<close>

fun join_strings :: "string \<Rightarrow> string list \<Rightarrow> string" where
  "join_strings sep [] = []"
| "join_strings sep [x] = x"
| "join_strings sep (x # y # zs) = x @ sep @ join_strings sep (y # zs)"

text \<open>
  \<^verbatim>\<open>util.inspect\<close> on a string (Node's \<^verbatim>\<open>strEscape\<close>): single quotes, unless the
  string holds one and no double quote (then double quotes), or holds both and neither
  a backtick nor \<^verbatim>\<open>${\<close> (then backticks).  Backslash, control characters,
  \<^verbatim>\<open>\x7F\<close>--\<^verbatim>\<open>\x9F\<close> and, inside single quotes, the single quote are escaped.
\<close>

fun has_dollar_brace :: "string \<Rightarrow> bool" where
  "has_dollar_brace (a # b # r) = ((a = CHR ''$'' \<and> b = CHR ''{'') \<or> has_dollar_brace (b # r))"
| "has_dollar_brace r = False"

definition inspect_quote :: "string \<Rightarrow> char" where
  "inspect_quote s =
     (if CHR 0x27 \<notin> set s then CHR 0x27
      else if CHR 0x22 \<notin> set s then CHR 0x22
      else if CHR 0x60 \<notin> set s \<and> \<not> has_dollar_brace s then CHR 0x60
      else CHR 0x27)"

definition hex_digit :: "nat \<Rightarrow> char" where
  "hex_digit d = (if d < 10 then char_of (48 + d) else char_of (55 + d))"

definition inspect_escape :: "char \<Rightarrow> char \<Rightarrow> string" where
  "inspect_escape q c =
     (let n = (of_char c :: nat) in
      if n = 8 then [CHR 0x5C, CHR ''b'']
      else if n = 9 then [CHR 0x5C, CHR ''t'']
      else if n = 10 then [CHR 0x5C, CHR ''n'']
      else if n = 12 then [CHR 0x5C, CHR ''f'']
      else if n = 13 then [CHR 0x5C, CHR ''r'']
      else if n = 92 then [CHR 0x5C, CHR 0x5C]
      else if n = 39 \<and> q = CHR 0x27 then [CHR 0x5C, CHR 0x27]
      else if n < 32 \<or> (126 < n \<and> n < 160)
      then [CHR 0x5C, CHR ''x'', hex_digit (n div 16), hex_digit (n mod 16)]
      else [c])"

definition inspect_string :: "string \<Rightarrow> string" where
  "inspect_string s = (let q = inspect_quote s in q # concat (map (inspect_escape q) s) @ [q])"

text \<open>
  Object keys: printed bare when they match \<^verbatim>\<open>/^[a-zA-Z_][a-zA-Z_0-9]*$/\<close>, quoted
  otherwise, in the order of an object's own keys: array indices ascending, then the
  other keys in the order \<^verbatim>\<open>JSON.parse\<close> first met them, each with its last value.
\<close>

definition ident_start :: "char \<Rightarrow> bool" where
  "ident_start c \<longleftrightarrow>
     (let n = (of_char c :: nat) in (65 \<le> n \<and> n \<le> 90) \<or> (97 \<le> n \<and> n \<le> 122) \<or> n = 95)"

definition inspect_key :: "string \<Rightarrow> string" where
  "inspect_key k =
     (if k \<noteq> [] \<and> ident_start (hd k) \<and> list_all (\<lambda>c. ident_start c \<or> is_digit c) k then k
      else inspect_string k)"

definition is_array_index :: "string \<Rightarrow> bool" where
  "is_array_index k \<longleftrightarrow>
     k \<noteq> [] \<and> list_all is_digit k \<and> (k = ''0'' \<or> hd k \<noteq> CHR ''0'') \<and>
     digits_value 10 k < 4294967295"

definition own_keys :: "(string \<times> jsval) list \<Rightarrow> string list" where
  "own_keys kvs =
     (let ks = remdups (map fst kvs) in
      sort_key (digits_value 10) (filter is_array_index ks) @ filter (\<lambda>k. \<not> is_array_index k) ks)"

definition own_entries :: "(string \<times> jsval) list \<Rightarrow> (string \<times> jsval) list" where
  "own_entries kvs = map (\<lambda>k. (k, case lookup_last kvs k of Some v \<Rightarrow> v | None \<Rightarrow> JUndef)) (own_keys kvs)"

definition more_items :: "nat \<Rightarrow> string list" where
  "more_items r =
     (if r = 0 then [] else [''... '' @ dec_string r @ '' more item'' @ (if r = 1 then [] else ''s'')])"

text \<open>
  \<^verbatim>\<open>util.inspect\<close> on one line, at nesting depth \<open>d\<close>: below depth 2 an array or object
  is shown as \<^verbatim>\<open>[Array]\<close> or \<^verbatim>\<open>[Object]\<close>, and an array shows its first 100
  elements.
\<close>

function inspect_value :: "nat \<Rightarrow> jsval \<Rightarrow> string" where
  "inspect_value d JUndef = ''undefined''"
| "inspect_value d JNull = ''null''"
| "inspect_value d (JBool b) = (if b then ''true'' else ''false'')"
| "inspect_value d (JNum n) = num_to_string n"
| "inspect_value d (JStr s) = inspect_string s"
| "inspect_value d (JArr xs) =
     (if xs = [] then ''[]'' else if 2 < d then ''[Array]''
      else ''[ '' @ join_strings '', ''
                   (map (inspect_value (Suc d)) (take 100 xs) @ more_items (length xs - 100)) @ '' ]'')"
| "inspect_value d (JObj kvs) =
     (if kvs = [] then ''{}'' else if 2 < d then ''[Object]''
      else ''{ '' @ join_strings '', ''
                   (map (\<lambda>(k, v). inspect_key k @ '': '' @ inspect_value (Suc d) v) (own_entries kvs))
           @ '' }'')"
  by pat_completeness auto

termination
proof (relation "measure (\<lambda>(d, v). size v)")
  show "wf (measure (\<lambda>(d :: nat, v :: jsval). size v))" by simp
next
  fix d and xs :: "jsval list" and x
  assume "x \<in> set (take 100 xs)"
  then have "x \<in> set xs" by (rule in_set_takeD)
  then show "((Suc d, x), d, JArr xs) \<in> measure (\<lambda>(d, v). size v)"
    by (simp add: le_imp_less_Suc size_list_estimation')
next
  fix d and kvs :: "(string \<times> jsval) list" and e k v
  assume e: "e \<in> set (own_entries kvs)" and kv: "(k, v) = e"
  then have "v = (case lookup_last kvs k of Some w \<Rightarrow> w | None \<Rightarrow> JUndef)"
    by (auto simp: own_entries_def)
  then show "((Suc d, v), d, JObj kvs) \<in> measure (\<lambda>(d, v). size v)"
  proof (cases "lookup_last kvs k")
    case (Some w)
    then have "(k, w) \<in> set kvs" by (rule lookup_last_Some_in_set)
    then have "size_prod (\<lambda>x. 0) size (k, w) \<le> size_list (size_prod (\<lambda>x. 0) size) kvs"
      by (rule size_list_estimation') simp
    with Some \<open>v = _\<close> show ?thesis by simp
  qed simp
qed

text \<open>
  \<^verbatim>\<open>getStringValue\<close> and \<^verbatim>\<open>getValueType\<close> of \<^verbatim>\<open>lib/error/cast.js\<close>: the inspected
  value with a leading and a trailing single quote turned into double quotes, and
  wrapped in double quotes unless it starts with one; the value's \<^verbatim>\<open>typeof\<close>, or
  its constructor's name for an object.
\<close>

definition cast_string_value :: "jsval \<Rightarrow> string" where
  "cast_string_value v =
     (let s = inspect_value 0 v;
          s1 = (case s of c # r \<Rightarrow> if c = CHR 0x27 then CHR 0x22 # r else s | [] \<Rightarrow> s);
          s2 = (if s1 \<noteq> [] \<and> last s1 = CHR 0x27 then butlast s1 @ [CHR 0x22] else s1)
      in if s2 \<noteq> [] \<and> hd s2 = CHR 0x22 then s2 else CHR 0x22 # s2 @ [CHR 0x22])"

fun value_type :: "jsval \<Rightarrow> string" where
  "value_type JUndef = ''undefined''"
| "value_type JNull = ''null''"
| "value_type (JBool b) = ''boolean''"
| "value_type (JNum n) = ''number''"
| "value_type (JStr s) = ''string''"
| "value_type (JArr xs) = ''Array''"
| "value_type (JObj kvs) = (if lookup_last kvs ''constructor'' = None then ''Object'' else ''object'')"

primrec schema_kind :: "schema_type \<Rightarrow> string" where
  "schema_kind SchemaString = ''string''"
| "schema_kind SchemaNumber = ''Number''"

text \<open>The \<^verbatim>\<open>CastError\<close>'s message, prefixed by its path as \<^verbatim>\<open>ValidationError\<close> lists it.\<close>

primrec cast_failure_message :: "cast_failure \<Rightarrow> string" where
  "cast_failure_message (CastFailure p ty v te) =
     p @ '': Cast to '' @ schema_kind ty @ '' failed for value '' @ cast_string_value v @
     '' (type '' @ value_type v @ '') at path '' @ CHR 0x22 # p @ [CHR 0x22] @
     (if te then '' because of '' @ CHR 0x22 # ''TypeError'' @ [CHR 0x22] else [])"

text \<open>
  The \<^verbatim>\<open>ValidationError\<close> of model \<^verbatim>\<open>Ticket\<close> (\<^verbatim>\<open>lib/error/validation.js\<close>):
  its failures in the order the paths were set, joined by commas.
\<close>

definition validation_message :: "cast_failure list \<Rightarrow> string" where
  "validation_message fs = ''Ticket validation failed: '' @ join_strings '', '' (map cast_failure_message fs)"

section \<open>Lemmas\<close>

text \<open>A member value of an object is smaller than the object: recursion through \<open>own_entries\<close> terminates.\<close>

lemma own_entries_size:
  assumes "(k, v) \<in> set (own_entries kvs)"
  shows "size v < size (JObj kvs)"
proof -
  from assms have v: "v = (case lookup_last kvs k of Some w \<Rightarrow> w | None \<Rightarrow> JUndef)"
    by (auto simp: own_entries_def)
  show ?thesis
  proof (cases "lookup_last kvs k")
    case (Some w)
    then have "(k, w) \<in> set kvs" by (rule lookup_last_Some_in_set)
    then have "size_prod (\<lambda>x. 0) size (k, w) \<le> size_list (size_prod (\<lambda>x. 0) size) kvs"
      by (rule size_list_estimation') simp
    with Some v show ?thesis by simp
  qed (simp add: v)
qed

lemma cast_number_typed: "cast_number u = Some w \<Longrightarrow> schema_value SchemaNumber w"
  by (cases u) (auto split: if_splits)

lemma cast_string_typed: "cast_string u = Some w \<Longrightarrow> schema_value SchemaString w"
  by (cases u) (auto split: option.splits jsval.splits if_splits)

lemma cast_path_Inr_typed: "cast_path p ty v = Inr w \<Longrightarrow> schema_value ty w"
  by (cases ty)
    (auto simp: cast_path_def Let_def cast_number_typed cast_string_typed split: option.splits)

lemma cast_path_typed_value: "schema_value ty v \<Longrightarrow> cast_path p ty v = Inr v"
  by (cases ty; cases v) (simp_all add: cast_path_def number_cast_input_def)

lemma trim_ws_all_ws: "list_all is_ws s \<Longrightarrow> trim_ws s = []"
  by (auto simp: trim_ws_def dropWhile_eq_Nil_conv list_all_iff dest: set_dropWhileD)

lemma cast_path_ws_string:
  assumes "s \<noteq> []" and "list_all is_ws s"
  shows "cast_path p SchemaNumber (JStr s) = Inr (JNum (Fin 0))"
  using assms by (simp add: cast_path_def number_cast_input_def str_to_number_def trim_ws_all_ws)

lemma cast_path_number_as_string:
  "cast_path p SchemaString (JNum n) = Inr (JStr (num_to_string n))"
  by (simp add: cast_path_def)

end
