(* ===== verification/Routing.thy ===== *)
theory Routing
  imports MongooseCast
begin

text \<open>
  The Routing Gateway as the program uses it: the OpenRouteService directions request
  (lines 62--65 of \<^verbatim>\<open>src/server.js\<close>, and the fixed request of
  \<^verbatim>\<open>src/testORS.js\<close>), the two awaited steps that can reject (\<^verbatim>\<open>fetch\<close> and
  \<^verbatim>\<open>response.json()\<close>, lines 62 and 67), the no-route test of line 71 and the
  distance read of line 75.  The service itself is external: what it answers is an
  input of the model (\<open>fetch_outcome\<close>), any answer being possible.
\<close>

section \<open>The request\<close>

text \<open>
  The query of \<^verbatim>\<open>?start=${start_lng},${start_lat}&end=${end_lng},${end_lat}\<close>:
  each point is a (longitude, latitude) pair, in the service's order.  The values
  are kept as the request body gave them in \<open>route_query\<close>; \<open>ors_url\<close> is the URL
  text the template literal writes, each value rendered by \<^verbatim>\<open>ToString\<close>
  (\<open>template_string\<close>: \<^verbatim>\<open>Number::toString\<close> for a number, the text of a
  string, the elements joined by commas for an array).
\<close>

record route_query =
  start_point :: "jsval \<times> jsval"
  end_point :: "jsval \<times> jsval"

definition ors_directions_query :: "jsval \<Rightarrow> jsval \<Rightarrow> jsval \<Rightarrow> jsval \<Rightarrow> route_query" where
  "ors_directions_query start_lat start_lng end_lat end_lng =
     \<lparr>start_point = (start_lng, start_lat), end_point = (end_lng, end_lat)\<rparr>"

function template_string :: "jsval \<Rightarrow> string" where
  "template_string JUndef = ''undefined''"
| "template_string JNull = ''null''"
| "template_string (JBool b) = (if b then ''true'' else ''false'')"
| "template_string (JNum n) = num_to_string n"
| "template_string (JStr s) = s"
| "template_string (JArr xs) =
     join_strings '','' (map (\<lambda>x. if x = JUndef \<or> x = JNull then [] else template_string x) xs)"
| "template_string (JObj kvs) = ''[object Object]''"
  by pat_completeness auto

termination
  by (relation "measure size") (auto intro: le_imp_less_Suc size_list_estimation')

definition ors_url :: "jsval \<Rightarrow> jsval \<Rightarrow> jsval \<Rightarrow> jsval \<Rightarrow> string" where
  "ors_url start_lat start_lng end_lat end_lng =
     ''https://api.openrouteservice.org/v2/directions/driving-car?start='' @
     template_string start_lng @ '','' @ template_string start_lat @ ''&end='' @
     template_string end_lng @ '','' @ template_string end_lat"

text \<open>
  How the service reads a point from the query: the value of the parameter, split at
  the comma into two decimal numbers.  This is the reading of the service, not code of
  the program; it serves to state what the program's URL means.
\<close>

fun split_at_char :: "char \<Rightarrow> string \<Rightarrow> string list" where
  "split_at_char c [] = [[]]"
| "split_at_char c (x # xs) =
     (let ws = split_at_char c xs in if x = c then [] # ws else (x # hd ws) # tl ws)"

definition query_param :: "string \<Rightarrow> string \<Rightarrow> string option" where
  "query_param name u =
     map_option (drop (Suc (length name)))
       (find (\<lambda>p. take (Suc (length name)) p = name @ ''='')
          (split_at_char (CHR ''&'') (drop 1 (dropWhile (\<lambda>c. c \<noteq> CHR ''?'') u))))"

definition read_point :: "string \<Rightarrow> (num \<times> num) option" where
  "read_point p =
     (case split_at_char (CHR '','') p of [a, b] \<Rightarrow> Some (str_to_number a, str_to_number b) | _ \<Rightarrow> None)"

definition url_point :: "string \<Rightarrow> string \<Rightarrow> (num \<times> num) option" where
  "url_point name u = Option.bind (query_param name u) read_point"

text \<open>
  What awaiting \<^verbatim>\<open>fetch(...)\<close> and then \<^verbatim>\<open>response.json()\<close> can give: a rejected
  fetch (network failure), a body that does not parse as JSON, or a parsed body.
  The HTTP status is not inspected by the program, so it is not part of the outcome.
\<close>

datatype fetch_outcome =
    NetworkFailure string
  | NonJsonBody string
  | JsonBody jsval

definition fetch_json :: "fetch_outcome \<Rightarrow> js_error + jsval" where
  "fetch_json r =
     (case r of
        NetworkFailure m \<Rightarrow> Inl (FetchErr m)
      | NonJsonBody m \<Rightarrow> Inl (JsonErr m)
      | JsonBody data \<Rightarrow> Inr data)"

section \<open>Reading the response\<close>

text \<open>
  Line 71, \<^verbatim>\<open>!data.features || data.features.length === 0\<close>: \<open>Inr True\<close> when the
  handler answers ``no route''.  Reading \<^verbatim>\<open>features\<close> throws when \<^verbatim>\<open>data\<close> is
  \<^verbatim>\<open>null\<close>; the \<^verbatim>\<open>||\<close> reads \<^verbatim>\<open>length\<close> only of a truthy value.
\<close>

definition no_route :: "jsval \<Rightarrow> js_error + bool" where
  "no_route data =
     err_bind (get data (KName ''features''))
       (\<lambda>fs. if \<not> truthy fs then Inr True
             else err_bind (get fs (KName ''length'')) (\<lambda>n. Inr (strict_eq_num n 0)))"

text \<open>Line 75: \<^verbatim>\<open>data.features[0].properties.summary.distance / 1000\<close>.\<close>

definition distance_path :: "key list" where
  "distance_path =
     [KName ''features'', KIdx 0, KName ''properties'', KName ''summary'', KName ''distance'']"

definition route_distance_km :: "jsval \<Rightarrow> js_error + num" where
  "route_distance_km data =
     err_bind (get_path data distance_path) (\<lambda>d. Inr (num_div (to_number d) (Fin 1000)))"

section \<open>testORS.js\<close>

text \<open>
  \<^verbatim>\<open>src/testORS.js\<close> sends one fixed directions request and writes either the parsed
  body (\<^verbatim>\<open>console.log\<close>) or the error (\<^verbatim>\<open>console.error\<close>); both awaits are inside
  its \<^verbatim>\<open>try\<close>, so it never rejects.
\<close>

definition testORS_query :: route_query where
  "testORS_query =
     \<lparr>start_point = (JNum (Fin 80.0250), JNum (Fin 9.6610)),
      end_point = (JNum (Fin 80.0150), JNum (Fin 9.6781))\<rparr>"

definition testORS_url :: string where
  "testORS_url =
     ''https://api.openrouteservice.org/v2/directions/driving-car?start=80.0250,9.6610&end=80.0150,9.6781''"

datatype console_line = ConsoleLog jsval | ConsoleError js_error

definition testORS :: "fetch_outcome \<Rightarrow> console_line" where
  "testORS r = (case fetch_json r of Inl e \<Rightarrow> ConsoleError e | Inr data \<Rightarrow> ConsoleLog data)"

section \<open>A well-formed directions response\<close>

text \<open>
  The shape of a directions answer with one route of distance \<open>d\<close> (in metres), as
  the service sends it and as the spec's stub gateway returns it.
\<close>

definition ors_response :: "jsval \<Rightarrow> jsval" where
  "ors_response d =
     JObj [(''type'', JStr ''FeatureCollection''),
           (''features'', JArr [JObj [(''properties'', JObj [(''summary'', JObj [(''distance'', d)])])]])]"

section \<open>Lemmas\<close>

text \<open>
  The no-route test throws only on a \<^verbatim>\<open>null\<close> or \<^verbatim>\<open>undefined\<close> body: the
  \<^verbatim>\<open>||\<close> reads \<^verbatim>\<open>length\<close> only of a truthy value, which never throws.
\<close>

lemma no_route_Inl_iff: "(\<exists>e. no_route data = Inl e) \<longleftrightarrow> data = JUndef \<or> data = JNull"
proof
  assume "\<exists>e. no_route data = Inl e"
  then obtain e where e: "no_route data = Inl e" by blast
  show "data = JUndef \<or> data = JNull"
  proof (cases "\<exists>fs. get data (KName ''features'') = Inr fs")
    case True
    then obtain fs where fs: "get data (KName ''features'') = Inr fs" by blast
    show ?thesis
    proof (cases "truthy fs")
      case True
      then obtain n where "get fs (KName ''length'') = Inr n" using truthy_get_Inr by blast
      with e fs True show ?thesis by (simp add: no_route_def)
    next
      case False
      with e fs show ?thesis by (simp add: no_route_def)
    qed
  next
    case False
    then show ?thesis using get_Inl_iff by (metis sum.exhaust)
  qed
next
  assume "data = JUndef \<or> data = JNull"
  then show "\<exists>e. no_route data = Inl e" by (auto simp: no_route_def)
qed

lemma no_route_ors_response [simp]: "no_route (ors_response d) = Inr False"
  by (simp add: no_route_def ors_response_def strict_eq_num_def)

lemma route_distance_km_ors_response [simp]:
  "route_distance_km (ors_response d) = Inr (num_div (to_number d) (Fin 1000))"
  by (simp add: route_distance_km_def distance_path_def ors_response_def)

text \<open>
  C17 (roundtrip of the distance).  A routing answer whose distance is the decimal
  string of \<open>n\<close> metres instead of the number is read by line 75 exactly as the
  number \<open>n\<close>: \<open>n / 1000\<close> kilometres.
\<close>

lemma route_distance_dec_string:
  "route_distance_km (ors_response (JStr (dec_string n))) = Inr (Fin (real n / 1000))"
proof -
  have "trim_ws (dec_string n) = dec_string n"
    using digits_trim_ws [of "[]" "[]" "dec_string n"] dec_string_nonempty dec_string_digits
    by simp
  then have "str_to_number (dec_string n) = Fin (real n)"
    using str_to_number_trimmed dec_string_nonempty dec_string_digits
    by (simp add: digits_value_dec_string)
  then show ?thesis by simp
qed

subsection \<open>The URL of line 63\<close>

lemma split_at_char_ne: "split_at_char c s \<noteq> []"
  by (induction s) (auto simp: Let_def)

lemma split_at_char_plain: "c \<notin> set xs \<Longrightarrow> split_at_char c xs = [xs]"
  by (induction xs) auto

lemma split_at_char_append:
  "c \<notin> set xs \<Longrightarrow>
   split_at_char c (xs @ ys) = (xs @ hd (split_at_char c ys)) # tl (split_at_char c ys)"
  by (induction xs) (auto simp: Let_def split_at_char_ne hd_Cons_tl)

lemma num_to_string_no_sep:
  "CHR '','' \<notin> set (num_to_string (Fin x)) \<and> CHR ''&'' \<notin> set (num_to_string (Fin x))"
proof -
  have "c \<noteq> CHR '','' \<and> c \<noteq> CHR ''&''" if "c \<in> set (num_to_string (Fin x))" for c
  proof -
    from num_to_string_chars [of x] that have "is_digit c \<or> c \<in> set ''.e+-''"
      by (simp add: list_all_iff)
    then show ?thesis by (auto simp: is_radix_digit_def digit_of_def)
  qed
  then show ?thesis by blast
qed

lemma read_point_num:
  assumes "decimal_real x" and "decimal_real y"
  shows "read_point (num_to_string (Fin x) @ CHR '','' # num_to_string (Fin y)) = Some (Fin x, Fin y)"
  using num_to_string_no_sep [of x] num_to_string_no_sep [of y]
    str_to_number_num_to_string [OF order_refl, of x] str_to_number_num_to_string [OF order_refl, of y]
    assms
  by (simp add: read_point_def split_at_char_append split_at_char_plain decimal_real_def)

text \<open>
  C10 (the directions URL, spec 4.1).  For coordinates that are numbers with a finite
  decimal expansion (every JSON number and every double), the URL of line 63 gives the
  service the start point as (\<^verbatim>\<open>start_lng\<close>, \<^verbatim>\<open>start_lat\<close>) and the end point as
  (\<^verbatim>\<open>end_lng\<close>, \<^verbatim>\<open>end_lat\<close>), each read back as exactly the number the body
  carried: the service's longitude-first order, and no value lost in the text.
\<close>

theorem ors_url_points:
  assumes "decimal_real a" and "decimal_real b" and "decimal_real c" and "decimal_real d"
  shows "url_point ''start'' (ors_url (JNum (Fin a)) (JNum (Fin b)) (JNum (Fin c)) (JNum (Fin d))) =
           Some (Fin b, Fin a) \<and>
         url_point ''end'' (ors_url (JNum (Fin a)) (JNum (Fin b)) (JNum (Fin c)) (JNum (Fin d))) =
           Some (Fin d, Fin c)"
  using num_to_string_no_sep [of a] num_to_string_no_sep [of b] num_to_string_no_sep [of c]
    num_to_string_no_sep [of d] read_point_num [OF assms(2,1)] read_point_num [OF assms(4,3)]
  by (simp add: url_point_def query_param_def ors_url_def split_at_char_append split_at_char_plain)

theorem ors_url_points_witness:
  "decimal_real 9.6610 \<and> decimal_real 80.0250 \<and> decimal_real 9.6781 \<and> decimal_real 80.0150 \<and>
   url_point ''start''
     (ors_url (JNum (Fin 9.6610)) (JNum (Fin 80.0250)) (JNum (Fin 9.6781)) (JNum (Fin 80.0150))) =
     Some (Fin 80.0250, Fin 9.6610) \<and>
   url_point ''end''
     (ors_url (JNum (Fin 9.6610)) (JNum (Fin 80.0250)) (JNum (Fin 9.6781)) (JNum (Fin 80.0150))) =
     Some (Fin 80.0150, Fin 9.6781)"
proof -
  have a: "decimal_real 9.6610" using decimal_real_scaled [of 4 96610] by (simp add: decimal_fuel_def)
  have b: "decimal_real 80.0250" using decimal_real_scaled [of 3 80025] by (simp add: decimal_fuel_def)
  have c: "decimal_real 9.6781" using decimal_real_scaled [of 4 96781] by (simp add: decimal_fuel_def)
  have d: "decimal_real 80.0150" using decimal_real_scaled [of 3 80015] by (simp add: decimal_fuel_def)
  show ?thesis using ors_url_points [OF a b c d] a b c d by simp
qed

text \<open>
  \<^verbatim>\<open>src/testORS.js\<close> writes the example's coordinates with a trailing zero
  (\<^verbatim>\<open>80.0250\<close>), the server as \<^verbatim>\<open>Number::toString\<close> prints them (\<^verbatim>\<open>80.025\<close>):
  the texts differ, the points the service reads are the same.
\<close>

lemma testORS_url_points:
  "url_point ''start'' testORS_url =
     url_point ''start'' (ors_url (JNum (Fin 9.6610)) (JNum (Fin 80.0250)) (JNum (Fin 9.6781)) (JNum (Fin 80.0150))) \<and>
   url_point ''end'' testORS_url =
     url_point ''end'' (ors_url (JNum (Fin 9.6610)) (JNum (Fin 80.0250)) (JNum (Fin 9.6781)) (JNum (Fin 80.0150))) \<and>
   testORS_url \<noteq> ors_url (JNum (Fin 9.6610)) (JNum (Fin 80.0250)) (JNum (Fin 9.6781)) (JNum (Fin 80.0150))"
  by code_simp

text \<open>
  The template does not encode its values: a coordinate sent as a string holding
  \<^verbatim>\<open>&\<close> adds parameters to the query, and the service reads the first \<^verbatim>\<open>end\<close>,
  the injected one.
\<close>

lemma ors_url_injection:
  "url_point ''end''
     (ors_url (JStr ''1&end=0,0'') (JNum (Fin 80.0250)) (JNum (Fin 9.6781)) (JNum (Fin 80.0150))) =
   Some (Fin 0, Fin 0)"
  by code_simp

end
