(* ===== verification/TicketStore.thy ===== *)
theory TicketStore
  imports MongooseCast
begin

text \<open>
  The Ticket Store Gateway: the Mongoose schema and model \<^verbatim>\<open>Ticket\<close> (lines 23--34
  of \<^verbatim>\<open>src/server.js\<close>), building a document (line 79), \<^verbatim>\<open>ticket.save()\<close>
  (line 80) and \<^verbatim>\<open>Ticket.find({})\<close> (line 44), over an explicit collection.  The
  database is external: whether an operation reaches it and succeeds is an input
  (\<open>db_outcome\<close>), so every operation has its failure branch.  The collection is kept
  in insertion order and every document gets a fresh identifier.  Building the
  document casts each value to its schema type (\<open>MongooseCast\<close>); \<^verbatim>\<open>save()\<close>
  validates before it writes and rejects a document with a failed cast.
\<close>

section \<open>Documents and the collection\<close>

text \<open>
  The schema of lines 24--32.  Its first five fields are the trip the client sends
  (the fields the POST handler destructures on line 54); the two derived fields extend
  them, and the \<^verbatim>\<open>_id\<close> the store adds extends the ticket.
\<close>

record trip =
  passenger_id :: jsval
  start_lat :: jsval
  start_lng :: jsval
  end_lat :: jsval
  end_lng :: jsval

record ticket = trip +
  distance_km :: num
  fare :: num

record stored_ticket = ticket +
  ticket_id :: nat

record store =
  docs :: "stored_ticket list"
  next_id :: nat

definition empty_store :: store where
  "empty_store = \<lparr>docs = [], next_id = 0\<rparr>"

text \<open>What the database does with one operation: carries it out, or fails with a message.\<close>

datatype db_outcome = DbOk | DbFail string

section \<open>Operations\<close>

text \<open>Line 79, \<^verbatim>\<open>new Ticket({ passenger_id, ..., distance_km, fare })\<close>.\<close>

definition new_Ticket :: "trip \<Rightarrow> num \<Rightarrow> num \<Rightarrow> ticket" where
  "new_Ticket f km fr =
     \<lparr>passenger_id = passenger_id f, start_lat = start_lat f, start_lng = start_lng f,
      end_lat = end_lat f, end_lng = end_lng f, distance_km = km, fare = fr\<rparr>"

text \<open>
  What \<^verbatim>\<open>new Ticket(obj)\<close> does with the object of line 79: it casts each path of
  the schema, in the order the object lists them, and keeps the failures; a path whose
  value does not cast is left unset.  \<^verbatim>\<open>distance_km\<close> and \<^verbatim>\<open>fare\<close> are numbers, so
  their cast keeps them or fails (on \<open>NaN\<close>).
\<close>

definition ticket_casts :: "ticket \<Rightarrow> (cast_failure + jsval) list" where
  "ticket_casts t =
     [cast_path ''passenger_id'' SchemaString (passenger_id t),
      cast_path ''start_lat'' SchemaNumber (start_lat t),
      cast_path ''start_lng'' SchemaNumber (start_lng t),
      cast_path ''end_lat'' SchemaNumber (end_lat t),
      cast_path ''end_lng'' SchemaNumber (end_lng t),
      cast_path ''distance_km'' SchemaNumber (JNum (distance_km t)),
      cast_path ''fare'' SchemaNumber (JNum (fare t))]"

definition cast_errors :: "ticket \<Rightarrow> cast_failure list" where
  "cast_errors t = concat (map (\<lambda>r. case r of Inl f \<Rightarrow> [f] | Inr w \<Rightarrow> []) (ticket_casts t))"

definition cast_value :: "cast_failure + jsval \<Rightarrow> jsval" where
  "cast_value r = (case r of Inr w \<Rightarrow> w | Inl f \<Rightarrow> JUndef)"

definition cast_doc :: "ticket \<Rightarrow> ticket" where
  "cast_doc t =
     t\<lparr>passenger_id := cast_value (cast_path ''passenger_id'' SchemaString (passenger_id t)),
       start_lat := cast_value (cast_path ''start_lat'' SchemaNumber (start_lat t)),
       start_lng := cast_value (cast_path ''start_lng'' SchemaNumber (start_lng t)),
       end_lat := cast_value (cast_path ''end_lat'' SchemaNumber (end_lat t)),
       end_lng := cast_value (cast_path ''end_lng'' SchemaNumber (end_lng t))\<rparr>"

text \<open>
  Line 80, \<^verbatim>\<open>await ticket.save()\<close>: validation first, which rejects with the
  \<^verbatim>\<open>ValidationError\<close> of the failed casts without reaching the database; then the
  write, which appends the cast document with its new identifier, or rejects and
  leaves the collection unchanged.
\<close>

definition save :: "db_outcome \<Rightarrow> ticket \<Rightarrow> store \<Rightarrow> js_error + (stored_ticket \<times> store)" where
  "save r t st =
     (if cast_errors t \<noteq> [] then Inl (ValidationErr (validation_message (cast_errors t)))
      else case r of
        DbFail m \<Rightarrow> Inl (DbErr m)
      | DbOk \<Rightarrow>
          (let d = ticket.extend (cast_doc t) \<lparr>ticket_id = next_id st\<rparr>
           in Inr (d, \<lparr>docs = docs st @ [d], next_id = Suc (next_id st)\<rparr>)))"

text \<open>Line 44, \<^verbatim>\<open>await Ticket.find({})\<close>: every document, in the store's order.\<close>

definition find_all :: "db_outcome \<Rightarrow> store \<Rightarrow> js_error + stored_ticket list" where
  "find_all r st = (case r of DbFail m \<Rightarrow> Inl (DbErr m) | DbOk \<Rightarrow> Inr (docs st))"

section \<open>Invariant\<close>

text \<open>
  A document conforms to the schema: \<^verbatim>\<open>passenger_id\<close> a string and the other paths
  numbers other than \<open>NaN\<close>, each possibly unset or \<^verbatim>\<open>null\<close>.
\<close>

definition trip_typed :: "'a trip_scheme \<Rightarrow> bool" where
  "trip_typed t \<longleftrightarrow>
     schema_value SchemaString (passenger_id t) \<and> schema_value SchemaNumber (start_lat t) \<and>
     schema_value SchemaNumber (start_lng t) \<and> schema_value SchemaNumber (end_lat t) \<and>
     schema_value SchemaNumber (end_lng t)"

definition doc_typed :: "'a ticket_scheme \<Rightarrow> bool" where
  "doc_typed t \<longleftrightarrow> trip_typed t \<and> distance_km t \<noteq> NaN \<and> fare t \<noteq> NaN"

text \<open>Identifiers are distinct and below the next one to be handed out.\<close>

definition store_wf :: "store \<Rightarrow> bool" where
  "store_wf st \<longleftrightarrow>
     distinct (map ticket_id (docs st)) \<and> (\<forall>d \<in> set (docs st). ticket_id d < next_id st)"

section \<open>Abstraction: the collection as a multiset of tickets\<close>

text \<open>
  The Gateway's contract (spec 4.2) sees the collection as the tickets created so far,
  without order or identifiers: \<open>contents\<close> forgets both.
\<close>

definition contents :: "store \<Rightarrow> ticket multiset" where
  "contents st = mset (map ticket.truncate (docs st))"

section \<open>A ticket to cast\<close>

text \<open>
  A ticket as line 79 builds it from a body whose start latitude is the string
  \<^verbatim>\<open>"9.5"\<close>, whose start longitude is \<^verbatim>\<open>true\<close> and whose end longitude is
  \<^verbatim>\<open>null\<close>; the witnesses cast it.
\<close>

definition demo_ticket :: ticket where
  "demo_ticket = \<lparr>passenger_id = JStr ''P7'', start_lat = JStr ''9.5'', start_lng = JBool True,
     end_lat = JNum (Fin 9), end_lng = JNull, distance_km = Fin 2, fare = Fin 100\<rparr>"

section \<open>Lemmas\<close>

subsection \<open>Casting a ticket\<close>

lemma failure_list_Nil_iff: "(case r of Inl f \<Rightarrow> [f] | Inr w \<Rightarrow> []) = [] \<longleftrightarrow> (\<exists>w. r = Inr w)"
  by (cases r) simp_all

lemma cast_errors_Nil_iff:
  "cast_errors t = [] \<longleftrightarrow> (\<forall>r \<in> set (ticket_casts t). \<exists>w. r = Inr w)"
  by (simp only: cast_errors_def concat_eq_Nil_conv set_map ball_simps failure_list_Nil_iff)

lemma cast_doc_nums [simp]:
  "distance_km (cast_doc t) = distance_km t" "fare (cast_doc t) = fare t"
  by (simp_all add: cast_doc_def)

lemma cast_value_typed:
  "\<exists>w. cast_path p ty v = Inr w \<Longrightarrow> schema_value ty (cast_value (cast_path p ty v))"
  by (auto simp: cast_value_def dest: cast_path_Inr_typed)

lemma cast_num_not_NaN: "\<exists>w. cast_path p SchemaNumber (JNum n) = Inr w \<Longrightarrow> n \<noteq> NaN"
  by (auto simp: cast_path_def number_cast_input_def)

text \<open>A document that validates conforms to the schema.\<close>

lemma doc_typed_extend [simp]:
  "doc_typed (ticket.extend t \<lparr>ticket_id = i\<rparr>) \<longleftrightarrow> doc_typed t"
  by (simp add: doc_typed_def trip_typed_def trip.defs ticket.defs)

lemma cast_doc_typed:
  assumes "cast_errors t = []"
  shows "doc_typed (cast_doc t)"
proof -
  from assms have all: "\<forall>r \<in> set (ticket_casts t). \<exists>w. r = Inr w" by (simp add: cast_errors_Nil_iff)
  then have "trip_typed (cast_doc t)"
    by (simp add: ticket_casts_def trip_typed_def cast_doc_def cast_value_typed)
  moreover have "distance_km t \<noteq> NaN"
    using all by (intro cast_num_not_NaN [where p = "''distance_km''"]) (simp add: ticket_casts_def)
  moreover have "fare t \<noteq> NaN"
    using all by (intro cast_num_not_NaN [where p = "''fare''"]) (simp add: ticket_casts_def)
  ultimately show ?thesis by (simp add: doc_typed_def)
qed

text \<open>A ticket whose values already have the schema's types validates and is stored as it is.\<close>

lemma cast_typed_ticket:
  assumes "doc_typed t"
  shows "cast_errors t = [] \<and> cast_doc t = t"
proof -
  from assms have ty: "schema_value SchemaString (passenger_id t)"
    "schema_value SchemaNumber (start_lat t)" "schema_value SchemaNumber (start_lng t)"
    "schema_value SchemaNumber (end_lat t)" "schema_value SchemaNumber (end_lng t)"
    "schema_value SchemaNumber (JNum (distance_km t))" "schema_value SchemaNumber (JNum (fare t))"
    by (simp_all add: doc_typed_def trip_typed_def)
  then have "ticket_casts t =
      [Inr (passenger_id t), Inr (start_lat t), Inr (start_lng t), Inr (end_lat t), Inr (end_lng t),
       Inr (JNum (distance_km t)), Inr (JNum (fare t))]"
    by (simp only: ticket_casts_def cast_path_typed_value)
  moreover have "cast_doc t = t"
    using ty by (simp only: cast_doc_def cast_path_typed_value cast_value_def sum.case) simp
  ultimately show ?thesis by (simp add: cast_errors_def)
qed

lemma doc_typed_new_Ticket:
  "doc_typed (new_Ticket f km fr) \<longleftrightarrow> trip_typed f \<and> km \<noteq> NaN \<and> fr \<noteq> NaN"
  by (simp add: doc_typed_def trip_typed_def new_Ticket_def)

lemma new_Ticket_cast [simp]:
  assumes "trip_typed f"
  shows "cast_errors (new_Ticket f (Fin a) (Fin b)) = []"
    and "cast_doc (new_Ticket f (Fin a) (Fin b)) = new_Ticket f (Fin a) (Fin b)"
  using cast_typed_ticket [of "new_Ticket f (Fin a) (Fin b)"] assms
  by (simp_all add: doc_typed_new_Ticket)

subsection \<open>The invariant\<close>

lemma store_wf_empty: "store_wf empty_store"
  by (simp add: store_wf_def empty_store_def)

lemma save_Inr_iff:
  "save r t st = Inr (d, st') \<longleftrightarrow>
     cast_errors t = [] \<and> r = DbOk \<and> d = ticket.extend (cast_doc t) \<lparr>ticket_id = next_id st\<rparr> \<and>
     st' = \<lparr>docs = docs st @ [d], next_id = Suc (next_id st)\<rparr>"
  by (auto simp: save_def Let_def split: db_outcome.splits)

lemma save_Inl_iff:
  "(\<exists>e. save r t st = Inl e) \<longleftrightarrow> cast_errors t \<noteq> [] \<or> (\<exists>m. r = DbFail m)"
  by (auto simp: save_def Let_def split: db_outcome.splits)

lemma save_store_wf:
  assumes "store_wf st" and "save r t st = Inr (d, st')"
  shows "store_wf st'"
proof -
  from assms(2) have d: "ticket_id d = next_id st"
    and st': "st' = \<lparr>docs = docs st @ [d], next_id = Suc (next_id st)\<rparr>"
    by (auto simp: save_Inr_iff trip.defs ticket.defs)
  from assms(1) have "next_id st \<notin> set (map ticket_id (docs st))"
    by (auto simp: store_wf_def)
  with assms(1) d st' show ?thesis
    by (auto simp: store_wf_def less_Suc_eq)
qed

subsection \<open>The abstraction\<close>

lemma extend_fields [simp]:
  "passenger_id (ticket.extend t \<lparr>ticket_id = i\<rparr>) = passenger_id t"
  "start_lat (ticket.extend t \<lparr>ticket_id = i\<rparr>) = start_lat t"
  "start_lng (ticket.extend t \<lparr>ticket_id = i\<rparr>) = start_lng t"
  "end_lat (ticket.extend t \<lparr>ticket_id = i\<rparr>) = end_lat t"
  "end_lng (ticket.extend t \<lparr>ticket_id = i\<rparr>) = end_lng t"
  "distance_km (ticket.extend t \<lparr>ticket_id = i\<rparr>) = distance_km t"
  "fare (ticket.extend t \<lparr>ticket_id = i\<rparr>) = fare t"
  "ticket_id (ticket.extend t \<lparr>ticket_id = i\<rparr>) = i"
  by (simp_all add: trip.defs ticket.defs stored_ticket.defs)

lemma truncate_extend_id [simp]: "ticket.truncate (ticket.extend t \<lparr>ticket_id = i\<rparr>) = t"
  by (simp add: trip.defs ticket.defs stored_ticket.defs)

lemma contents_empty [simp]: "contents empty_store = {#}"
  by (simp add: contents_def empty_store_def)

lemma save_contents:
  "save DbOk t st = Inr (d, st') \<Longrightarrow> contents st' = add_mset (ticket.truncate d) (contents st)"
  by (auto simp: save_Inr_iff contents_def)

lemma find_all_contents:
  "find_all DbOk st = Inr ds \<Longrightarrow> mset (map ticket.truncate ds) = contents st"
  by (simp add: find_all_def contents_def)

subsection \<open>Schema types of written documents\<close>

lemma demo_casts:
  "save DbOk demo_ticket empty_store =
     Inr (ticket.extend (demo_ticket\<lparr>start_lat := JNum (Fin 9.5), start_lng := JNum (Fin 1)\<rparr>)
            \<lparr>ticket_id = 0\<rparr>,
          \<lparr>docs = [ticket.extend (demo_ticket\<lparr>start_lat := JNum (Fin 9.5), start_lng := JNum (Fin 1)\<rparr>)
                     \<lparr>ticket_id = 0\<rparr>], next_id = 1\<rparr>)"
  by (simp add: save_def demo_ticket_def cast_errors_def ticket_casts_def cast_doc_def cast_value_def
      cast_path_def number_cast_input_def empty_store_def str_to_number_def trim_ws_def is_ws_def
      parse_nondecimal_def parse_decimal_def parse_unsigned_def is_radix_digit_def digit_of_def
      parse_exponent_def scale10_def digits_value_def Let_def)

text \<open>
  C8 (schema types, spec 3).  Whatever values the request carried, every document that
  \<^verbatim>\<open>ticket.save()\<close> writes conforms to the schema: \<^verbatim>\<open>passenger_id\<close> is a string,
  the four coordinates, \<^verbatim>\<open>distance_km\<close> and \<^verbatim>\<open>fare\<close> are numbers other than
  \<open>NaN\<close> (or unset or \<^verbatim>\<open>null\<close>): the casts of \<^verbatim>\<open>new Ticket\<close> and the validation of
  \<^verbatim>\<open>save\<close> let nothing else through.
\<close>

lemma save_typed: "save r t st = Inr (d, st') \<Longrightarrow> doc_typed d"
  by (auto simp: save_def Let_def cast_doc_typed split: if_splits db_outcome.splits)

theorem save_typed_witness:
  "save DbOk demo_ticket empty_store =
     Inr (ticket.extend (demo_ticket\<lparr>start_lat := JNum (Fin 9.5), start_lng := JNum (Fin 1)\<rparr>)
            \<lparr>ticket_id = 0\<rparr>,
          \<lparr>docs = [ticket.extend (demo_ticket\<lparr>start_lat := JNum (Fin 9.5), start_lng := JNum (Fin 1)\<rparr>)
                     \<lparr>ticket_id = 0\<rparr>], next_id = 1\<rparr>) \<and>
   doc_typed (ticket.extend (demo_ticket\<lparr>start_lat := JNum (Fin 9.5), start_lng := JNum (Fin 1)\<rparr>)
                \<lparr>ticket_id = 0\<rparr>)"
  using save_typed [OF demo_casts] demo_casts by simp

end
