(* ===== verification/FareFlow.thy ===== *)
theory FareFlow
  imports Routing TicketStore
begin

text \<open>
  The request handlers of \<^verbatim>\<open>src/server.js\<close>: the Fare Ingestion Flow
  (\<^verbatim>\<open>app.post("/api/tickets")\<close>, lines 53--87), the List/Aggregation Flow
  (\<^verbatim>\<open>app.get("/api/tickets")\<close>, lines 42--50) and the liveness route (line 90).
  The POST handler is an \<^verbatim>\<open>async\<close> function that suspends at two \<^verbatim>\<open>await\<close>s that
  reach outside the process, the routing request (line 62, with line 67) and
  \<^verbatim>\<open>ticket.save()\<close> (line 80).  It is modelled as three phases split at those points,
  \<open>post_begin\<close>, \<open>post_on_route\<close> and \<open>post_on_save\<close>, and \<open>post_api_tickets\<close>
  runs them in sequence, recording the external calls it makes.  The last section
  follows the casts and the validation of \<^verbatim>\<open>ticket.save()\<close> through the handler.
\<close>

section \<open>Responses\<close>

text \<open>
  The body of each \<^verbatim>\<open>res.json(...)\<close> / \<^verbatim>\<open>res.send(...)\<close> of the handlers:
  \<^verbatim>\<open>{ error: msg }\<close>, a stored ticket, \<^verbatim>\<open>{ tickets, totalFare }\<close>, or text.
\<close>

datatype payload =
    ErrorBody string
  | TicketBody stored_ticket
  | ListBody "stored_ticket list" num
  | TextBody string

record response =
  status :: nat
  body :: payload

text \<open>
  How a request ends: a response from the handler, or a rejection of the handler's
  promise by an exception thrown outside its \<^verbatim>\<open>try\<close> (only line 54 can throw there).
\<close>

datatype outcome = Respond response | Unhandled js_error

text \<open>The calls to the outside world a request makes, in order.\<close>

datatype ext_call = RouteCall route_query | SaveCall ticket | FindCall

text \<open>A handler phase either has finished the request or is suspended at an \<^verbatim>\<open>await\<close>.\<close>

datatype 'a phase = Done outcome | Await 'a

section \<open>POST /api/tickets\<close>

text \<open>Line 54, \<^verbatim>\<open>const { passenger_id, start_lat, start_lng, end_lat, end_lng } = req.body\<close>.\<close>

definition destructure_trip :: "jsval \<Rightarrow> js_error + trip" where
  "destructure_trip b =
     err_bind (get b (KName ''passenger_id'')) (\<lambda>pid.
     err_bind (get b (KName ''start_lat'')) (\<lambda>slat.
     err_bind (get b (KName ''start_lng'')) (\<lambda>slng.
     err_bind (get b (KName ''end_lat'')) (\<lambda>elat.
     err_bind (get b (KName ''end_lng'')) (\<lambda>elng.
       Inr \<lparr>passenger_id = pid, start_lat = slat, start_lng = slng,
            end_lat = elat, end_lng = elng\<rparr>)))))"

text \<open>Line 56: the request is accepted only if no field is falsy.\<close>

definition fields_present :: "'a trip_scheme \<Rightarrow> bool" where
  "fields_present f \<longleftrightarrow>
     truthy (passenger_id f) \<and> truthy (start_lat f) \<and> truthy (start_lng f) \<and>
     truthy (end_lat f) \<and> truthy (end_lng f)"

definition resp :: "nat \<Rightarrow> payload \<Rightarrow> outcome" where
  "resp s p = Respond \<lparr>status = s, body = p\<rparr>"

definition missing_fields_msg :: string where
  "missing_fields_msg = ''All fields are required''"

definition no_route_msg :: string where
  "no_route_msg = ''ORS API returned no route. Check coordinates or API key.''"

text \<open>Line 85, the \<^verbatim>\<open>catch\<close> of the POST handler.\<close>

definition fail_500 :: "js_error \<Rightarrow> outcome" where
  "fail_500 e = resp 500 (ErrorBody (''Failed to calculate fare. '' @ err_message e))"

text \<open>Lines 54--65, up to the routing request.\<close>

definition post_begin :: "jsval \<Rightarrow> (trip \<times> route_query) phase" where
  "post_begin b =
     (case destructure_trip b of
        Inl e \<Rightarrow> Done (Unhandled e)
      | Inr f \<Rightarrow>
          if \<not> fields_present f then Done (resp 400 (ErrorBody missing_fields_msg))
          else Await (f, ors_directions_query (start_lat f) (start_lng f) (end_lat f) (end_lng f)))"

text \<open>Line 76, the fare at Rs 50 per kilometre.\<close>

definition rate_per_km :: real where
  "rate_per_km = 50"

definition fare_of :: "num \<Rightarrow> num" where
  "fare_of km = num_mul km (Fin rate_per_km)"

text \<open>Lines 62--79, from the routing answer to the document to be saved.\<close>

definition post_on_route :: "trip \<Rightarrow> fetch_outcome \<Rightarrow> ticket phase" where
  "post_on_route f r =
     (case fetch_json r of
        Inl e \<Rightarrow> Done (fail_500 e)
      | Inr data \<Rightarrow>
          (case no_route data of
             Inl e \<Rightarrow> Done (fail_500 e)
           | Inr True \<Rightarrow> Done (resp 400 (ErrorBody no_route_msg))
           | Inr False \<Rightarrow>
               (case route_distance_km data of
                  Inl e \<Rightarrow> Done (fail_500 e)
                | Inr km \<Rightarrow> Await (new_Ticket f km (fare_of km)))))"

text \<open>Lines 80--86, from the answer of the store to the response.\<close>

definition post_on_save :: "ticket \<Rightarrow> db_outcome \<Rightarrow> store \<Rightarrow> outcome \<times> store" where
  "post_on_save t r st =
     (case save r t st of
        Inl e \<Rightarrow> (fail_500 e, st)
      | Inr (d, st') \<Rightarrow> (resp 200 (TicketBody d), st'))"

text \<open>
  The whole handler, run without interleaving: the routing service answers \<open>rr\<close> and
  the store answers \<open>dr\<close>.  The result is the outcome, the store afterwards, and the
  external calls made.
\<close>

definition post_api_tickets ::
  "jsval \<Rightarrow> fetch_outcome \<Rightarrow> db_outcome \<Rightarrow> store \<Rightarrow> outcome \<times> store \<times> ext_call list" where
  "post_api_tickets b rr dr st =
     (case post_begin b of
        Done out \<Rightarrow> (out, st, [])
      | Await (f, q) \<Rightarrow>
          (case post_on_route f rr of
             Done out \<Rightarrow> (out, st, [RouteCall q])
           | Await t \<Rightarrow>
               (let (out, st') = post_on_save t dr st in (out, st', [RouteCall q, SaveCall t]))))"

section \<open>GET /api/tickets and GET /\<close>

text \<open>Line 45, \<^verbatim>\<open>tickets.reduce((sum, t) => sum + t.fare, 0)\<close>.\<close>

definition total_fare :: "stored_ticket list \<Rightarrow> num" where
  "total_fare ts = foldl (\<lambda>s t. num_add s (fare t)) (Fin 0) ts"

text \<open>Lines 42--50.\<close>

definition get_api_tickets :: "db_outcome \<Rightarrow> store \<Rightarrow> outcome" where
  "get_api_tickets r st =
     (case find_all r st of
        Inl e \<Rightarrow> resp 500 (ErrorBody (err_message e))
      | Inr ts \<Rightarrow> resp 200 (ListBody ts (total_fare ts)))"

text \<open>Line 90.\<close>

definition get_root :: outcome where
  "get_root = resp 200 (TextBody ''Smart Fare Backend Running'')"

section \<open>Abstract effect, invariant and fixtures\<close>

text \<open>
  The Gateway-level effect of a POST, read off its outcome: a 200 response carrying a
  ticket adds that ticket to the collection, every other outcome leaves it as it was.
\<close>

definition post_effect :: "outcome \<Rightarrow> ticket multiset \<Rightarrow> ticket multiset" where
  "post_effect out M =
     (case out of
        Respond r \<Rightarrow> (case body r of TicketBody d \<Rightarrow> add_mset (ticket.truncate d) M | _ \<Rightarrow> M)
      | Unhandled e \<Rightarrow> M)"

text \<open>
  Spec section 3: a ticket's fare is its distance times the rate.  The store's
  invariant adds distinct identifiers and documents that conform to the schema's
  types (the five input fields are cast, so their truthiness is not kept: a blank
  string becomes 0).
\<close>

definition ticket_consistent :: "'a ticket_scheme \<Rightarrow> bool" where
  "ticket_consistent t \<longleftrightarrow> fare t = fare_of (distance_km t)"

definition store_inv :: "store \<Rightarrow> bool" where
  "store_inv st \<longleftrightarrow> store_wf st \<and> (\<forall>d \<in> set (docs st). ticket_consistent d \<and> doc_typed d)"

text \<open>The JSON body a client sends for a trip, and the trip of spec section 8.\<close>

definition trip_body :: "trip \<Rightarrow> jsval" where
  "trip_body f =
     JObj [(''passenger_id'', passenger_id f), (''start_lat'', start_lat f),
           (''start_lng'', start_lng f), (''end_lat'', end_lat f), (''end_lng'', end_lng f)]"

definition spec_trip :: trip where
  "spec_trip =
     \<lparr>passenger_id = JStr ''P1'', start_lat = JNum (Fin 9.6610), start_lng = JNum (Fin 80.0250),
      end_lat = JNum (Fin 9.6781), end_lng = JNum (Fin 80.0150)\<rparr>"

text \<open>A collection holding one ticket of fare \<open>+\<infinity>\<close> and one of fare \<open>-\<infinity>\<close>.\<close>

definition infinite_fares_store :: store where
  "infinite_fares_store =
     \<lparr>docs = [ticket.extend (new_Ticket spec_trip (Infty True) (Infty True)) \<lparr>ticket_id = 0\<rparr>,
             ticket.extend (new_Ticket spec_trip (Infty False) (Infty False)) \<lparr>ticket_id = 1\<rparr>],
      next_id = 2\<rparr>"

lemmas post_phases [flow_simps] = post_begin_def post_on_route_def post_on_save_def
  post_api_tickets_def

section \<open>Lemmas\<close>

subsection \<open>The phases\<close>

lemma destructure_trip_body [simp]: "destructure_trip (trip_body f) = Inr f"
  by (simp add: destructure_trip_def trip_body_def)

lemma post_begin_Await_iff:
  "post_begin b = Await (f, q) \<longleftrightarrow>
     destructure_trip b = Inr f \<and> fields_present f \<and>
     q = ors_directions_query (start_lat f) (start_lng f) (end_lat f) (end_lng f)"
  by (auto simp: post_begin_def split: sum.splits)

lemma post_on_route_ors_response:
  "post_on_route f (JsonBody (ors_response d)) =
     Await (new_Ticket f (num_div (to_number d) (Fin 1000))
              (fare_of (num_div (to_number d) (Fin 1000))))"
  by (simp add: post_on_route_def fetch_json_def)

lemma post_begin_Done_effect: "post_begin b = Done out \<Longrightarrow> post_effect out M = M"
  by (auto simp: post_begin_def post_effect_def resp_def split: sum.splits if_splits)

lemma post_on_route_Done_effect: "post_on_route f r = Done out \<Longrightarrow> post_effect out M = M"
  by (auto simp: post_on_route_def post_effect_def resp_def fail_500_def
      split: sum.splits bool.splits)

lemma post_on_save_contents:
  "post_on_save t r st = (out, st') \<Longrightarrow> contents st' = post_effect out (contents st)"
  by (auto simp: post_on_save_def post_effect_def resp_def fail_500_def save_contents
      save_Inr_iff split: sum.splits prod.splits)

subsection \<open>The invariant\<close>

lemma store_inv_empty: "store_inv empty_store"
  by (simp add: store_inv_def store_wf_empty) (simp add: empty_store_def)

lemma post_on_route_consistent: "post_on_route f r = Await t \<Longrightarrow> ticket_consistent t"
  by (auto simp: post_on_route_def ticket_consistent_def new_Ticket_def
      split: sum.splits bool.splits)

lemma ticket_consistent_extend [simp]:
  "ticket_consistent (ticket.extend t \<lparr>ticket_id = i\<rparr>) \<longleftrightarrow> ticket_consistent t"
  by (simp add: ticket_consistent_def trip.defs ticket.defs)

lemma ticket_consistent_cast [simp]: "ticket_consistent (cast_doc t) \<longleftrightarrow> ticket_consistent t"
  by (simp add: ticket_consistent_def)

lemma post_on_save_inv:
  assumes "store_inv st" and "ticket_consistent t" and "post_on_save t r st = (out, st')"
  shows "store_inv st'"
proof (cases "save r t st")
  case (Inl e)
  with assms show ?thesis by (simp add: post_on_save_def)
next
  case (Inr p)
  then obtain d st'' where s: "save r t st = Inr (d, st'')" by (cases p) auto
  with assms(3) have "st' = st''" by (simp add: post_on_save_def)
  moreover from assms(1) s have "store_wf st''" unfolding store_inv_def by (blast intro: save_store_wf)
  moreover from s have "docs st'' = docs st @ [ticket.extend (cast_doc t) \<lparr>ticket_id = next_id st\<rparr>]"
    and "cast_errors t = []"
    by (simp_all add: save_Inr_iff)
  ultimately show ?thesis using assms(1,2) by (simp add: store_inv_def cast_doc_typed)
qed

text \<open>Every POST keeps the store invariant, whatever the services answer.\<close>

lemma post_preserves_inv:
  assumes "store_inv st" and "post_api_tickets b rr dr st = (out, st', cs)"
  shows "store_inv st'"
proof (cases "post_begin b")
  case (Done o1)
  with assms show ?thesis by (simp add: post_api_tickets_def)
next
  case (Await p)
  then obtain f q where pb: "post_begin b = Await (f, q)" by (cases p) auto
  then have fp: "fields_present f" by (simp add: post_begin_Await_iff)
  show ?thesis
  proof (cases "post_on_route f rr")
    case (Done o2)
    with assms pb show ?thesis by (simp add: post_api_tickets_def)
  next
    case (Await t)
    with pb assms(2) have "post_on_save t dr st = (out, st')"
      by (simp add: post_api_tickets_def split: prod.splits)
    with assms(1) Await show ?thesis by (blast intro: post_on_save_inv post_on_route_consistent)
  qed
qed

subsection \<open>Witness inputs\<close>

lemma fields_present_spec_trip: "fields_present spec_trip"
  by (simp add: fields_present_def spec_trip_def)

lemma trip_typed_spec_trip: "trip_typed spec_trip"
  by (simp add: trip_typed_def spec_trip_def)

lemma post_begin_spec_trip:
  "post_begin (trip_body spec_trip) = Await (spec_trip, testORS_query)"
  by (simp add: post_begin_Await_iff fields_present_spec_trip)
    (simp add: spec_trip_def ors_directions_query_def testORS_query_def)

lemma post_on_route_spec_response:
  "post_on_route f (JsonBody (ors_response (JNum (Fin 2000)))) =
     Await (new_Ticket f (Fin 2) (Fin 100))"
  by (simp add: post_on_route_ors_response fare_of_def rate_per_km_def)

lemma post_on_route_NaN_distance:
  "post_on_route f (JsonBody (ors_response (JObj []))) = Await (new_Ticket f NaN NaN)"
  by (simp add: post_on_route_ors_response fare_of_def)

lemma cast_errors_NaN_ticket:
  "trip_typed f \<Longrightarrow> cast_errors (new_Ticket f NaN NaN) =
     [CastFailure ''distance_km'' SchemaNumber (JNum NaN) False,
      CastFailure ''fare'' SchemaNumber (JNum NaN) False]"
  by (simp add: cast_errors_def ticket_casts_def new_Ticket_def trip_typed_def cast_path_typed_value)
    (simp add: cast_path_def number_cast_input_def)

lemma post_on_route_Await_trip:
  "post_on_route f r = Await t \<Longrightarrow> \<exists>km fr. t = new_Ticket f km fr"
  by (auto simp: post_on_route_def split: sum.splits bool.splits)

lemma foldl_fare_NaN:
  assumes "a = NaN \<or> ((a = Infty True \<or> (\<exists>t \<in> set ts. fare t = Infty True)) \<and>
                      (a = Infty False \<or> (\<exists>t \<in> set ts. fare t = Infty False)))"
  shows "foldl (\<lambda>s t. num_add s (fare t)) a ts = NaN"
  using assms
proof (induction ts arbitrary: a)
  case Nil
  then show ?case by auto
next
  case (Cons t ts)
  show ?case
    by simp (rule Cons.IH, insert Cons.prems, cases a; cases "fare t"; auto)
qed

text \<open>
  The outcomes that are not a 200 carrying a ticket: every early return of the
  handlers, the failed write of line 85, the listing and the root.
\<close>

lemma post_begin_not_ticket: "post_begin b = Done out \<Longrightarrow> out \<noteq> resp 200 (TicketBody d)"
  by (auto simp: post_begin_def resp_def split: sum.splits if_splits)

lemma post_on_route_not_ticket: "post_on_route f r = Done out \<Longrightarrow> out \<noteq> resp 200 (TicketBody d)"
  by (auto simp: post_on_route_def resp_def fail_500_def split: sum.splits bool.splits)

lemma post_on_save_fail_not_ticket: "fst (post_on_save t (DbFail m) st) \<noteq> resp 200 (TicketBody d)"
  by (auto simp: post_on_save_def save_def resp_def fail_500_def)

lemma get_api_tickets_not_ticket: "get_api_tickets r st \<noteq> resp 200 (TicketBody d)"
  by (auto simp: get_api_tickets_def resp_def split: sum.splits)

lemma get_root_not_ticket: "get_root \<noteq> resp 200 (TicketBody d)"
  by (simp add: get_root_def resp_def)

lemmas not_ticket_response = post_begin_not_ticket post_on_route_not_ticket
  post_on_save_fail_not_ticket get_api_tickets_not_ticket get_root_not_ticket

text \<open>The store after \<open>post_on_save\<close>: unchanged, or with the cast of its ticket added.\<close>

lemma post_on_save_write:
  "post_on_save t r st = (out, st') \<Longrightarrow>
   contents st' = contents st \<or> contents st' = add_mset (cast_doc t) (contents st)"
  by (auto simp: post_on_save_def save_Inr_iff contents_def split: sum.splits prod.splits)

subsection \<open>POST /api/tickets\<close>

text \<open>
  C1 (fare computation, spec 4.1 and 8).  A valid request whose values have the schema's
  types, a route of \<open>m\<close> metres and a working store: the handler answers 200 with the
  saved ticket, whose
  \<open>distance_km\<close> is \<open>m / 1000\<close> and whose \<open>fare\<close> is \<open>m / 1000 * 50\<close>; the ticket
  gets the next identifier and is appended to the collection; the request makes
  exactly one routing call and then one write.
\<close>

lemma post_fare_from_distance:
  assumes "destructure_trip b = Inr f" and "fields_present f" and "trip_typed f"
  shows "post_api_tickets b (JsonBody (ors_response (JNum (Fin m)))) DbOk st =
     (let t = new_Ticket f (Fin (m / 1000)) (Fin (m / 1000 * 50));
          d = ticket.extend t \<lparr>ticket_id = next_id st\<rparr>
      in (resp 200 (TicketBody d), \<lparr>docs = docs st @ [d], next_id = Suc (next_id st)\<rparr>,
          [RouteCall (ors_directions_query (start_lat f) (start_lng f) (end_lat f) (end_lng f)),
           SaveCall t]))"
  using assms
  by (simp add: post_api_tickets_def post_begin_def post_on_route_ors_response post_on_save_def
      save_def Let_def fare_of_def rate_per_km_def)

theorem post_fare_from_distance_witness:
  "destructure_trip (trip_body spec_trip) = Inr spec_trip \<and> fields_present spec_trip \<and>
   trip_typed spec_trip \<and>
   fst (post_api_tickets (trip_body spec_trip) (JsonBody (ors_response (JNum (Fin 2000)))) DbOk
          empty_store) =
     resp 200 (TicketBody (ticket.extend (new_Ticket spec_trip (Fin 2) (Fin 100)) \<lparr>ticket_id = 0\<rparr>))"
  using post_fare_from_distance [OF destructure_trip_body fields_present_spec_trip trip_typed_spec_trip,
      of 2000 empty_store]
    fields_present_spec_trip trip_typed_spec_trip
  by (simp add: empty_store_def Let_def)

text \<open>
  C2 (validation, spec 4.1 and 8).  When a field of the body is falsy the handler
  answers 400 \<^verbatim>\<open>All fields are required\<close>, makes no routing call and no write, and
  leaves the store unchanged, whatever the services would have answered.
\<close>

lemma post_rejects_missing_field:
  assumes "destructure_trip b = Inr f" and "\<not> fields_present f"
  shows "post_api_tickets b rr dr st = (resp 400 (ErrorBody missing_fields_msg), st, [])"
  using assms by (simp add: post_api_tickets_def post_begin_def)

theorem post_rejects_missing_field_witness:
  "destructure_trip (trip_body (spec_trip\<lparr>passenger_id := JStr ''''\<rparr>)) =
     Inr (spec_trip\<lparr>passenger_id := JStr ''''\<rparr>) \<and>
   \<not> fields_present (spec_trip\<lparr>passenger_id := JStr ''''\<rparr>) \<and>
   post_api_tickets (trip_body (spec_trip\<lparr>passenger_id := JStr ''''\<rparr>)) (NetworkFailure ''down'')
     DbOk empty_store = (resp 400 (ErrorBody missing_fields_msg), empty_store, [])"
proof -
  have h: "\<not> fields_present (spec_trip\<lparr>passenger_id := JStr ''''\<rparr>)"
    by (simp add: fields_present_def)
  show ?thesis using post_rejects_missing_field [OF destructure_trip_body h] h by simp
qed

text \<open>
  C3 (no route, spec 4.1 and 8).  When the routing answer has no usable route (line 71)
  the handler answers 400 with the no-route message after its one routing call, and
  writes nothing.
\<close>

lemma post_no_route:
  assumes "post_begin b = Await (f, q)" and "no_route data = Inr True"
  shows "post_api_tickets b (JsonBody data) dr st =
           (resp 400 (ErrorBody no_route_msg), st, [RouteCall q])"
  using assms by (simp add: post_api_tickets_def post_on_route_def fetch_json_def)

theorem post_no_route_witness:
  "post_begin (trip_body spec_trip) = Await (spec_trip, testORS_query) \<and>
   no_route (JObj [(''features'', JArr [])]) = Inr True \<and>
   post_api_tickets (trip_body spec_trip) (JsonBody (JObj [(''features'', JArr [])])) DbOk
     empty_store = (resp 400 (ErrorBody no_route_msg), empty_store, [RouteCall testORS_query])"
proof -
  have h: "no_route (JObj [(''features'', JArr [])]) = Inr True"
    by (simp add: no_route_def strict_eq_num_def)
  show ?thesis using post_no_route [OF post_begin_spec_trip h] post_begin_spec_trip h by simp
qed

text \<open>
  C6 (refinement of the Gateway contract, spec 4.2 and 7).  Seen as a multiset of
  tickets, a POST changes the collection at most by adding the ticket it sent to the
  store with \<^verbatim>\<open>ticket.save()\<close>; and when it answers 200 with a ticket, that ticket
  has been added.  A failure response may come with the write applied or not.
\<close>

lemma post_refines_create:
  assumes "post_api_tickets b rr dr st = (out, st', cs)"
  shows "(\<forall>d. out = resp 200 (TicketBody d) \<longrightarrow>
              contents st' = add_mset (ticket.truncate d) (contents st)) \<and>
         (contents st' = contents st \<or>
          (\<exists>t. SaveCall t \<in> set cs \<and> contents st' = add_mset (cast_doc t) (contents st)))"
proof (cases "post_begin b")
  case (Done o1)
  with assms show ?thesis by (auto simp: post_api_tickets_def dest: post_begin_not_ticket)
next
  case (Await p)
  note pb = this
  obtain f q where p: "p = (f, q)" by (cases p)
  show ?thesis
  proof (cases "post_on_route f rr")
    case (Done o2)
    with assms pb p show ?thesis
      by (auto simp: post_api_tickets_def dest: post_on_route_not_ticket)
  next
    case (Await t)
    obtain o3 s3 where sv: "post_on_save t dr st = (o3, s3)" by fastforce
    with assms pb p Await have "out = o3" "st' = s3" "cs = [RouteCall q, SaveCall t]"
      by (simp_all add: post_api_tickets_def)
    with post_on_save_contents [OF sv] post_on_save_write [OF sv] show ?thesis
      by (auto simp: post_effect_def resp_def)
  qed
qed

theorem post_refines_create_witness:
  "post_api_tickets (trip_body spec_trip) (JsonBody (ors_response (JNum (Fin 2000)))) DbOk
     empty_store =
   (resp 200 (TicketBody (ticket.extend (new_Ticket spec_trip (Fin 2) (Fin 100)) \<lparr>ticket_id = 0\<rparr>)),
    \<lparr>docs = [ticket.extend (new_Ticket spec_trip (Fin 2) (Fin 100)) \<lparr>ticket_id = 0\<rparr>], next_id = 1\<rparr>,
    [RouteCall testORS_query, SaveCall (new_Ticket spec_trip (Fin 2) (Fin 100))]) \<and>
   contents \<lparr>docs = [ticket.extend (new_Ticket spec_trip (Fin 2) (Fin 100)) \<lparr>ticket_id = 0\<rparr>],
             next_id = 1\<rparr> = {# new_Ticket spec_trip (Fin 2) (Fin 100) #}"
proof -
  have run: "post_api_tickets (trip_body spec_trip) (JsonBody (ors_response (JNum (Fin 2000)))) DbOk
     empty_store =
   (resp 200 (TicketBody (ticket.extend (new_Ticket spec_trip (Fin 2) (Fin 100)) \<lparr>ticket_id = 0\<rparr>)),
    \<lparr>docs = [ticket.extend (new_Ticket spec_trip (Fin 2) (Fin 100)) \<lparr>ticket_id = 0\<rparr>], next_id = 1\<rparr>,
    [RouteCall testORS_query, SaveCall (new_Ticket spec_trip (Fin 2) (Fin 100))])"
    by (simp add: post_api_tickets_def post_begin_spec_trip post_on_route_spec_response
        post_on_save_def save_def empty_store_def trip_typed_spec_trip Let_def)
  show ?thesis
    using post_refines_create [OF run] run
    by (simp add: trip_typed_spec_trip)
qed

text \<open>
  C7 (persistence failure, spec 4.1 and 7).  When the ticket validates but the database
  rejects the write, the handler answers 500 with the store's message after the prefix
  of line 85, and the collection is unchanged although the routing call was made.
\<close>

lemma post_store_failure:
  assumes "post_begin b = Await (f, q)" and "post_on_route f rr = Await t" and "cast_errors t = []"
  shows "post_api_tickets b rr (DbFail m) st =
           (resp 500 (ErrorBody (''Failed to calculate fare. '' @ m)), st, [RouteCall q, SaveCall t])"
  using assms by (simp add: post_api_tickets_def post_on_save_def save_def fail_500_def)

theorem post_store_failure_witness:
  "post_begin (trip_body spec_trip) = Await (spec_trip, testORS_query) \<and>
   post_on_route spec_trip (JsonBody (ors_response (JNum (Fin 2000)))) =
     Await (new_Ticket spec_trip (Fin 2) (Fin 100)) \<and>
   cast_errors (new_Ticket spec_trip (Fin 2) (Fin 100)) = [] \<and>
   post_api_tickets (trip_body spec_trip) (JsonBody (ors_response (JNum (Fin 2000))))
     (DbFail ''timeout'') empty_store =
     (resp 500 (ErrorBody ''Failed to calculate fare. timeout''), empty_store,
      [RouteCall testORS_query, SaveCall (new_Ticket spec_trip (Fin 2) (Fin 100))])"
  using post_store_failure [OF post_begin_spec_trip post_on_route_spec_response
      new_Ticket_cast(1) [OF trip_typed_spec_trip], of "''timeout''" empty_store]
    post_begin_spec_trip post_on_route_spec_response trip_typed_spec_trip
  by simp

text \<open>
  C9 (routing failure, spec 7).  When the routing request rejects, the handler answers
  500 with the failure's message and writes nothing.
\<close>

lemma post_route_failure:
  assumes "post_begin b = Await (f, q)"
  shows "post_api_tickets b (NetworkFailure m) dr st =
           (resp 500 (ErrorBody (''Failed to calculate fare. '' @ m)), st, [RouteCall q])"
  using assms by (simp add: post_api_tickets_def post_on_route_def fetch_json_def fail_500_def)

theorem post_route_failure_witness:
  "post_begin (trip_body spec_trip) = Await (spec_trip, testORS_query) \<and>
   post_api_tickets (trip_body spec_trip) (NetworkFailure ''ECONNREFUSED'') DbOk empty_store =
     (resp 500 (ErrorBody ''Failed to calculate fare. ECONNREFUSED''), empty_store,
      [RouteCall testORS_query])"
  using post_route_failure [OF post_begin_spec_trip, of "''ECONNREFUSED''" DbOk empty_store]
    post_begin_spec_trip
  by simp

text \<open>
  C13 (zero coordinates, spec 4.1 and 9).  The truthiness check of line 56 rejects a
  coordinate that is the number 0 as if it were missing: a trip on the equator or the
  prime meridian is answered 400 without any routing call.
\<close>

lemma post_zero_coordinate_rejected:
  assumes "destructure_trip b = Inr f"
    and "JNum (Fin 0) \<in> {start_lat f, start_lng f, end_lat f, end_lng f}"
  shows "post_api_tickets b rr dr st = (resp 400 (ErrorBody missing_fields_msg), st, [])"
proof -
  from assms(2) have "\<not> fields_present f"
    by (auto simp: fields_present_def eq_commute [of "JNum (Fin 0)"])
  with assms(1) show ?thesis by (simp add: post_api_tickets_def post_begin_def)
qed

theorem post_zero_coordinate_rejected_witness:
  "destructure_trip (trip_body (spec_trip\<lparr>start_lng := JNum (Fin 0)\<rparr>)) =
     Inr (spec_trip\<lparr>start_lng := JNum (Fin 0)\<rparr>) \<and>
   post_api_tickets (trip_body (spec_trip\<lparr>start_lng := JNum (Fin 0)\<rparr>))
     (JsonBody (ors_response (JNum (Fin 2000)))) DbOk empty_store =
     (resp 400 (ErrorBody missing_fields_msg), empty_store, [])"
  using post_zero_coordinate_rejected [OF destructure_trip_body,
      of "spec_trip\<lparr>start_lng := JNum (Fin 0)\<rparr>"]
  by simp

text \<open>
  C14 (malformed route).  A routing answer that passes the check of line 71 but has no
  \<^verbatim>\<open>properties.summary.distance\<close> under its first feature makes line 75 throw: the
  handler answers 500 with the \<^verbatim>\<open>TypeError\<close>'s message, not the 400 of a missing
  route, and writes nothing.
\<close>

lemma post_malformed_route:
  assumes "post_begin b = Await (f, q)" and "no_route data = Inr False"
    and "get_path data distance_path = Inl e"
  shows "post_api_tickets b (JsonBody data) dr st = (fail_500 e, st, [RouteCall q])"
  using assms
  by (simp add: post_api_tickets_def post_on_route_def fetch_json_def route_distance_km_def)

theorem post_malformed_route_witness:
  "post_begin (trip_body spec_trip) = Await (spec_trip, testORS_query) \<and>
   no_route (JObj [(''features'', JArr [JNull])]) = Inr False \<and>
   get_path (JObj [(''features'', JArr [JNull])]) distance_path =
     Inl (ReadOfNull (KName ''properties'')) \<and>
   post_api_tickets (trip_body spec_trip) (JsonBody (JObj [(''features'', JArr [JNull])])) DbOk
     empty_store =
     (fail_500 (ReadOfNull (KName ''properties'')), empty_store, [RouteCall testORS_query])"
proof -
  have h1: "no_route (JObj [(''features'', JArr [JNull])]) = Inr False"
    by (simp add: no_route_def strict_eq_num_def)
  have h2: "get_path (JObj [(''features'', JArr [JNull])]) distance_path =
              Inl (ReadOfNull (KName ''properties''))"
    by (simp add: distance_path_def)
  show ?thesis
    using post_malformed_route [OF post_begin_spec_trip h1 h2, of DbOk empty_store]
      post_begin_spec_trip h1 h2
    by simp
qed

text \<open>
  C15 (the one exception outside the \<^verbatim>\<open>try\<close>).  The handler's promise rejects
  instead of answering exactly when the request body is \<^verbatim>\<open>undefined\<close> or
  \<^verbatim>\<open>null\<close> (line 54); every other body gets a JSON response.
\<close>

lemma post_unhandled_iff:
  "(\<exists>e. fst (post_api_tickets b rr dr st) = Unhandled e) \<longleftrightarrow> b = JUndef \<or> b = JNull"
  by (cases b) (auto simp: post_api_tickets_def post_begin_def destructure_trip_def resp_def
      post_on_route_def post_on_save_def fail_500_def
      split: phase.splits prod.splits sum.splits bool.splits)

subsection \<open>GET /api/tickets\<close>

text \<open>
  C4 (aggregation, spec 4.3 and 8).  With the store reachable, the listing holds every
  stored ticket in the store's order and \<^verbatim>\<open>totalFare\<close> is the sum of their fares,
  when these are finite numbers.
\<close>

lemma get_total_finite:
  assumes "map fare (docs st) = map Fin rs"
  shows "get_api_tickets DbOk st = resp 200 (ListBody (docs st) (Fin (sum_list rs)))"
proof -
  have "map fare ts = map Fin xs \<Longrightarrow>
          foldl (\<lambda>s t. num_add s (fare t)) (Fin a) ts = Fin (a + sum_list xs)" for ts xs a
  proof (induction ts arbitrary: xs a)
    case Nil
    then show ?case by simp
  next
    case (Cons t ts)
    then obtain x xs' where "xs = x # xs'" "fare t = Fin x" "map fare ts = map Fin xs'" by auto
    with Cons.IH show ?case by (simp add: add.assoc)
  qed
  from this [OF assms, of 0] show ?thesis
    by (simp add: get_api_tickets_def find_all_def total_fare_def)
qed

theorem get_total_finite_witness:
  "map fare [ticket.extend (new_Ticket spec_trip (Fin 2.41) (Fin 120.5)) \<lparr>ticket_id = 0\<rparr>,
             ticket.extend (new_Ticket spec_trip (Fin 1.5) (Fin 75.0)) \<lparr>ticket_id = 1\<rparr>] =
     map Fin [120.5, 75.0] \<and>
   get_api_tickets DbOk
     \<lparr>docs = [ticket.extend (new_Ticket spec_trip (Fin 2.41) (Fin 120.5)) \<lparr>ticket_id = 0\<rparr>,
              ticket.extend (new_Ticket spec_trip (Fin 1.5) (Fin 75.0)) \<lparr>ticket_id = 1\<rparr>],
      next_id = 2\<rparr> =
     resp 200 (ListBody [ticket.extend (new_Ticket spec_trip (Fin 2.41) (Fin 120.5)) \<lparr>ticket_id = 0\<rparr>,
                         ticket.extend (new_Ticket spec_trip (Fin 1.5) (Fin 75.0)) \<lparr>ticket_id = 1\<rparr>]
                (Fin 195.5))"
proof -
  let ?ds = "[ticket.extend (new_Ticket spec_trip (Fin 2.41) (Fin 120.5)) \<lparr>ticket_id = 0\<rparr>,
              ticket.extend (new_Ticket spec_trip (Fin 1.5) (Fin 75.0)) \<lparr>ticket_id = 1\<rparr>]"
  have h: "map fare (docs \<lparr>docs = ?ds, next_id = 2\<rparr>) = map Fin [120.5, 75.0]"
    by (simp add: new_Ticket_def trip.defs ticket.defs)
  show ?thesis using get_total_finite [OF h] h by simp
qed

text \<open>An empty collection lists nothing with total 0 (spec 8).\<close>

lemma get_empty: "get_api_tickets DbOk empty_store = resp 200 (ListBody [] (Fin 0))"
  by (simp add: get_api_tickets_def find_all_def empty_store_def total_fare_def)

text \<open>Store failure on reads (spec 6): an unreachable store gives 500 and its message.\<close>

lemma get_store_failure: "get_api_tickets (DbFail m) st = resp 500 (ErrorBody m)"
  by (simp add: get_api_tickets_def find_all_def)

subsection \<open>Casting and validation\<close>

text \<open>
  C20 (validation failure, spec 4.1 and 7).  When the ticket built from the routing
  answer fails the schema's casts, \<^verbatim>\<open>ticket.save()\<close> rejects with Mongoose's
  \<^verbatim>\<open>ValidationError\<close> before any write, whatever the database would have answered:
  the handler answers 500 with \<^verbatim>\<open>Failed to calculate fare. Ticket validation failed:\<close>
  and the failed paths, and stores nothing.  A distance that does not convert to a number
  (line 75 gives \<open>NaN\<close>) ends here, so a \<open>NaN\<close> fare is never stored.
\<close>

lemma post_validation_failure:
  assumes "post_begin b = Await (f, q)" and "post_on_route f rr = Await t" and "cast_errors t \<noteq> []"
  shows "post_api_tickets b rr dr st =
           (fail_500 (ValidationErr (validation_message (cast_errors t))), st, [RouteCall q, SaveCall t])"
  using assms by (simp add: post_api_tickets_def post_on_save_def save_def)

theorem post_validation_failure_witness:
  "post_begin (trip_body spec_trip) = Await (spec_trip, testORS_query) \<and>
   post_on_route spec_trip (JsonBody (ors_response (JObj []))) =
     Await (new_Ticket spec_trip NaN NaN) \<and>
   cast_errors (new_Ticket spec_trip NaN NaN) \<noteq> [] \<and>
   post_api_tickets (trip_body spec_trip) (JsonBody (ors_response (JObj []))) DbOk empty_store =
     (resp 500 (ErrorBody (''Failed to calculate fare. Ticket validation failed: distance_km: Cast to Number failed for value '' @
        [CHR 0x22] @ ''NaN'' @ [CHR 0x22] @ '' (type number) at path '' @ [CHR 0x22] @ ''distance_km'' @ [CHR 0x22] @
        '', fare: Cast to Number failed for value '' @ [CHR 0x22] @ ''NaN'' @ [CHR 0x22] @
        '' (type number) at path '' @ [CHR 0x22] @ ''fare'' @ [CHR 0x22])),
      empty_store, [RouteCall testORS_query, SaveCall (new_Ticket spec_trip NaN NaN)])"
proof -
  have c: "cast_errors (new_Ticket spec_trip NaN NaN) \<noteq> []"
    using cast_errors_NaN_ticket [OF trip_typed_spec_trip] by simp
  show ?thesis
    using post_validation_failure [OF post_begin_spec_trip post_on_route_NaN_distance c,
        of DbOk empty_store]
      post_begin_spec_trip post_on_route_NaN_distance c cast_errors_NaN_ticket [OF trip_typed_spec_trip]
    by (simp add: fail_500_def validation_message_def cast_string_value_def)
qed

text \<open>
  C21 (blank coordinates, spec 4.1 and 9).  A coordinate sent as a non-empty string of
  white space passes the check of line 56 (a non-empty string is truthy) and is cast by
  Mongoose to the number 0: the ticket is created and stored with a zero coordinate,
  which the same check rejects when it is sent as the number 0 (C13).
\<close>

lemma post_blank_coordinate_zero:
  assumes "post_begin b = Await (f, q)" and "post_on_route f rr = Await t"
    and "cast_errors t = []" and "start_lat f = JStr s" and "s \<noteq> []" and "list_all is_ws s"
  shows "fields_present f \<and>
         (\<exists>d. post_api_tickets b rr DbOk st =
                (resp 200 (TicketBody d), \<lparr>docs = docs st @ [d], next_id = Suc (next_id st)\<rparr>,
                 [RouteCall q, SaveCall t]) \<and> start_lat d = JNum (Fin 0))"
proof -
  from assms(1) have "fields_present f" by (simp add: post_begin_Await_iff)
  moreover from assms(2) obtain km fr where t: "t = new_Ticket f km fr"
    using post_on_route_Await_trip by blast
  moreover have "cast_path ''start_lat'' SchemaNumber (JStr s) = Inr (JNum (Fin 0))"
    using assms(5,6) by (rule cast_path_ws_string)
  ultimately show ?thesis using assms
    by (simp add: post_api_tickets_def post_on_save_def save_def Let_def cast_doc_def cast_value_def
        new_Ticket_def)
qed

theorem post_blank_coordinate_zero_witness:
  "post_begin (trip_body (spec_trip\<lparr>start_lat := JStr '' ''\<rparr>)) =
     Await (spec_trip\<lparr>start_lat := JStr '' ''\<rparr>,
            ors_directions_query (JStr '' '') (JNum (Fin 80.0250)) (JNum (Fin 9.6781)) (JNum (Fin 80.0150))) \<and>
   post_on_route (spec_trip\<lparr>start_lat := JStr '' ''\<rparr>) (JsonBody (ors_response (JNum (Fin 2000)))) =
     Await (new_Ticket (spec_trip\<lparr>start_lat := JStr '' ''\<rparr>) (Fin 2) (Fin 100)) \<and>
   cast_errors (new_Ticket (spec_trip\<lparr>start_lat := JStr '' ''\<rparr>) (Fin 2) (Fin 100)) = [] \<and>
   fields_present (spec_trip\<lparr>start_lat := JStr '' ''\<rparr>) \<and>
   (\<exists>d. post_api_tickets (trip_body (spec_trip\<lparr>start_lat := JStr '' ''\<rparr>))
          (JsonBody (ors_response (JNum (Fin 2000)))) DbOk empty_store =
        (resp 200 (TicketBody d), \<lparr>docs = [d], next_id = 1\<rparr>,
         [RouteCall (ors_directions_query (JStr '' '') (JNum (Fin 80.0250)) (JNum (Fin 9.6781))
                       (JNum (Fin 80.0150))),
          SaveCall (new_Ticket (spec_trip\<lparr>start_lat := JStr '' ''\<rparr>) (Fin 2) (Fin 100))]) \<and>
        start_lat d = JNum (Fin 0))"
proof -
  let ?f = "spec_trip\<lparr>start_lat := JStr '' ''\<rparr>"
  have fp: "fields_present ?f" by (simp add: fields_present_def spec_trip_def)
  have pb: "post_begin (trip_body ?f) =
     Await (?f, ors_directions_query (JStr '' '') (JNum (Fin 80.0250)) (JNum (Fin 9.6781)) (JNum (Fin 80.0150)))"
    using fp by (simp add: post_begin_Await_iff) (simp add: spec_trip_def)
  have ce: "cast_errors (new_Ticket ?f (Fin 2) (Fin 100)) = []"
    by (simp add: cast_errors_def ticket_casts_def new_Ticket_def spec_trip_def cast_path_def
        number_cast_input_def str_to_number_def trim_ws_def is_ws_def)
  have ws: "list_all is_ws '' ''" by (simp add: is_ws_def)
  show ?thesis
    using post_blank_coordinate_zero [OF pb post_on_route_spec_response ce _ _ ws,
        where st = empty_store]
      pb post_on_route_spec_response ce fp
    by (simp add: empty_store_def)
qed

text \<open>
  C22 (total of the listing, spec 4.3).  When the collection holds a ticket of fare
  \<open>+\<infinity>\<close> and one of fare \<open>-\<infinity>\<close> (distances \<^verbatim>\<open>"Infinity"\<close> and
  \<^verbatim>\<open>"-Infinity"\<close> from the routing service), \<^verbatim>\<open>totalFare\<close> is \<open>NaN\<close>, whatever the
  other fares and their order: once the sum has met both infinities it stays \<open>NaN\<close>.
\<close>

lemma get_total_NaN_of_infinities:
  assumes "\<exists>d \<in> set (docs st). fare d = Infty True" and "\<exists>d \<in> set (docs st). fare d = Infty False"
  shows "get_api_tickets DbOk st = resp 200 (ListBody (docs st) NaN)"
  using assms foldl_fare_NaN [of "Fin 0" "docs st"]
  by (simp add: get_api_tickets_def find_all_def total_fare_def)

theorem get_total_NaN_of_infinities_witness:
  "(\<exists>d \<in> set (docs infinite_fares_store). fare d = Infty True) \<and>
   (\<exists>d \<in> set (docs infinite_fares_store). fare d = Infty False) \<and>
   get_api_tickets DbOk infinite_fares_store = resp 200 (ListBody (docs infinite_fares_store) NaN)"
proof -
  have p: "\<exists>d \<in> set (docs infinite_fares_store). fare d = Infty True"
    and n: "\<exists>d \<in> set (docs infinite_fares_store). fare d = Infty False"
    by (simp_all add: infinite_fares_store_def new_Ticket_def)
  show ?thesis using get_total_NaN_of_infinities [OF p n] p n by simp
qed

end
