(* ===== verification/EventLoop.thy ===== *)
theory EventLoop
  imports FareFlow
begin

text \<open>
  The server under Node's event loop (spec section 5).  Each request runs as an
  \<^verbatim>\<open>async\<close> handler; between two \<^verbatim>\<open>await\<close>s its code runs without interruption,
  and while it is suspended at an external call any other request may run.  A state
  holds the collection, the requests suspended at an external call (with what they
  wait for), and the responses sent so far.  One step is one uninterrupted run of a
  handler: a request arriving and running to its first \<^verbatim>\<open>await\<close>, or a suspended
  request resuming with the answer of its external call.  Which request resumes and what
  the services answer are not determined, so the steps form an \<^theory_text>\<open>inductive\<close>
  relation.  The phases are those of \<open>FareFlow\<close>: \<open>post_begin\<close>,
  \<open>post_on_route\<close>, \<open>post_on_save\<close>, \<open>get_api_tickets\<close>.

  A write to the database and the settling of the \<^verbatim>\<open>save()\<close> promise are two events:
  the document is stored when the database applies the write, and the handler resumes
  when the acknowledgement arrives, which may be lost.  Between the two, other requests
  run and may read the new document.  The handler's code after the \<^verbatim>\<open>await\<close> is
  \<open>post_on_save\<close> in both cases: with the store's success when the acknowledgement
  arrives, and with the store's error (the \<^verbatim>\<open>catch\<close> of lines 83--86) when it is lost.
\<close>

section \<open>States and steps\<close>

text \<open>Where a request is suspended.\<close>

datatype pending =
    AtRoute trip route_query     \<comment> \<open>POST awaiting the routing answer (lines 62--67)\<close>
  | AtSave ticket                 \<comment> \<open>POST awaiting \<^verbatim>\<open>ticket.save()\<close>, write not applied (line 80)\<close>
  | AtAck ticket outcome          \<comment> \<open>POST whose write is applied, awaiting the acknowledgement\<close>
  | AtFind                        \<comment> \<open>GET awaiting \<^verbatim>\<open>Ticket.find({})\<close> (line 44)\<close>

record server =
  db :: store
  inflight :: "nat \<rightharpoonup> pending"
  answered :: "(nat \<times> outcome) list"
  next_req :: nat

definition init_server :: server where
  "init_server = \<lparr>db = empty_store, inflight = Map.empty, answered = [], next_req = 0\<rparr>"

text \<open>Sending the response of request \<open>i\<close>, which is then no longer in flight.\<close>

definition reply :: "nat \<Rightarrow> outcome \<Rightarrow> server \<Rightarrow> server" where
  "reply i out s = s\<lparr>inflight := (inflight s)(i := None), answered := answered s @ [(i, out)]\<rparr>"

text \<open>A new request gets the next number.\<close>

definition admit :: "server \<Rightarrow> server" where
  "admit s = s\<lparr>next_req := Suc (next_req s)\<rparr>"

inductive step :: "server \<Rightarrow> server \<Rightarrow> bool" where
  post_done:
    "post_begin b = Done out \<Longrightarrow> step s (admit (reply (next_req s) out s))"
| post_await:
    "post_begin b = Await (f, q) \<Longrightarrow>
     step s (admit (s\<lparr>inflight := (inflight s)(next_req s \<mapsto> AtRoute f q)\<rparr>))"
| route_done:
    "inflight s i = Some (AtRoute f q) \<Longrightarrow> post_on_route f rr = Done out \<Longrightarrow>
     step s (reply i out s)"
| route_await:
    "inflight s i = Some (AtRoute f q) \<Longrightarrow> post_on_route f rr = Await t \<Longrightarrow>
     step s (s\<lparr>inflight := (inflight s)(i \<mapsto> AtSave t)\<rparr>)"
| save_fails:
    "inflight s i = Some (AtSave t) \<Longrightarrow>
     step s (reply i (fst (post_on_save t (DbFail m) (db s))) s)"
| save_commits:
    "inflight s i = Some (AtSave t) \<Longrightarrow> save DbOk t (db s) = Inr (d, st') \<Longrightarrow>
     step s (s\<lparr>db := st',
               inflight := (inflight s)(i \<mapsto> AtAck t (fst (post_on_save t DbOk (db s))))\<rparr>)"
| ack_ok:
    "inflight s i = Some (AtAck t out) \<Longrightarrow> step s (reply i out s)"
| ack_lost:
    "inflight s i = Some (AtAck t out) \<Longrightarrow>
     step s (reply i (fst (post_on_save t (DbFail m) (db s))) s)"
| get_arrives:
    "step s (admit (s\<lparr>inflight := (inflight s)(next_req s \<mapsto> AtFind)\<rparr>))"
| find_done:
    "inflight s i = Some AtFind \<Longrightarrow> step s (reply i (get_api_tickets r (db s)) s)"
| root:
    "step s (admit (reply (next_req s) get_root s))"

inductive reachable :: "server \<Rightarrow> bool" where
  start: "reachable init_server"
| later: "reachable s \<Longrightarrow> step s s' \<Longrightarrow> reachable s'"

section \<open>Invariant\<close>

text \<open>
  What every reachable state keeps: the collection's invariant; a request waiting for
  its route passed the check of line 56; the tickets waiting to be written are
  consistent; a ticket that a response reports, or will report once its
  acknowledgement arrives, is in the collection; request numbers are below the next one; no request is answered twice or
  answered while still in flight.
\<close>

definition server_inv :: "server \<Rightarrow> bool" where
  "server_inv s \<longleftrightarrow>
     store_inv (db s) \<and>
     (\<forall>i f q. inflight s i = Some (AtRoute f q) \<longrightarrow> fields_present f) \<and>
     (\<forall>i t. inflight s i = Some (AtSave t) \<longrightarrow> ticket_consistent t) \<and>
     (\<forall>i t d. inflight s i = Some (AtAck t (resp 200 (TicketBody d))) \<longrightarrow>
        d \<in> set (docs (db s))) \<and>
     (\<forall>i d. (i, resp 200 (TicketBody d)) \<in> set (answered s) \<longrightarrow> d \<in> set (docs (db s))) \<and>
     (\<forall>i p. inflight s i = Some p \<longrightarrow> i < next_req s) \<and>
     (\<forall>i \<in> fst ` set (answered s). i < next_req s) \<and>
     distinct (map fst (answered s)) \<and>
     (\<forall>i p. inflight s i = Some p \<longrightarrow> i \<notin> fst ` set (answered s))"

section \<open>A run used by the witnesses\<close>

text \<open>
  The spec's example trip as a POST (request 0) under interleaving: waiting for its
  write after the routing answer of 2000 metres, then with the write applied and
  the acknowledgement not yet received, and then answered 200 with the stored ticket.
\<close>

definition spec_saving :: server where
  "spec_saving =
     \<lparr>db = empty_store, inflight = [0 \<mapsto> AtSave (new_Ticket spec_trip (Fin 2) (Fin 100))],
      answered = [], next_req = 1\<rparr>"

definition spec_committed :: server where
  "spec_committed =
     \<lparr>db = \<lparr>docs = [ticket.extend (new_Ticket spec_trip (Fin 2) (Fin 100)) \<lparr>ticket_id = 0\<rparr>],
            next_id = 1\<rparr>,
      inflight = [0 \<mapsto> AtAck (new_Ticket spec_trip (Fin 2) (Fin 100))
                    (resp 200 (TicketBody
                       (ticket.extend (new_Ticket spec_trip (Fin 2) (Fin 100)) \<lparr>ticket_id = 0\<rparr>)))],
      answered = [], next_req = 1\<rparr>"

definition spec_acked :: server where
  "spec_acked =
     \<lparr>db = \<lparr>docs = [ticket.extend (new_Ticket spec_trip (Fin 2) (Fin 100)) \<lparr>ticket_id = 0\<rparr>],
            next_id = 1\<rparr>,
      inflight = Map.empty,
      answered = [(0, resp 200 (TicketBody
                         (ticket.extend (new_Ticket spec_trip (Fin 2) (Fin 100)) \<lparr>ticket_id = 0\<rparr>)))],
      next_req = 1\<rparr>"

section \<open>Lemmas\<close>

lemma server_inv_init: "server_inv init_server"
  by (simp add: server_inv_def init_server_def store_inv_empty)

lemma save_DbOk_post_on_save:
  "save DbOk t st = Inr (d, st') \<Longrightarrow> post_on_save t DbOk st = (resp 200 (TicketBody d), st')"
  by (simp add: post_on_save_def)

text \<open>The responses other than \<open>ack_ok\<close>'s never report a ticket, in either orientation.\<close>

lemmas not_ticket_sym = post_on_save_fail_not_ticket [THEN not_sym]
  get_api_tickets_not_ticket [THEN not_sym] get_root_not_ticket [THEN not_sym]

text \<open>Every step keeps the invariant: one case per rule.\<close>

lemma step_server_inv: "step s s' \<Longrightarrow> server_inv s \<Longrightarrow> server_inv s'"
proof (induction rule: step.induct)
  case (post_done b out s)
  then show ?case by (auto simp: server_inv_def reply_def admit_def dest: post_begin_not_ticket)
next
  case (post_await b f q s)
  then show ?case by (auto simp: server_inv_def admit_def post_begin_Await_iff)
next
  case (route_done s i f q rr out)
  then show ?case by (auto simp: server_inv_def reply_def dest: post_on_route_not_ticket)
next
  case (route_await s i f q rr t)
  then show ?case by (auto simp: server_inv_def intro: post_on_route_consistent)
next
  case (save_fails s i t m)
  then show ?case by (auto simp: server_inv_def reply_def not_ticket_sym)
next
  case (save_commits s i t d st')
  from save_commits.hyps(2) have st': "docs st' = docs (db s) @ [d]"
    by (simp add: save_Inr_iff)
  from save_commits.prems save_commits.hyps(1) have tc: "ticket_consistent t"
    by (auto simp: server_inv_def)
  from save_commits.prems have "store_inv (db s)" by (simp add: server_inv_def)
  from post_on_save_inv [OF this tc save_DbOk_post_on_save [OF save_commits.hyps(2)]]
  have "store_inv st'" .
  with st' save_commits show ?case
    by (auto simp: server_inv_def save_DbOk_post_on_save resp_def)
next
  case (ack_ok s i t out)
  then show ?case by (auto simp: server_inv_def reply_def)
next
  case (ack_lost s i t out m)
  then show ?case by (auto simp: server_inv_def reply_def not_ticket_sym)
next
  case (get_arrives s)
  then show ?case by (auto simp: server_inv_def admit_def)
next
  case (find_done s i r)
  then show ?case by (auto simp: server_inv_def reply_def not_ticket_sym)
next
  case (root s)
  then show ?case by (auto simp: server_inv_def reply_def admit_def not_ticket_sym)
qed

lemma reachable_server_inv: "reachable s \<Longrightarrow> server_inv s"
proof (induction rule: reachable.induct)
  case start
  show ?case by (rule server_inv_init)
next
  case (later s s')
  then show ?case by (blast intro: step_server_inv)
qed

lemma spec_saving_reachable: "reachable spec_saving"
proof -
  have "reachable (admit (init_server\<lparr>inflight := (inflight init_server)
          (next_req init_server \<mapsto> AtRoute spec_trip testORS_query)\<rparr>))"
    by (rule reachable.later [OF reachable.start post_await [OF post_begin_spec_trip]])
  then have s1: "reachable \<lparr>db = empty_store, inflight = [0 \<mapsto> AtRoute spec_trip testORS_query],
                            answered = [], next_req = 1\<rparr>"
    by (simp add: admit_def init_server_def)
  have "step \<lparr>db = empty_store, inflight = [0 \<mapsto> AtRoute spec_trip testORS_query],
              answered = [], next_req = 1\<rparr> spec_saving"
    using step.route_await [of "\<lparr>db = empty_store, inflight = [0 \<mapsto> AtRoute spec_trip testORS_query],
        answered = [], next_req = 1\<rparr>" 0 spec_trip testORS_query
        "JsonBody (ors_response (JNum (Fin 2000)))" "new_Ticket spec_trip (Fin 2) (Fin 100)"]
      post_on_route_spec_response
    by (simp add: spec_saving_def)
  with s1 show ?thesis by (rule reachable.later)
qed

lemma spec_commit_step: "step spec_saving spec_committed"
  using step.save_commits [of spec_saving 0 "new_Ticket spec_trip (Fin 2) (Fin 100)"
      "ticket.extend (new_Ticket spec_trip (Fin 2) (Fin 100)) \<lparr>ticket_id = 0\<rparr>"
      "\<lparr>docs = [ticket.extend (new_Ticket spec_trip (Fin 2) (Fin 100)) \<lparr>ticket_id = 0\<rparr>],
        next_id = 1\<rparr>"]
  by (simp add: spec_saving_def spec_committed_def save_def empty_store_def Let_def
      trip_typed_spec_trip post_on_save_def)

lemma spec_committed_reachable: "reachable spec_committed"
  using spec_saving_reachable spec_commit_step by (rule reachable.later)

lemma spec_acked_reachable: "reachable spec_acked"
proof -
  have "step spec_committed (reply 0 (resp 200 (TicketBody
          (ticket.extend (new_Ticket spec_trip (Fin 2) (Fin 100)) \<lparr>ticket_id = 0\<rparr>))) spec_committed)"
    by (rule step.ack_ok) (simp add: spec_committed_def)
  with spec_committed_reachable have "reachable (reply 0 (resp 200 (TicketBody
          (ticket.extend (new_Ticket spec_trip (Fin 2) (Fin 100)) \<lparr>ticket_id = 0\<rparr>))) spec_committed)"
    by (rule reachable.later)
  then show ?thesis by (simp add: reply_def spec_committed_def spec_acked_def)
qed

section \<open>Properties of interleaved runs\<close>

text \<open>
  C18 (invariant under interleaving, spec 3 and 5).  However the requests interleave
  and whatever the services answer, the collection keeps distinct identifiers and every
  stored ticket has \<^verbatim>\<open>fare = distance_km * 50\<close> and conforms to the schema's types
  (\<^verbatim>\<open>passenger_id\<close> a string, the other paths numbers other than \<open>NaN\<close>).
\<close>

theorem reachable_store_inv: "reachable s \<Longrightarrow> store_inv (db s)"
  using reachable_server_inv by (simp add: server_inv_def)

theorem reachable_store_inv_witness:
  "reachable spec_committed \<and> store_inv (db spec_committed)"
  using reachable_store_inv [OF spec_committed_reachable] spec_committed_reachable by simp

text \<open>
  C5 (durability of reported tickets, spec 4.1 and 5).  Under any interleaving and
  whatever the services answer, a ticket that a response has reported with 200 is in the
  collection, with the identifier the response gave: the handler reports a ticket only
  after its write has been applied, and nothing removes a document.
\<close>

theorem reachable_reported_stored:
  assumes "reachable s" and "(i, resp 200 (TicketBody d)) \<in> set (answered s)"
  shows "d \<in> set (docs (db s))"
  using reachable_server_inv [OF assms(1)] assms(2) unfolding server_inv_def by blast

theorem reachable_reported_stored_witness:
  "reachable spec_acked \<and>
   (0, resp 200 (TicketBody (ticket.extend (new_Ticket spec_trip (Fin 2) (Fin 100)) \<lparr>ticket_id = 0\<rparr>)))
     \<in> set (answered spec_acked) \<and>
   ticket.extend (new_Ticket spec_trip (Fin 2) (Fin 100)) \<lparr>ticket_id = 0\<rparr> \<in> set (docs (db spec_acked))"
proof -
  have a: "(0, resp 200 (TicketBody (ticket.extend (new_Ticket spec_trip (Fin 2) (Fin 100))
              \<lparr>ticket_id = 0\<rparr>))) \<in> set (answered spec_acked)"
    by (simp add: spec_acked_def)
  show ?thesis using reachable_reported_stored [OF spec_acked_reachable a] spec_acked_reachable a
    by simp
qed

text \<open>
  C19 (partial failure, spec 7).  The write of \<^verbatim>\<open>ticket.save()\<close> can be applied by the
  database while its acknowledgement is lost: the \<^verbatim>\<open>catch\<close> of lines 83--86 then
  sends the client a 500 although the ticket is stored.  This state is reachable from
  the start.
\<close>

theorem ack_lost_partial_failure:
  "reachable \<lparr>db = \<lparr>docs = [ticket.extend (new_Ticket spec_trip (Fin 2) (Fin 100)) \<lparr>ticket_id = 0\<rparr>],
                     next_id = 1\<rparr>,
              inflight = Map.empty,
              answered = [(0, resp 500 (ErrorBody ''Failed to calculate fare. connection reset''))],
              next_req = 1\<rparr>"
proof -
  let ?out = "fst (post_on_save (new_Ticket spec_trip (Fin 2) (Fin 100)) (DbFail ''connection reset'')
                (db spec_committed))"
  have "step spec_committed (reply 0 ?out spec_committed)"
    by (rule step.ack_lost) (simp add: spec_committed_def)
  with spec_committed_reachable have "reachable (reply 0 ?out spec_committed)"
    by (rule reachable.later)
  then show ?thesis
    by (simp add: reply_def spec_committed_def post_on_save_def save_def trip_typed_spec_trip
        fail_500_def)
qed

end
