(* ===== verification/Dotenv.thy ===== *)
theory Dotenv
  imports JsNumber
begin

text \<open>
  \<^verbatim>\<open>dotenv.config()\<close>, called at line 9 of \<^verbatim>\<open>src/server.js\<close> and line 3 of
  \<^verbatim>\<open>src/testORS.js\<close>: the parser of dotenv 16 over the text of \<^verbatim>\<open>.env\<close> and the
  population of \<^verbatim>\<open>process.env\<close>.  The environment is a map from names to strings;
  the file's text (or its absence) is an input.  The lemmas prove that the scanner
  terminates.
\<close>

type_synonym env = "string \<rightharpoonup> string"

section \<open>dotenv.config() (line 9)\<close>

text \<open>
  \<^verbatim>\<open>parse\<close> of dotenv 16: line breaks \<^verbatim>\<open>\r\n\<close> and \<^verbatim>\<open>\r\<close> become \<^verbatim>\<open>\n\<close>, then
  the regular expression
  \<^verbatim>\<open>^\s*(?:export\s+)?([\w.-]+)(?:\s*=\s*?|:\s+?)(\s*'(?:\\'|[^'])*'|\s*"(?:\\"|[^"])*"|\s*`(?:\\`|[^`])*`|[^#\r\n]+)?\s*(?:#.*)?$\<close>
  (flags \<^verbatim>\<open>m\<close> and \<^verbatim>\<open>g\<close>) is matched from each line start in turn.  Its pieces are
  the definitions below; \<^verbatim>\<open>\s\<close> is \<open>is_ws\<close>, which on Latin-1 is exactly the
  JavaScript class (and the class \<^verbatim>\<open>String.prototype.trim\<close> removes).
\<close>

fun normalize_newlines :: "string \<Rightarrow> string" where
  "normalize_newlines [] = []"
| "normalize_newlines (c # s) =
     (if c = CHR 0x0D then CHR 0x0A # normalize_newlines (if s \<noteq> [] \<and> hd s = CHR 0x0A then tl s else s)
      else c # normalize_newlines s)"

text \<open>\<^verbatim>\<open>[\w.-]\<close>: ASCII letters, digits, \<^verbatim>\<open>_\<close>, \<^verbatim>\<open>.\<close> and \<^verbatim>\<open>-\<close>.\<close>

definition key_char :: "char \<Rightarrow> bool" where
  "key_char c \<longleftrightarrow>
     (let n = (of_char c :: nat) in
      (48 \<le> n \<and> n \<le> 57) \<or> (65 \<le> n \<and> n \<le> 90) \<or> (97 \<le> n \<and> n \<le> 122) \<or> n = 95 \<or> n = 46 \<or> n = 45)"

text \<open>The text after the line break that ends the current line.\<close>

definition after_line :: "string \<Rightarrow> string" where
  "after_line s = drop 1 (dropWhile (\<lambda>c. c \<noteq> CHR 0x0A) s)"

text \<open>
  \<^verbatim>\<open>\s*(?:#.*)?$\<close> from a position: it matches exactly when the rest of the current
  line is white space, possibly followed by a comment.
\<close>

definition tail_ok :: "string \<Rightarrow> bool" where
  "tail_ok s \<longleftrightarrow>
     (case dropWhile (\<lambda>c. is_ws c \<and> c \<noteq> CHR 0x0A) s of
        [] \<Rightarrow> True
      | c # r \<Rightarrow> c = CHR ''#'' \<or> c = CHR 0x0A)"

text \<open>
  The body \<^verbatim>\<open>(?:\\q|[^q])*\<close> of a value quoted with \<open>q\<close>: every \<open>q\<close> in it is
  escaped by the backslash before it.
\<close>

fun quoted_body :: "char \<Rightarrow> string \<Rightarrow> bool" where
  "quoted_body q [] = True"
| "quoted_body q (c # s) =
     (if c = q then False
      else if c = CHR 0x5C \<and> s \<noteq> [] \<and> hd s = q then quoted_body q (tl s)
      else quoted_body q s)"

text \<open>
  The closing quote of a quoted value \<open>y\<close> (starting with its opening quote): the
  greedy body makes the regular expression take the last quote that closes a body and
  leaves only blanks or a comment on its line.
\<close>

definition quoted_close :: "char \<Rightarrow> string \<Rightarrow> nat option" where
  "quoted_close q y =
     find (\<lambda>j. y ! j = q \<and> quoted_body q (take (j - 1) (drop 1 y)) \<and> tail_ok (drop (Suc j) y))
       (rev [1..<length y])"

text \<open>
  The three quoted alternatives \<^verbatim>\<open>\s*'...'\<close>, \<^verbatim>\<open>\s*"..."\<close>, \<^verbatim>\<open>\s*`...`\<close>: the value
  with its blanks and quotes, and the text after the line of the closing quote (the
  blanks before the opening quote may include line breaks).
\<close>

definition quoted_value :: "string \<Rightarrow> (string \<times> string) option" where
  "quoted_value x =
     (let y = dropWhile is_ws x in
      case y of
        [] \<Rightarrow> None
      | q # r \<Rightarrow>
          if q \<notin> set [CHR 0x27, CHR 0x22, CHR 0x60] then None
          else map_option (\<lambda>j. (take (length x - length y + Suc j) x, after_line (drop (Suc j) y)))
                 (quoted_close q y))"

text \<open>
  The value group: a quoted value, else \<^verbatim>\<open>[^#\r\n]+\<close> up to a comment or the end of
  the line, else nothing (the empty value).
\<close>

definition dotenv_raw :: "string \<Rightarrow> string \<times> string" where
  "dotenv_raw x =
     (case quoted_value x of
        Some p \<Rightarrow> p
      | None \<Rightarrow> (takeWhile (\<lambda>c. c \<noteq> CHR ''#'' \<and> c \<noteq> CHR 0x0A) x, after_line x))"

text \<open>The key and the separator \<^verbatim>\<open>\s*=\s*?\<close> or \<^verbatim>\<open>:\s+?\<close>; the text after it.\<close>

definition dotenv_key_sep :: "string \<Rightarrow> (string \<times> string) option" where
  "dotenv_key_sep t =
     (let k = takeWhile key_char t; r = dropWhile key_char t in
      if k = [] then None
      else case dropWhile is_ws r of
             [] \<Rightarrow> None
           | c # x \<Rightarrow>
               if c = CHR ''='' then Some (k, x)
               else (case r of
                       c' # d # x' \<Rightarrow> if c' = CHR '':'' \<and> is_ws d then Some (k, x') else None
                     | _ \<Rightarrow> None))"

text \<open>A match at a line start (blanks skipped), with the optional \<^verbatim>\<open>export\<close>.\<close>

definition dotenv_match :: "string \<Rightarrow> (string \<times> string \<times> string) option" where
  "dotenv_match t =
     (let m = (if take 6 t = ''export'' \<and> 6 < length t \<and> is_ws (t ! 6)
               then dotenv_key_sep (dropWhile is_ws (drop 6 t)) else None) in
      case (case m of Some p \<Rightarrow> Some p | None \<Rightarrow> dotenv_key_sep t) of
        None \<Rightarrow> None
      | Some (k, x) \<Rightarrow> Some (k, dotenv_raw x))"

text \<open>The loop of \<^verbatim>\<open>LINE.exec\<close>: every match in order, as key and raw value.\<close>

function dotenv_lines :: "string \<Rightarrow> (string \<times> string) list" where
  "dotenv_lines s =
     (let t = dropWhile is_ws s in
      if t = [] then []
      else case dotenv_match t of
             Some (k, raw, r) \<Rightarrow> (k, raw) # dotenv_lines r
           | None \<Rightarrow> dotenv_lines (after_line t))"
  by pat_completeness auto

text \<open>\<^verbatim>\<open>value.replace(/\\n/g, '\n')\<close> and the same for \<^verbatim>\<open>\r\<close>.\<close>

fun replace_escape :: "char \<Rightarrow> char \<Rightarrow> string \<Rightarrow> string" where
  "replace_escape e c (b # d # s) =
     (if b = CHR 0x5C \<and> d = e then c # replace_escape e c s else b # replace_escape e c (d # s))"
| "replace_escape e c s = s"

text \<open>
  The value kept for a key: trimmed, one pair of matching outer quotes removed, and
  \<^verbatim>\<open>\n\<close>, \<^verbatim>\<open>\r\<close> expanded when the value was double-quoted.
\<close>

definition dotenv_value :: "string \<Rightarrow> string" where
  "dotenv_value raw =
     (let v = trim_ws raw;
          v' = (if 2 \<le> length v \<and> hd v \<in> set [CHR 0x27, CHR 0x22, CHR 0x60] \<and> last v = hd v
                then butlast (tl v) else v)
      in if v \<noteq> [] \<and> hd v = CHR 0x22
         then replace_escape (CHR ''r'') (CHR 0x0D) (replace_escape (CHR ''n'') (CHR 0x0A) v')
         else v')"

text \<open>The parsed object: a later line for the same key overrides an earlier one.\<close>

definition dotenv_parse :: "string \<Rightarrow> env" where
  "dotenv_parse src =
     foldl (\<lambda>m (k, raw). m(k \<mapsto> dotenv_value raw)) Map.empty (dotenv_lines (normalize_newlines src))"

text \<open>
  \<^verbatim>\<open>dotenv.config()\<close>: without a \<^verbatim>\<open>.env\<close> file nothing changes; otherwise every
  parsed key that \<^verbatim>\<open>process.env\<close> does not already have is added (an existing
  variable is never overridden).
\<close>

definition dotenv_config :: "env \<Rightarrow> string option \<Rightarrow> env" where
  "dotenv_config env file = (case file of None \<Rightarrow> env | Some src \<Rightarrow> dotenv_parse src ++ env)"

text \<open>
  A \<^verbatim>\<open>.env\<close> file as a tool writes one: a line \<^verbatim>\<open>KEY="value"\<close> per variable.  The
  keys are of the characters \<^verbatim>\<open>[\w.-]\<close>; the values have no double quote, backslash
  or line break.
\<close>

section \<open>Lemmas\<close>

subsection \<open>Termination of the scanner\<close>

lemma after_line_length: "length (after_line s) \<le> length s"
  by (simp add: after_line_def) (meson diff_le_self le_trans length_dropWhile_le)

lemma after_line_shorter: "s \<noteq> [] \<Longrightarrow> length (after_line s) < length s"
proof (cases "dropWhile (\<lambda>c. c \<noteq> CHR 0x0A) s")
  case (Cons c r)
  then have "length r < length s" by (rule dropWhile_Cons_shorter)
  with Cons show ?thesis by (simp add: after_line_def)
qed (simp add: after_line_def del: dropWhile_eq_Nil_conv)

lemma dotenv_key_sep_shorter: "dotenv_key_sep t = Some (k, x) \<Longrightarrow> length x < length t"
proof -
  assume m: "dotenv_key_sep t = Some (k, x)"
  let ?r = "dropWhile key_char t"
  from m have "takeWhile key_char t \<noteq> []" by (simp add: dotenv_key_sep_def Let_def split: if_splits)
  then obtain c t' where "t = c # t'" "key_char c" by (cases t) (auto split: if_splits)
  then have r: "length ?r < length t" using length_dropWhile_le [of key_char t'] by simp
  from m have "(\<exists>c. dropWhile is_ws ?r = c # x) \<or> (\<exists>c d. ?r = c # d # x)"
    by (simp add: dotenv_key_sep_def Let_def split: list.splits if_splits)
  then show ?thesis
    using r dropWhile_Cons_shorter [of is_ws ?r] by fastforce
qed

lemma quoted_value_length: "quoted_value x = Some (raw, r) \<Longrightarrow> length r \<le> length x"
proof -
  assume "quoted_value x = Some (raw, r)"
  then obtain j where "r = after_line (drop (Suc j) (dropWhile is_ws x))"
    by (auto simp: quoted_value_def Let_def split: list.splits if_splits)
  then show ?thesis
    using after_line_length [of "drop (Suc j) (dropWhile is_ws x)"] length_dropWhile_le [of is_ws x]
    by simp
qed

lemma dotenv_raw_length: "dotenv_raw x = (raw, r) \<Longrightarrow> length r \<le> length x"
  using quoted_value_length [of x raw r] after_line_length [of x]
  by (auto simp: dotenv_raw_def split: option.splits)

lemma dotenv_match_shorter: "dotenv_match t = Some (k, raw, r) \<Longrightarrow> length r < length t"
proof -
  assume m: "dotenv_match t = Some (k, raw, r)"
  then obtain x where kx: "dotenv_key_sep t = Some (k, x) \<or>
      dotenv_key_sep (dropWhile is_ws (drop 6 t)) = Some (k, x)" and raw: "dotenv_raw x = (raw, r)"
    by (auto simp: dotenv_match_def Let_def split: option.splits if_splits)
  have "length (dropWhile is_ws (drop 6 t)) \<le> length t"
    using length_dropWhile_le [of is_ws "drop 6 t"] by simp
  with kx have "length x < length t" by (auto dest: dotenv_key_sep_shorter)
  with dotenv_raw_length [OF raw] show ?thesis by simp
qed

lemma dotenv_lines_match_shorter:
  "dotenv_match (dropWhile is_ws s) = Some (k, raw, r) \<Longrightarrow> length r < length s"
  using dotenv_match_shorter [of "dropWhile is_ws s" k raw r] length_dropWhile_le [of is_ws s] by simp

lemma dotenv_lines_skip_shorter:
  "dropWhile is_ws s \<noteq> [] \<Longrightarrow> length (after_line (dropWhile is_ws s)) < length s"
  using after_line_shorter [of "dropWhile is_ws s"] length_dropWhile_le [of is_ws s] by simp

termination dotenv_lines
  by (relation "measure length")
     (auto dest: dotenv_lines_match_shorter dotenv_lines_skip_shorter simp del: dropWhile_eq_Nil_conv)

declare dotenv_lines.simps [simp del]


end
