(* ===== verification/JsonText.thy ===== *)
theory JsonText
  imports MongooseCast
begin

text \<open>
  JSON text.  \<^verbatim>\<open>res.json(x)\<close> sends \<^verbatim>\<open>JSON.stringify(x)\<close> (lines 46, 48, 57, 72, 81,
  85 of \<^verbatim>\<open>src/server.js\<close>), and the body parser installed by \<^verbatim>\<open>app.use(express.json())\<close>
  (line 13) turns a request body into \<^verbatim>\<open>req.body\<close> with \<^verbatim>\<open>JSON.parse\<close> in strict mode.
  \<open>json_stringify\<close> is ECMAScript's \<^verbatim>\<open>SerializeJSONProperty\<close> with
  \<^verbatim>\<open>QuoteJSONString\<close>, \<open>json_parse\<close> the JSON grammar of ECMA-404 as \<^verbatim>\<open>JSON.parse\<close>
  reads it, with each number lexeme converted by \<^verbatim>\<open>StringToNumber\<close>.
\<close>

section \<open>JSON.stringify\<close>

text \<open>\<^verbatim>\<open>QuoteJSONString\<close>: the short escapes, \<^verbatim>\<open>\u00xx\<close> in lower-case hexadecimal for the other control characters.\<close>

definition hex_lower :: "nat \<Rightarrow> char" where
  "hex_lower d = (if d < 10 then char_of (48 + d) else char_of (87 + d))"

definition json_escape :: "char \<Rightarrow> string" where
  "json_escape c =
     (let n = (of_char c :: nat) in
      if n = 8 then [CHR 0x5C, CHR ''b'']
      else if n = 9 then [CHR 0x5C, CHR ''t'']
      else if n = 10 then [CHR 0x5C, CHR ''n'']
      else if n = 12 then [CHR 0x5C, CHR ''f'']
      else if n = 13 then [CHR 0x5C, CHR ''r'']
      else if n = 34 then [CHR 0x5C, CHR 0x22]
      else if n = 92 then [CHR 0x5C, CHR 0x5C]
      else if n < 32 then [CHR 0x5C, CHR ''u'', CHR ''0'', CHR ''0'', hex_lower (n div 16), hex_lower (n mod 16)]
      else [c])"

definition json_quote :: "string \<Rightarrow> string" where
  "json_quote s = CHR 0x22 # concat (map json_escape s) @ [CHR 0x22]"

text \<open>
  \<^verbatim>\<open>SerializeJSONProperty\<close>: \<open>None\<close> is \<^verbatim>\<open>undefined\<close> (nothing to serialise).  A
  number that is not finite is \<^verbatim>\<open>null\<close>; an array element that serialises to nothing
  is \<^verbatim>\<open>null\<close>; an object member that does is left out.  Members follow the object's
  own key order.
\<close>

function json_stringify :: "jsval \<Rightarrow> string option" where
  "json_stringify JUndef = None"
| "json_stringify JNull = Some ''null''"
| "json_stringify (JBool b) = Some (if b then ''true'' else ''false'')"
| "json_stringify (JNum n) = Some (case n of Fin x \<Rightarrow> num_to_string n | _ \<Rightarrow> ''null'')"
| "json_stringify (JStr s) = Some (json_quote s)"
| "json_stringify (JArr xs) =
     Some (CHR ''['' # join_strings '',''
             (map (\<lambda>x. case json_stringify x of Some t \<Rightarrow> t | None \<Rightarrow> ''null'') xs) @ '']'')"
| "json_stringify (JObj kvs) =
     Some (CHR ''{'' # join_strings '',''
             (concat (map (\<lambda>(k, v). case json_stringify v of
                                       Some t \<Rightarrow> [json_quote k @ CHR '':'' # t] | None \<Rightarrow> [])
                        (own_entries kvs))) @ ''}'')"
  by pat_completeness auto

termination
  by (relation "measure size")
    (auto simp: le_imp_less_Suc size_list_estimation' dest: own_entries_size)

text \<open>
  What \<^verbatim>\<open>JSON.parse(JSON.stringify(v))\<close> gives back: non-finite numbers and
  \<^verbatim>\<open>undefined\<close> array elements become \<^verbatim>\<open>null\<close>, members with value
  \<^verbatim>\<open>undefined\<close> are dropped, and an object keeps one member per key in its own key
  order.
\<close>

function json_normal :: "jsval \<Rightarrow> jsval" where
  "json_normal JUndef = JUndef"
| "json_normal JNull = JNull"
| "json_normal (JBool b) = JBool b"
| "json_normal (JNum n) = (case n of Fin x \<Rightarrow> JNum n | _ \<Rightarrow> JNull)"
| "json_normal (JStr s) = JStr s"
| "json_normal (JArr xs) = JArr (map (\<lambda>x. if x = JUndef then JNull else json_normal x) xs)"
| "json_normal (JObj kvs) =
     JObj (map (\<lambda>(k, v). (k, json_normal v)) (filter (\<lambda>(k, v). v \<noteq> JUndef) (own_entries kvs)))"
  by pat_completeness auto

termination
  by (relation "measure size")
    (auto simp: le_imp_less_Suc size_list_estimation' dest: own_entries_size)

text \<open>The finite numbers a value holds, and the numbers with at most 400 decimals.\<close>

fun json_numbers :: "jsval \<Rightarrow> real list" where
  "json_numbers (JNum (Fin x)) = [x]"
| "json_numbers (JArr xs) = concat (map json_numbers xs)"
| "json_numbers (JObj kvs) = concat (map (\<lambda>(k, v). json_numbers v) kvs)"
| "json_numbers v = []"

section \<open>JSON.parse\<close>

text \<open>JSON white space: space, tab, line feed and carriage return.\<close>

definition json_ws :: "char \<Rightarrow> bool" where
  "json_ws c \<longleftrightarrow> c \<in> set [CHR 0x20, CHR 0x09, CHR 0x0A, CHR 0x0D]"

text \<open>
  A text \<^verbatim>\<open>JSON.parse\<close> rejects with a \<^verbatim>\<open>SyntaxError\<close>, or one holding a
  \<^verbatim>\<open>\uXXXX\<close> escape of a character beyond Latin-1, which the model's characters do
  not cover.
\<close>

datatype json_error = JsonSyntax | JsonBeyondLatin1

definition hex_value :: "char \<Rightarrow> nat option" where
  "hex_value c = (case digit_of c of Some d \<Rightarrow> if d < 16 then Some d else None | None \<Rightarrow> None)"

definition json_unescape :: "char \<Rightarrow> char option" where
  "json_unescape e =
     (if e = CHR 0x22 then Some (CHR 0x22) else if e = CHR 0x5C then Some (CHR 0x5C)
      else if e = CHR ''/'' then Some (CHR ''/'') else if e = CHR ''b'' then Some (CHR 0x08)
      else if e = CHR ''f'' then Some (CHR 0x0C) else if e = CHR ''n'' then Some (CHR 0x0A)
      else if e = CHR ''r'' then Some (CHR 0x0D) else if e = CHR ''t'' then Some (CHR 0x09)
      else None)"

text \<open>The characters of a string literal after its opening quote, and the text after its closing quote.\<close>

fun parse_chars :: "string \<Rightarrow> json_error + (string \<times> string)" where
  "parse_chars [] = Inl JsonSyntax"
| "parse_chars (c # r) =
     (if c = CHR 0x22 then Inr ([], r)
      else if c = CHR 0x5C then
        (case r of
           [] \<Rightarrow> Inl JsonSyntax
         | e # r' \<Rightarrow>
             (case json_unescape e of
                Some u \<Rightarrow> err_bind (parse_chars r') (\<lambda>(t, r''). Inr (u # t, r''))
              | None \<Rightarrow>
                  if e \<noteq> CHR ''u'' then Inl JsonSyntax
                  else
                    (case r' of
                       a # b # c' # d # r'' \<Rightarrow>
                         (case (hex_value a, hex_value b, hex_value c', hex_value d) of
                            (Some ha, Some hb, Some hc, Some h4) \<Rightarrow>
                              (let n = ((ha * 16 + hb) * 16 + hc) * 16 + h4 in
                               if n < 256 then err_bind (parse_chars r'') (\<lambda>(t, r3). Inr (char_of n # t, r3))
                               else Inl JsonBeyondLatin1)
                          | _ \<Rightarrow> Inl JsonSyntax)
                     | _ \<Rightarrow> Inl JsonSyntax)))
      else if (of_char c :: nat) < 32 then Inl JsonSyntax
      else err_bind (parse_chars r) (\<lambda>(t, r'). Inr (c # t, r')))"

text \<open>
  A number lexeme \<^verbatim>\<open>-?(0|[1-9][0-9]*)(\.[0-9]+)?([eE][+-]?[0-9]+)?\<close>, longest
  first, split into its parts.
\<close>

definition lex_int :: "string \<Rightarrow> (string \<times> string) option" where
  "lex_int s =
     (case s of
        [] \<Rightarrow> None
      | d # r \<Rightarrow>
          if \<not> is_digit d then None
          else if d = CHR ''0'' then Some (''0'', r)
          else Some (d # takeWhile is_digit r, dropWhile is_digit r))"

definition lex_fraction :: "string \<Rightarrow> (string \<times> string) option" where
  "lex_fraction s =
     (case s of
        c # r \<Rightarrow>
          if c \<noteq> CHR ''.'' then Some ([], s)
          else if takeWhile is_digit r = [] then None
          else Some (c # takeWhile is_digit r, dropWhile is_digit r)
      | [] \<Rightarrow> Some ([], []))"

definition lex_exponent :: "string \<Rightarrow> (string \<times> string) option" where
  "lex_exponent s =
     (case s of
        c # r \<Rightarrow>
          if c \<noteq> CHR ''e'' \<and> c \<noteq> CHR ''E'' then Some ([], s)
          else
            (let (sg, r') = (case r of x # r'' \<Rightarrow> if x = CHR ''+'' \<or> x = CHR ''-'' then ([x], r'') else ([], r)
                                      | [] \<Rightarrow> ([], []))
             in if takeWhile is_digit r' = [] then None
                else Some (c # sg @ takeWhile is_digit r', dropWhile is_digit r'))
      | [] \<Rightarrow> Some ([], []))"

definition lex_number :: "string \<Rightarrow> (string \<times> string) option" where
  "lex_number s =
     (let (sg, s1) = (case s of c # r \<Rightarrow> if c = CHR ''-'' then (''-'', r) else ([], s) | [] \<Rightarrow> ([], []))
      in case lex_int s1 of
           None \<Rightarrow> None
         | Some (a, s2) \<Rightarrow>
             (case lex_fraction s2 of
                None \<Rightarrow> None
              | Some (b, s3) \<Rightarrow>
                  (case lex_exponent s3 of
                     None \<Rightarrow> None
                   | Some (e, s4) \<Rightarrow> Some (sg @ a @ b @ e, s4))))"

definition lex_literal :: "string \<Rightarrow> (jsval \<times> string) option" where
  "lex_literal s =
     (if take 4 s = ''true'' then Some (JBool True, drop 4 s)
      else if take 5 s = ''false'' then Some (JBool False, drop 5 s)
      else if take 4 s = ''null'' then Some (JNull, drop 4 s)
      else None)"

text \<open>
  A value, the elements of an array after its \<^verbatim>\<open>[\<close>, the members of an object after
  its \<^verbatim>\<open>{\<close>, each with the text after it.  Every call but the first consumes text,
  and the first argument is fuel: \<open>None\<close> when it runs out; \<open>json_parse\<close> gives
  \<open>2 * length s + 1\<close>, which is always enough.
\<close>

fun parse_value :: "nat \<Rightarrow> string \<Rightarrow> (json_error + (jsval \<times> string)) option"
and parse_elems :: "nat \<Rightarrow> jsval list \<Rightarrow> string \<Rightarrow> (json_error + (jsval \<times> string)) option"
and parse_members ::
  "nat \<Rightarrow> (string \<times> jsval) list \<Rightarrow> string \<Rightarrow> (json_error + (jsval \<times> string)) option" where
  "parse_value 0 s = None"
| "parse_value (Suc n) s =
     (case dropWhile json_ws s of
        [] \<Rightarrow> Some (Inl JsonSyntax)
      | c # r \<Rightarrow>
          if c = CHR ''['' then
            (case dropWhile json_ws r of
               d # r' \<Rightarrow> if d = CHR '']'' then Some (Inr (JArr [], r')) else parse_elems n [] (d # r')
             | [] \<Rightarrow> Some (Inl JsonSyntax))
          else if c = CHR ''{'' then
            (case dropWhile json_ws r of
               d # r' \<Rightarrow> if d = CHR ''}'' then Some (Inr (JObj [], r')) else parse_members n [] (d # r')
             | [] \<Rightarrow> Some (Inl JsonSyntax))
          else if c = CHR 0x22 then
            Some (case parse_chars r of Inl e \<Rightarrow> Inl e | Inr (t, r') \<Rightarrow> Inr (JStr t, r'))
          else
            (case lex_literal (c # r) of
               Some (v, r') \<Rightarrow> Some (Inr (v, r'))
             | None \<Rightarrow>
                 (case lex_number (c # r) of
                    Some (t, r') \<Rightarrow> Some (Inr (JNum (str_to_number t), r'))
                  | None \<Rightarrow> Some (Inl JsonSyntax))))"
| "parse_elems 0 acc s = None"
| "parse_elems (Suc n) acc s =
     (case parse_value n s of
        None \<Rightarrow> None
      | Some (Inl e) \<Rightarrow> Some (Inl e)
      | Some (Inr (v, r)) \<Rightarrow>
          (case dropWhile json_ws r of
             d # r' \<Rightarrow>
               if d = CHR '','' then parse_elems n (acc @ [v]) r'
               else if d = CHR '']'' then Some (Inr (JArr (acc @ [v]), r'))
               else Some (Inl JsonSyntax)
           | [] \<Rightarrow> Some (Inl JsonSyntax)))"
| "parse_members 0 acc s = None"
| "parse_members (Suc n) acc s =
     (case dropWhile json_ws s of
        [] \<Rightarrow> Some (Inl JsonSyntax)
      | c # r \<Rightarrow>
          if c \<noteq> CHR 0x22 then Some (Inl JsonSyntax)
          else
            (case parse_chars r of
               Inl e \<Rightarrow> Some (Inl e)
             | Inr (k, r1) \<Rightarrow>
                 (case dropWhile json_ws r1 of
                    [] \<Rightarrow> Some (Inl JsonSyntax)
                  | d # r2 \<Rightarrow>
                      if d \<noteq> CHR '':'' then Some (Inl JsonSyntax)
                      else
                        (case parse_value n r2 of
                           None \<Rightarrow> None
                         | Some (Inl e) \<Rightarrow> Some (Inl e)
                         | Some (Inr (v, r3)) \<Rightarrow>
                             (case dropWhile json_ws r3 of
                                [] \<Rightarrow> Some (Inl JsonSyntax)
                              | d' # r4 \<Rightarrow>
                                  if d' = CHR '','' then parse_members n (acc @ [(k, v)]) r4
                                  else if d' = CHR ''}'' then Some (Inr (JObj (acc @ [(k, v)]), r4))
                                  else Some (Inl JsonSyntax))))))"

text \<open>\<^verbatim>\<open>JSON.parse(s)\<close>: one value with nothing but white space after it.\<close>

definition json_parse :: "string \<Rightarrow> json_error + jsval" where
  "json_parse s =
     (case parse_value (2 * length s + 1) s of
        Some (Inr (v, r)) \<Rightarrow> if dropWhile json_ws r = [] then Inr v else Inl JsonSyntax
      | Some (Inl e) \<Rightarrow> Inl e
      | None \<Rightarrow> Inl JsonSyntax)"

text \<open>
  Predicates the proofs use on the text around a token: the text after a digit run
  does not continue it; the text after a value in a serialisation is empty or a comma
  or closing bracket; a serialised value starts with a character that is not white
  space and not one of those delimiters.
\<close>

definition digits_end :: "string \<Rightarrow> bool" where
  "digits_end r \<longleftrightarrow> r = [] \<or> \<not> is_digit (hd r)"

definition json_after :: "string \<Rightarrow> bool" where
  "json_after r \<longleftrightarrow> r = [] \<or> hd r \<in> set '',]}''"

definition token_start :: "string \<Rightarrow> bool" where
  "token_start t \<longleftrightarrow> t \<noteq> [] \<and> \<not> json_ws (hd t) \<and> hd t \<notin> set '',]}''"

section \<open>Lemmas\<close>

subsection \<open>The parser consumes text and its fuel suffices\<close>

lemma parse_chars_Cons_Inr:
  assumes "parse_chars (c # r0) = Inr (t, r)"
  shows "r = r0 \<or> (\<exists>s' t'. parse_chars s' = Inr (t', r) \<and> length s' \<le> length r0)"
proof -
  consider (q) "c = CHR 0x22" | (b) "c = CHR 0x5C" | (o) "c \<noteq> CHR 0x22" "c \<noteq> CHR 0x5C" by blast
  then show ?thesis
  proof cases
    case q
    with assms show ?thesis by simp
  next
    case o
    with assms show ?thesis
      by (auto simp: err_bind_eq_Inr split_def split: if_splits)
  next
    case b
    with assms obtain e r' where r0: "r0 = e # r'" by (cases r0) auto
    show ?thesis
    proof (cases "json_unescape e")
      case (Some u)
      with assms b r0 show ?thesis by (auto simp: err_bind_eq_Inr split_def)
    next
      case None
      with assms b r0 have "e = CHR ''u''" by (auto split: if_splits)
      with assms b r0 None obtain a b' c' d r'' where r': "r' = a # b' # c' # d # r''"
        by (auto split: list.splits)
      with assms b r0 None \<open>e = _\<close> show ?thesis
        by (auto simp: err_bind_eq_Inr split_def Let_def split: option.splits if_splits)
    qed
  qed
qed

lemma parse_chars_shorter: "parse_chars s = Inr (t, r) \<Longrightarrow> length r < length s"
proof (induction "length s" arbitrary: s t rule: less_induct)
  case less
  then obtain c r0 where s: "s = c # r0" by (cases s) auto
  from parse_chars_Cons_Inr [OF less.prems [unfolded s]] show ?case
  proof
    assume "\<exists>s' t'. parse_chars s' = Inr (t', r) \<and> length s' \<le> length r0"
    then obtain s' t' where "parse_chars s' = Inr (t', r)" "length s' \<le> length r0" by blast
    with less.hyps [of s' t'] s show ?thesis by simp
  qed (simp add: s)
qed

lemma lex_int_split: "lex_int s = Some (a, r) \<Longrightarrow> s = a @ r \<and> a \<noteq> []"
  by (auto simp: lex_int_def split: list.splits if_splits)

lemma lex_fraction_split: "lex_fraction s = Some (b, r) \<Longrightarrow> s = b @ r"
  by (auto simp: lex_fraction_def split: list.splits if_splits)

lemma lex_exponent_split: "lex_exponent s = Some (e, r) \<Longrightarrow> s = e @ r"
  by (auto simp: lex_exponent_def Let_def split: list.splits if_splits prod.splits)

lemma lex_number_split: "lex_number s = Some (t, r) \<Longrightarrow> s = t @ r \<and> t \<noteq> []"
  by (auto simp: lex_number_def split: list.splits if_splits option.splits prod.splits
      dest!: lex_int_split lex_fraction_split lex_exponent_split)

lemma lex_literal_shorter: "lex_literal s = Some (v, r) \<Longrightarrow> length r < length s"
  by (auto simp: lex_literal_def split: if_splits dest!: arg_cong [where f = length])

lemma lex_number_shorter: "lex_number s = Some (t, r) \<Longrightarrow> length r < length s"
  by (drule lex_number_split) auto

lemma parse_value_Suc_shorter:
  assumes E: "\<And>acc s v r. parse_elems n acc s = Some (Inr (v, r)) \<Longrightarrow> length r < length s"
    and M: "\<And>acc s v r. parse_members n acc s = Some (Inr (v, r)) \<Longrightarrow> length r < length s"
    and p: "parse_value (Suc n) s = Some (Inr (v, r))"
  shows "length r < length s"
proof (cases "dropWhile json_ws s")
  case Nil
  with p show ?thesis by simp
next
  case (Cons c r0)
  then have r0: "length r0 < length s" by (rule dropWhile_Cons_shorter)
  consider (arr) "c = CHR ''[''" | (obj) "c = CHR ''{''" | (str) "c = CHR 0x22"
    | (other) "c \<noteq> CHR ''[''" "c \<noteq> CHR ''{''" "c \<noteq> CHR 0x22" by blast
  then show ?thesis
  proof cases
    case arr
    with p Cons obtain d r' where d: "dropWhile json_ws r0 = d # r'"
      by (cases "dropWhile json_ws r0") auto
    then have "length r' < length r0" by (rule dropWhile_Cons_shorter)
    with p Cons arr d r0 E [of "[]" "d # r'" v r] show ?thesis by (auto split: if_splits)
  next
    case obj
    with p Cons obtain d r' where d: "dropWhile json_ws r0 = d # r'"
      by (cases "dropWhile json_ws r0") auto
    then have "length r' < length r0" by (rule dropWhile_Cons_shorter)
    with p Cons obj d r0 M [of "[]" "d # r'" v r] show ?thesis by (auto split: if_splits)
  next
    case str
    with p Cons r0 show ?thesis
      by (auto split: sum.splits prod.splits dest!: parse_chars_shorter)
  next
    case other
    have "length r < length (c # r0)"
      using p Cons other by (auto split: option.splits prod.splits dest!: lex_literal_shorter lex_number_shorter)
    with r0 show ?thesis by simp
  qed
qed

lemma parse_elems_Suc_shorter:
  assumes V: "\<And>s v r. parse_value n s = Some (Inr (v, r)) \<Longrightarrow> length r < length s"
    and E: "\<And>acc s v r. parse_elems n acc s = Some (Inr (v, r)) \<Longrightarrow> length r < length s"
    and p: "parse_elems (Suc n) acc s = Some (Inr (v, r))"
  shows "length r < length s"
proof -
  from p obtain v1 r1 where p1: "parse_value n s = Some (Inr (v1, r1))"
    by (auto split: option.splits sum.splits)
  then have "length r1 < length s" by (rule V)
  moreover from p p1 obtain d r' where d: "dropWhile json_ws r1 = d # r'"
    by (cases "dropWhile json_ws r1") auto
  moreover from d have "length r' < length r1" by (rule dropWhile_Cons_shorter)
  ultimately show ?thesis using p p1 E [of "acc @ [v1]" r' v r] by (auto split: if_splits)
qed

lemma parse_members_Suc_shorter:
  assumes V: "\<And>s v r. parse_value n s = Some (Inr (v, r)) \<Longrightarrow> length r < length s"
    and M: "\<And>acc s v r. parse_members n acc s = Some (Inr (v, r)) \<Longrightarrow> length r < length s"
    and p: "parse_members (Suc n) acc s = Some (Inr (v, r))"
  shows "length r < length s"
proof -
  from p obtain r0 where d0: "dropWhile json_ws s = CHR 0x22 # r0"
    by (cases "dropWhile json_ws s") (auto split: if_splits)
  from p d0 obtain k r1 where k: "parse_chars r0 = Inr (k, r1)"
    by (auto split: sum.splits)
  from p d0 k obtain r2 where d2: "dropWhile json_ws r1 = CHR '':'' # r2"
    by (cases "dropWhile json_ws r1") (auto split: if_splits)
  from p d0 k d2 obtain v1 r3 where p3: "parse_value n r2 = Some (Inr (v1, r3))"
    by (auto split: option.splits sum.splits)
  from p d0 k d2 p3 obtain d r4 where d4: "dropWhile json_ws r3 = d # r4"
    by (cases "dropWhile json_ws r3") auto
  have "length r2 < length s"
    using dropWhile_Cons_shorter [OF d0] parse_chars_shorter [OF k] dropWhile_Cons_shorter [OF d2]
    by simp
  moreover have "length r4 < length r2"
    using V [OF p3] dropWhile_Cons_shorter [OF d4] by simp
  ultimately show ?thesis using p d0 k d2 p3 d4 M [of "acc @ [(k, v1)]" r4 v r]
    by (auto split: if_splits)
qed

lemma parse_shorter:
  "(parse_value n s = Some (Inr (v, r)) \<longrightarrow> length r < length s) \<and>
   (parse_elems n acc s = Some (Inr (v, r)) \<longrightarrow> length r < length s) \<and>
   (parse_members n acc' s = Some (Inr (v, r)) \<longrightarrow> length r < length s)"
proof (induction n arbitrary: s acc acc' v r)
  case 0
  then show ?case by simp
next
  case (Suc n)
  then show ?case
    using parse_value_Suc_shorter [of n s v r] parse_elems_Suc_shorter [of n acc s v r]
      parse_members_Suc_shorter [of n acc' s v r] by blast
qed

lemma parse_value_Suc_total:
  assumes E: "\<And>acc s. 2 * length s + 1 < n \<Longrightarrow> parse_elems n acc s \<noteq> None"
    and M: "\<And>acc s. 2 * length s + 1 < n \<Longrightarrow> parse_members n acc s \<noteq> None"
    and l: "2 * length s < Suc n"
  shows "parse_value (Suc n) s \<noteq> None"
proof (cases "dropWhile json_ws s")
  case Nil
  then show ?thesis by (simp del: dropWhile_eq_Nil_conv)
next
  case (Cons c r0)
  then have r0: "length r0 < length s" by (rule dropWhile_Cons_shorter)
  show ?thesis
  proof (cases "dropWhile json_ws r0")
    case Nil
    with Cons show ?thesis by (auto simp del: dropWhile_eq_Nil_conv split: option.splits prod.splits)
  next
    case (Cons d r')
    then have "length r' < length r0" by (rule dropWhile_Cons_shorter)
    with r0 l have "2 * length (d # r') + 1 < n" by simp
    with E [of "d # r'" "[]"] M [of "d # r'" "[]"] Cons \<open>dropWhile json_ws s = c # r0\<close> show ?thesis
      by (auto split: option.splits prod.splits)
  qed
qed

lemma parse_elems_Suc_total:
  assumes V: "\<And>s. 2 * length s < n \<Longrightarrow> parse_value n s \<noteq> None"
    and E: "\<And>acc s. 2 * length s + 1 < n \<Longrightarrow> parse_elems n acc s \<noteq> None"
    and l: "2 * length s + 1 < Suc n"
  shows "parse_elems (Suc n) acc s \<noteq> None"
proof -
  from l V [of s] obtain x where p1: "parse_value n s = Some x" by auto
  show ?thesis
  proof (cases x)
    case (Inl e)
    with p1 show ?thesis by simp
  next
    case (Inr p)
    then obtain v1 r1 where x: "x = Inr (v1, r1)" by (cases p) auto
    have r1: "length r1 < length s" using p1 x parse_shorter by blast
    show ?thesis
    proof (cases "dropWhile json_ws r1")
      case Nil
      with p1 x show ?thesis by (simp del: dropWhile_eq_Nil_conv)
    next
      case (Cons d r')
      then have "length r' < length r1" by (rule dropWhile_Cons_shorter)
      with r1 l have "2 * length r' + 1 < n" by simp
      with E [of r' "acc @ [v1]"] p1 x Cons show ?thesis by simp
    qed
  qed
qed

lemma parse_members_Suc_total:
  assumes V: "\<And>s. 2 * length s < n \<Longrightarrow> parse_value n s \<noteq> None"
    and M: "\<And>acc s. 2 * length s + 1 < n \<Longrightarrow> parse_members n acc s \<noteq> None"
    and l: "2 * length s + 1 < Suc n"
  shows "parse_members (Suc n) acc s \<noteq> None"
proof (cases "dropWhile json_ws s")
  case Nil
  then show ?thesis by (simp del: dropWhile_eq_Nil_conv)
next
  case (Cons c r0)
  have r0: "length r0 < length s" using Cons by (rule dropWhile_Cons_shorter)
  show ?thesis
  proof (cases "c = CHR 0x22")
    case False
    with Cons show ?thesis by simp
  next
    case True
    show ?thesis
    proof (cases "parse_chars r0")
      case (Inl e)
      with Cons True show ?thesis by simp
    next
      case (Inr p)
      then obtain k r1 where k: "parse_chars r0 = Inr (k, r1)" by (cases p) auto
      have r1: "length r1 < length r0" using k by (rule parse_chars_shorter)
      show ?thesis
      proof (cases "dropWhile json_ws r1")
        case Nil
        with Cons True k show ?thesis by (simp del: dropWhile_eq_Nil_conv)
      next
        case (Cons d r2)
        have r2: "length r2 < length r1" using Cons by (rule dropWhile_Cons_shorter)
        show ?thesis
        proof (cases "d = CHR '':''")
          case False
          with Cons \<open>dropWhile json_ws s = c # r0\<close> True k show ?thesis by simp
        next
          case colon: True
          from r0 r1 r2 l have "2 * length r2 < n" by simp
          with V obtain x where p3: "parse_value n r2 = Some x" by blast
          show ?thesis
          proof (cases x)
            case (Inl e)
            with p3 Cons \<open>dropWhile json_ws s = c # r0\<close> True k colon show ?thesis by simp
          next
            case (Inr q)
            then obtain v1 r3 where x: "x = Inr (v1, r3)" by (cases q) auto
            have r3: "length r3 < length r2" using p3 x parse_shorter by blast
            show ?thesis
            proof (cases "dropWhile json_ws r3")
              case Nil
              with p3 x \<open>dropWhile json_ws r1 = d # r2\<close> \<open>dropWhile json_ws s = c # r0\<close> True k colon
              show ?thesis by (simp del: dropWhile_eq_Nil_conv)
            next
              case (Cons d' r4)
              have "length r4 < length r3" using Cons by (rule dropWhile_Cons_shorter)
              with r0 r1 r2 r3 l have "2 * length r4 + 1 < n" by simp
              with M [of r4 "acc @ [(k, v1)]"] p3 x Cons \<open>dropWhile json_ws r1 = d # r2\<close>
                \<open>dropWhile json_ws s = c # r0\<close> True k colon
              show ?thesis by simp
            qed
          qed
        qed
      qed
    qed
  qed
qed

lemma parse_total:
  "(2 * length s < n \<longrightarrow> parse_value n s \<noteq> None) \<and>
   (2 * length s + 1 < n \<longrightarrow> parse_elems n acc s \<noteq> None) \<and>
   (2 * length s + 1 < n \<longrightarrow> parse_members n acc' s \<noteq> None)"
proof (induction n arbitrary: s acc acc')
  case 0
  then show ?case by simp
next
  case (Suc n)
  then show ?case
    using parse_value_Suc_total [of n s] parse_elems_Suc_total [of n s acc]
      parse_members_Suc_total [of n s acc'] by blast
qed

lemma parse_value_mono_step:
  assumes E: "\<And>acc s x. parse_elems n acc s = Some x \<Longrightarrow> parse_elems m acc s = Some x"
    and M: "\<And>acc s x. parse_members n acc s = Some x \<Longrightarrow> parse_members m acc s = Some x"
    and p: "parse_value (Suc n) s = Some x"
  shows "parse_value (Suc m) s = Some x"
  using p by (auto simp del: dropWhile_eq_Nil_conv split: list.splits if_splits intro: E M)

lemma parse_elems_mono_step:
  assumes V: "\<And>s x. parse_value n s = Some x \<Longrightarrow> parse_value m s = Some x"
    and E: "\<And>acc s x. parse_elems n acc s = Some x \<Longrightarrow> parse_elems m acc s = Some x"
    and p: "parse_elems (Suc n) acc s = Some x"
  shows "parse_elems (Suc m) acc s = Some x"
proof -
  from p obtain y where p1: "parse_value n s = Some y" by (auto split: option.splits)
  with p show ?thesis
    by (auto simp: V [OF p1] simp del: dropWhile_eq_Nil_conv
        split: list.splits if_splits sum.splits prod.splits intro: E)
qed

lemma parse_members_mono_step:
  assumes V: "\<And>s x. parse_value n s = Some x \<Longrightarrow> parse_value m s = Some x"
    and M: "\<And>acc s x. parse_members n acc s = Some x \<Longrightarrow> parse_members m acc s = Some x"
    and p: "parse_members (Suc n) acc s = Some x"
  shows "parse_members (Suc m) acc s = Some x"
proof -
  have V': "parse_value n r \<noteq> None \<Longrightarrow> parse_value m r = parse_value n r" for r
    using V by fastforce
  from p show ?thesis
    by (auto simp: V' simp del: dropWhile_eq_Nil_conv
        split: list.splits if_splits sum.splits prod.splits option.splits intro: M)
qed

lemma parse_mono:
  "(parse_value n s = Some x \<longrightarrow> n \<le> m \<longrightarrow> parse_value m s = Some x) \<and>
   (parse_elems n acc s = Some x \<longrightarrow> n \<le> m \<longrightarrow> parse_elems m acc s = Some x) \<and>
   (parse_members n acc' s = Some x \<longrightarrow> n \<le> m \<longrightarrow> parse_members m acc' s = Some x)"
proof (induction n arbitrary: s acc acc' x m)
  case 0
  then show ?case by simp
next
  case (Suc n)
  show ?case
  proof (intro conjI impI)
    assume "Suc n \<le> m"
    then obtain m' where m: "m = Suc m'" and "n \<le> m'" by (cases m) auto
    with Suc.IH have V: "\<And>s x. parse_value n s = Some x \<Longrightarrow> parse_value m' s = Some x"
      and E: "\<And>acc s x. parse_elems n acc s = Some x \<Longrightarrow> parse_elems m' acc s = Some x"
      and M: "\<And>acc s x. parse_members n acc s = Some x \<Longrightarrow> parse_members m' acc s = Some x"
      by blast+
    {
      assume "parse_value (Suc n) s = Some x"
      then show "parse_value m s = Some x"
        unfolding m using parse_value_mono_step [of n m' s x] E M by blast
    next
      assume "parse_elems (Suc n) acc s = Some x"
      then show "parse_elems m acc s = Some x"
        unfolding m using parse_elems_mono_step [of n m' acc s x] V E by blast
    next
      assume "parse_members (Suc n) acc' s = Some x"
      then show "parse_members m acc' s = Some x"
        unfolding m using parse_members_mono_step [of n m' acc' s x] V M by blast
    }
  qed
qed

subsection \<open>Number lexemes: every output of Number::toString is one JSON number\<close>

lemma dec_string_head: "0 < s \<Longrightarrow> hd (dec_string s) \<noteq> CHR ''0''"
proof (induction s rule: dec_string.induct)
  case (1 n)
  show ?case
  proof (cases "n < 10")
    case True
    with "1.prems" show ?thesis
      by (subst dec_string.simps) (auto dest: arg_cong [where f = "of_char :: char \<Rightarrow> nat"])
  next
    case False
    then have "0 < n div 10" by simp
    with "1.IH" False have "hd (dec_string (n div 10)) \<noteq> CHR ''0''" by blast
    with False show ?thesis by (subst dec_string.simps) (simp add: dec_string_nonempty)
  qed
qed

lemma takeWhile_digits:
  "list_all is_digit ds \<Longrightarrow> digits_end r \<Longrightarrow> takeWhile is_digit (ds @ r) = ds"
  "list_all is_digit ds \<Longrightarrow> digits_end r \<Longrightarrow> dropWhile is_digit (ds @ r) = r"
  by (cases r; simp add: digits_end_def list_all_iff takeWhile_append2 dropWhile_append2)+

lemma lex_int_digits:
  assumes "ds \<noteq> []" "list_all is_digit ds" "hd ds \<noteq> CHR ''0''" "digits_end r"
  shows "lex_int (ds @ r) = Some (ds, r)"
  using assms takeWhile_digits [of "tl ds" r]
  by (cases ds) (auto simp: lex_int_def)

lemma lex_int_zero: "lex_int (CHR ''0'' # r) = Some (''0'', r)"
  by (simp add: lex_int_def digit_zero)

lemma lex_fraction_digits:
  assumes "fp \<noteq> []" "list_all is_digit fp" "digits_end r"
  shows "lex_fraction (CHR ''.'' # fp @ r) = Some (CHR ''.'' # fp, r)"
  using assms takeWhile_digits [of fp r] by (simp add: lex_fraction_def)

lemma lex_fraction_none: "r = [] \<or> hd r \<noteq> CHR ''.'' \<Longrightarrow> lex_fraction r = Some ([], r)"
  by (cases r) (auto simp: lex_fraction_def)

lemma lex_exponent_string:
  assumes "digits_end r"
  shows "lex_exponent (CHR ''e'' # exponent_string e @ r) = Some (CHR ''e'' # exponent_string e, r)"
  using assms takeWhile_digits [OF dec_string_digits, of r "nat \<bar>e\<bar>"] dec_string_nonempty
  by (simp add: lex_exponent_def exponent_string_def)

lemma lex_exponent_none:
  "r = [] \<or> (hd r \<noteq> CHR ''e'' \<and> hd r \<noteq> CHR ''E'') \<Longrightarrow> lex_exponent r = Some ([], r)"
  by (cases r) (auto simp: lex_exponent_def)

lemma lex_number_parts:
  assumes "lex_int s1 = Some (a, s2)" "lex_fraction s2 = Some (b, s3)" "lex_exponent s3 = Some (e, s4)"
  shows "lex_number s1 = Some (a @ b @ e, s4)"
    and "lex_number (CHR ''-'' # s1) = Some (CHR ''-'' # a @ b @ e, s4)"
proof -
  from assms(1) have "s1 \<noteq> [] \<and> hd s1 \<noteq> CHR ''-''"
    by (cases s1) (auto simp: lex_int_def is_radix_digit_def digit_of_def split: if_splits)
  with assms show "lex_number s1 = Some (a @ b @ e, s4)"
    and "lex_number (CHR ''-'' # s1) = Some (CHR ''-'' # a @ b @ e, s4)"
    by (auto simp: lex_number_def split: list.splits)
qed

lemma json_after_digits_end: "r = [] \<or> hd r \<in> set '',]}'' \<Longrightarrow> digits_end r"
  by (auto simp: digits_end_def is_radix_digit_def digit_of_def)

lemma lex_format_decimal:
  assumes ds: "ds \<noteq> []" "list_all is_digit ds" "hd ds \<noteq> CHR ''0''"
    and r: "r = [] \<or> hd r \<in> set '',]}''"
  shows "lex_number (format_decimal ds n @ r) = Some (format_decimal ds n, r)
         \<and> lex_number (CHR ''-'' # format_decimal ds n @ r) = Some (CHR ''-'' # format_decimal ds n, r)"
proof -
  have de: "digits_end r" using r by (rule json_after_digits_end)
  have fn: "lex_fraction r = Some ([], r)" and en: "lex_exponent r = Some ([], r)"
    using r by (auto intro: lex_fraction_none lex_exponent_none)
  have dot: "digits_end (CHR ''.'' # t)" and ee: "digits_end (CHR ''e'' # t)" for t
    by (simp_all add: digits_end_def not_digit_chars)
  let ?k = "int (length ds)"
  have parts: "\<exists>a s2 b s3 e. lex_int (format_decimal ds n @ r) = Some (a, s2) \<and>
      lex_fraction s2 = Some (b, s3) \<and> lex_exponent s3 = Some (e, r) \<and> format_decimal ds n = a @ b @ e"
  proof -
    consider (i) "?k \<le> n \<and> n \<le> 21" | (f) "\<not> (?k \<le> n \<and> n \<le> 21)" "0 < n \<and> n \<le> 21"
      | (z) "\<not> (0 < n \<and> n \<le> 21)" "-6 < n \<and> n \<le> 0"
      | (e1) "\<not> (?k \<le> n \<and> n \<le> 21)" "\<not> (0 < n \<and> n \<le> 21)" "\<not> (-6 < n \<and> n \<le> 0)" "?k = 1"
      | (e2) "\<not> (?k \<le> n \<and> n \<le> 21)" "\<not> (0 < n \<and> n \<le> 21)" "\<not> (-6 < n \<and> n \<le> 0)" "?k \<noteq> 1"
      by linarith
    then show ?thesis
    proof cases
      case i
      define a where "a = ds @ replicate (nat (n - ?k)) (CHR ''0'')"
      have fd: "format_decimal ds n = a" using i by (simp add: format_decimal_def a_def)
      have "lex_int (a @ r) = Some (a, r)"
        using ds de by (intro lex_int_digits) (auto simp: a_def digit_zero list_all_iff)
      with fd fn en show ?thesis by auto
    next
      case f
      define m where "m = nat n"
      have m: "0 < m" "m < length ds" using f by (auto simp: m_def)
      have fd: "format_decimal ds n = take m ds @ CHR ''.'' # drop m ds"
        using f by (simp add: format_decimal_def m_def)
      have "lex_int (take m ds @ CHR ''.'' # drop m ds @ r) = Some (take m ds, CHR ''.'' # drop m ds @ r)"
        using ds m dot by (intro lex_int_digits) (auto simp: list_all_iff dest: in_set_takeD)
      moreover have "lex_fraction (CHR ''.'' # drop m ds @ r) = Some (CHR ''.'' # drop m ds, r)"
        using ds m de by (intro lex_fraction_digits) (auto simp: list_all_iff dest: in_set_dropD)
      ultimately show ?thesis using fd en by fastforce
    next
      case z
      define fp where "fp = replicate (nat (- n)) (CHR ''0'') @ ds"
      have "\<not> ?k \<le> n" using z ds by (cases ds) auto
      then have fd: "format_decimal ds n = CHR ''0'' # CHR ''.'' # fp"
        using z by (simp add: format_decimal_def fp_def)
      have "lex_fraction (CHR ''.'' # fp @ r) = Some (CHR ''.'' # fp, r)"
        using ds de by (intro lex_fraction_digits) (auto simp: fp_def digit_zero list_all_iff)
      then show ?thesis using fd en lex_int_zero [of "CHR ''.'' # fp @ r"] by fastforce
    next
      case e1
      have "21 < n \<or> n \<le> -6" using e1 by linarith
      then have fd: "format_decimal ds n = ds @ CHR ''e'' # exponent_string (n - 1)"
        using e1(4) by (auto simp: format_decimal_def)
      have "lex_int (ds @ CHR ''e'' # exponent_string (n - 1) @ r) =
              Some (ds, CHR ''e'' # exponent_string (n - 1) @ r)"
        using ds ee by (intro lex_int_digits) auto
      moreover have "lex_fraction (CHR ''e'' # exponent_string (n - 1) @ r) =
                       Some ([], CHR ''e'' # exponent_string (n - 1) @ r)"
        by (rule lex_fraction_none) simp
      ultimately show ?thesis using fd lex_exponent_string [OF de, of "n - 1"] by fastforce
    next
      case e2
      then have l: "1 < length ds" using ds by (cases ds) auto
      have "21 < n \<or> n \<le> -6" using e2 by linarith
      then have fd: "format_decimal ds n = take 1 ds @ CHR ''.'' # drop 1 ds @ CHR ''e'' # exponent_string (n - 1)"
        using e2(4) l by (auto simp: format_decimal_def)
      have "lex_int (take 1 ds @ CHR ''.'' # drop 1 ds @ CHR ''e'' # exponent_string (n - 1) @ r) =
              Some (take 1 ds, CHR ''.'' # drop 1 ds @ CHR ''e'' # exponent_string (n - 1) @ r)"
        using ds l dot by (intro lex_int_digits) (auto simp: list_all_iff dest: in_set_takeD)
      moreover have "lex_fraction (CHR ''.'' # drop 1 ds @ CHR ''e'' # exponent_string (n - 1) @ r) =
                       Some (CHR ''.'' # drop 1 ds, CHR ''e'' # exponent_string (n - 1) @ r)"
        using ds l ee by (intro lex_fraction_digits) (auto simp: list_all_iff dest: in_set_dropD)
      ultimately show ?thesis using fd lex_exponent_string [OF de, of "n - 1"] by fastforce
    qed
  qed
  then show ?thesis using lex_number_parts by fastforce
qed

lemma format_positive_form:
  assumes "0 < x" and "real_of_int \<lfloor>x * 10 ^ decimal_fuel\<rfloor> = x * 10 ^ decimal_fuel"
  shows "\<exists>ds n. format_positive x = format_decimal ds n \<and> ds \<noteq> [] \<and> list_all is_digit ds \<and>
           hd ds \<noteq> CHR ''0''"
proof -
  obtain s n where p: "decimal_parts x = (s, n)" by fastforce
  have "x = scale10 s (n - int (length (dec_string s)))"
    using decimal_parts_value [OF assms(1) order_refl assms(2) p] .
  with assms(1) have "0 < s" by (cases s) (simp_all add: scale10_def split: if_splits)
  then show ?thesis
    using p dec_string_nonempty dec_string_digits dec_string_head by (auto simp: format_positive_def)
qed

lemma lex_num_to_string:
  assumes x: "real_of_int \<lfloor>x * 10 ^ decimal_fuel\<rfloor> = x * 10 ^ decimal_fuel"
    and r: "r = [] \<or> hd r \<in> set '',]}''"
  shows "lex_number (num_to_string (Fin x) @ r) = Some (num_to_string (Fin x), r)"
proof -
  consider (z) "x = 0" | (p) "0 < x" | (n) "x < 0" by linarith
  then show ?thesis
  proof cases
    case z
    have "lex_fraction r = Some ([], r)" and "lex_exponent r = Some ([], r)"
      using r by (auto intro: lex_fraction_none lex_exponent_none)
    with z show ?thesis using lex_number_parts(1) [OF lex_int_zero] by simp
  next
    case p
    with format_positive_form [OF p x] lex_format_decimal [OF _ _ _ r] show ?thesis by fastforce
  next
    case n
    have "- x * 10 ^ decimal_fuel = real_of_int (- \<lfloor>x * 10 ^ decimal_fuel\<rfloor>)"
      by (simp only: of_int_minus x mult_minus_left)
    then have x': "real_of_int \<lfloor>- x * 10 ^ decimal_fuel\<rfloor> = - x * 10 ^ decimal_fuel"
      by (simp only: floor_of_int)
    from n have "0 < - x" by simp
    with n format_positive_form [OF this x'] lex_format_decimal [OF _ _ _ r] show ?thesis by fastforce
  qed
qed

subsection \<open>String literals: QuoteJSONString read back\<close>

lemma hex_value_hex_lower: "d < 16 \<Longrightarrow> hex_value (hex_lower d) = Some d"
  by (auto simp: hex_value_def hex_lower_def digit_of_def Let_def)

lemma eq_char_of: "n < 256 \<Longrightarrow> c = char_of n \<longleftrightarrow> (of_char c :: nat) = n"
  by (metis char_of_char of_char_of mod_less)

lemma parse_chars_escape:
  "parse_chars (json_escape c @ r) =
     (case parse_chars r of Inl e \<Rightarrow> Inl e | Inr (t, r') \<Rightarrow> Inr (c # t, r'))"
proof -
  define n where "n = (of_char c :: nat)"
  have c: "c = char_of n" and n: "n < 256" by (simp_all add: n_def)
  consider (short) "n \<in> {8, 9, 10, 12, 13, 34, 92}" | (ctl) "n \<notin> {8, 9, 10, 12, 13, 34, 92}" "n < 32"
    | (plain) "n \<notin> {8, 9, 10, 12, 13, 34, 92}" "\<not> n < 32" by blast
  then show ?thesis
  proof cases
    case short
    then show ?thesis unfolding c
      by (auto simp: json_escape_def json_unescape_def err_bind_def eq_char_of split: sum.splits)
  next
    case ctl
    have "json_escape c = [CHR 0x5C, CHR ''u'', CHR ''0'', CHR ''0'', hex_lower (n div 16), hex_lower (n mod 16)]"
      using ctl by (simp add: json_escape_def n_def [symmetric])
    moreover have "hex_value (CHR ''0'') = Some 0" by (simp add: hex_value_def digit_of_def)
    moreover have "n div 16 < 16" "n mod 16 < (16::nat)" using ctl by simp_all
    moreover have "((0 * 16 + 0) * 16 + n div 16) * 16 + n mod 16 = n" by simp
    ultimately show ?thesis using ctl n c
      by (simp add: json_unescape_def hex_value_hex_lower err_bind_def split: sum.splits)
  next
    case plain
    then have "json_escape c = [c]" by (simp add: json_escape_def n_def [symmetric] Let_def)
    moreover have "c \<noteq> CHR 0x22" "c \<noteq> CHR 0x5C" using plain by (auto simp: n_def)
    ultimately show ?thesis using plain by (simp add: n_def err_bind_def split: sum.splits)
  qed
qed

lemma parse_chars_quoted: "parse_chars (concat (map json_escape s) @ CHR 0x22 # r) = Inr (s, r)"
  by (induction s) (simp_all add: parse_chars_escape)

subsection \<open>Serialised values parsed back\<close>

lemma json_after_simps [simp]:
  "json_after []" "json_after (CHR '','' # r)" "json_after (CHR '']'' # r)" "json_after (CHR ''}'' # r)"
  by (simp_all add: json_after_def)

lemma dropWhile_token: "token_start t \<Longrightarrow> dropWhile json_ws (t @ r) = t @ r"
  by (cases t) (simp_all add: token_start_def)

lemma stringify_None_iff: "json_stringify v = None \<longleftrightarrow> v = JUndef"
  by (cases v) simp_all

lemma num_to_string_token: "token_start (num_to_string (Fin x))"
proof -
  have "format_decimal (dec_string s) n \<noteq> [] \<and> is_digit (hd (format_decimal (dec_string s) n))" for s n
    by (rule format_decimal_head [OF dec_string_nonempty dec_string_digits])
  then have "format_positive y \<noteq> [] \<and> is_digit (hd (format_positive y))" for y
    by (simp add: format_positive_def split: prod.splits)
  moreover have "is_digit c \<Longrightarrow> \<not> json_ws c \<and> c \<notin> set '',]}''" for c
    by (auto simp: json_ws_def is_radix_digit_def digit_of_def)
  ultimately show ?thesis
    by (auto simp: token_start_def json_ws_def)
qed

lemma stringify_token: "json_stringify v = Some t \<Longrightarrow> token_start t"
proof (cases v)
  case (JNum n)
  moreover assume "json_stringify v = Some t"
  ultimately show ?thesis
    using num_to_string_token by (cases n) (auto simp: token_start_def json_ws_def)
qed (auto simp: token_start_def json_ws_def json_quote_def split: if_splits)

lemma parse_value_mono: "parse_value n s = Some x \<Longrightarrow> n \<le> m \<Longrightarrow> parse_value m s = Some x"
  and parse_elems_mono: "parse_elems n acc s = Some x \<Longrightarrow> n \<le> m \<Longrightarrow> parse_elems m acc s = Some x"
  and parse_members_mono: "parse_members n acc' s = Some x \<Longrightarrow> n \<le> m \<Longrightarrow> parse_members m acc' s = Some x"
  using parse_mono by blast+

lemma json_ws_delims [simp]:
  "\<not> json_ws (CHR '','')" "\<not> json_ws (CHR '']'')" "\<not> json_ws (CHR ''}'')" "\<not> json_ws (CHR '':'')"
  "\<not> json_ws (CHR ''['')" "\<not> json_ws (CHR ''{'')" "\<not> json_ws (CHR 0x22)"
  by (simp_all add: json_ws_def)

lemma parse_elems_step:
  assumes "parse_value n (t @ d # rest) = Some (Inr (v, d # rest))" and "\<not> json_ws d"
  shows "parse_elems (Suc n) acc (t @ d # rest) =
           (if d = CHR '','' then parse_elems n (acc @ [v]) rest
            else if d = CHR '']'' then Some (Inr (JArr (acc @ [v]), rest)) else Some (Inl JsonSyntax))"
  using assms by simp

lemma parse_members_step:
  assumes "parse_value n (t @ d # rest) = Some (Inr (v, d # rest))" and "\<not> json_ws d"
  shows "parse_members (Suc n) acc (json_quote k @ CHR '':'' # t @ d # rest) =
           (if d = CHR '','' then parse_members n (acc @ [(k, v)]) rest
            else if d = CHR ''}'' then Some (Inr (JObj (acc @ [(k, v)]), rest)) else Some (Inl JsonSyntax))"
proof -
  have "parse_chars (concat (map json_escape k) @ CHR 0x22 # CHR '':'' # t @ d # rest) =
          Inr (k, CHR '':'' # t @ d # rest)"
    by (rule parse_chars_quoted)
  with assms show ?thesis by (simp add: json_quote_def)
qed

lemma parse_elems_join:
  assumes "\<forall>(t, v) \<in> set ps. \<forall>r. json_after r \<longrightarrow> (\<exists>n. parse_value n (t @ r) = Some (Inr (v, r)))"
    and "ps \<noteq> []"
  shows "\<exists>n. parse_elems n acc (join_strings '','' (map fst ps) @ CHR '']'' # r) =
               Some (Inr (JArr (acc @ map snd ps), r))"
  using assms
proof (induction ps arbitrary: acc rule: induct_list012)
  case 1
  then show ?case by simp
next
  case (2 p)
  obtain t v where p: "p = (t, v)" by fastforce
  have "\<forall>r. json_after r \<longrightarrow> (\<exists>n. parse_value n (t @ r) = Some (Inr (v, r)))"
    using "2.prems"(1) p by simp
  then obtain n where h: "parse_value n (t @ CHR '']'' # r) = Some (Inr (v, CHR '']'' # r))"
    using json_after_simps(3) by blast
  have "parse_elems (Suc n) acc (t @ CHR '']'' # r) = Some (Inr (JArr (acc @ [v]), r))"
    by (simp only: parse_elems_step [OF h json_ws_delims(2)]) simp
  with p show ?case by (auto simp del: parse_elems.simps)
next
  case (3 p q ps)
  obtain t v where p: "p = (t, v)" by fastforce
  let ?rest = "join_strings '','' (map fst (q # ps)) @ CHR '']'' # r"
  have hp: "\<forall>r. json_after r \<longrightarrow> (\<exists>n. parse_value n (t @ r) = Some (Inr (v, r)))"
    using "3.prems"(1) p by simp
  then obtain n1 where n1: "parse_value n1 (t @ CHR '','' # ?rest) = Some (Inr (v, CHR '','' # ?rest))"
    using json_after_simps(2) by blast
  have hq: "\<forall>(t, v) \<in> set (q # ps). \<forall>r. json_after r \<longrightarrow> (\<exists>n. parse_value n (t @ r) = Some (Inr (v, r)))"
    using "3.prems"(1) by simp
  obtain n2 where
    n2: "parse_elems n2 (acc @ [v]) ?rest = Some (Inr (JArr ((acc @ [v]) @ map snd (q # ps)), r))"
    using "3.IH"(2) [of "acc @ [v]", OF hq list.simps(3)] by (auto simp del: parse_elems.simps)
  let ?N = "max n1 n2"
  have "parse_value ?N (t @ CHR '','' # ?rest) = Some (Inr (v, CHR '','' # ?rest))"
    using parse_value_mono [OF n1, of ?N] by simp
  moreover have "parse_elems ?N (acc @ [v]) ?rest = Some (Inr (JArr ((acc @ [v]) @ map snd (q # ps)), r))"
    using parse_elems_mono [OF n2, of ?N] by simp
  ultimately have "parse_elems (Suc ?N) acc (t @ CHR '','' # ?rest) =
                     Some (Inr (JArr ((acc @ [v]) @ map snd (q # ps)), r))"
    by (simp only: parse_elems_step [OF _ json_ws_delims(1)]) simp
  then show ?case using p by (intro exI [of _ "Suc ?N"]) (simp del: parse_elems.simps)
qed

lemma parse_members_join:
  assumes "\<forall>(k, t, v) \<in> set ps. \<forall>r. json_after r \<longrightarrow> (\<exists>n. parse_value n (t @ r) = Some (Inr (v, r)))"
    and "ps \<noteq> []"
  shows "\<exists>n. parse_members n acc
               (join_strings '','' (map (\<lambda>(k, t, v). json_quote k @ CHR '':'' # t) ps) @ CHR ''}'' # r) =
             Some (Inr (JObj (acc @ map (\<lambda>(k, t, v). (k, v)) ps), r))"
  using assms
proof (induction ps arbitrary: acc rule: induct_list012)
  case 1
  then show ?case by simp
next
  case (2 p)
  obtain k t v where p: "p = (k, t, v)" by (cases p) auto
  have "\<forall>r. json_after r \<longrightarrow> (\<exists>n. parse_value n (t @ r) = Some (Inr (v, r)))"
    using "2.prems"(1) p by simp
  then obtain n where h: "parse_value n (t @ CHR ''}'' # r) = Some (Inr (v, CHR ''}'' # r))"
    using json_after_simps(4) by blast
  have "parse_members (Suc n) acc (json_quote k @ CHR '':'' # t @ CHR ''}'' # r) =
          Some (Inr (JObj (acc @ [(k, v)]), r))"
    by (simp only: parse_members_step [OF h json_ws_delims(3)]) simp
  with p show ?case by (auto simp del: parse_members.simps)
next
  case (3 p q ps)
  obtain k t v where p: "p = (k, t, v)" by (cases p) auto
  let ?rest = "join_strings '','' (map (\<lambda>(k, t, v). json_quote k @ CHR '':'' # t) (q # ps)) @ CHR ''}'' # r"
  have hp: "\<forall>r. json_after r \<longrightarrow> (\<exists>n. parse_value n (t @ r) = Some (Inr (v, r)))"
    using "3.prems"(1) p by simp
  then obtain n1 where n1: "parse_value n1 (t @ CHR '','' # ?rest) = Some (Inr (v, CHR '','' # ?rest))"
    using json_after_simps(2) by blast
  have hq: "\<forall>(k, t, v) \<in> set (q # ps). \<forall>r. json_after r \<longrightarrow> (\<exists>n. parse_value n (t @ r) = Some (Inr (v, r)))"
    using "3.prems"(1) by simp
  obtain n2 where
    n2: "parse_members n2 (acc @ [(k, v)]) ?rest =
           Some (Inr (JObj ((acc @ [(k, v)]) @ map (\<lambda>(k, t, v). (k, v)) (q # ps)), r))"
    using "3.IH"(2) [of "acc @ [(k, v)]", OF hq list.simps(3)] by (auto simp del: parse_members.simps)
  let ?N = "max n1 n2"
  have "parse_value ?N (t @ CHR '','' # ?rest) = Some (Inr (v, CHR '','' # ?rest))"
    using parse_value_mono [OF n1, of ?N] by simp
  moreover have "parse_members ?N (acc @ [(k, v)]) ?rest =
                   Some (Inr (JObj ((acc @ [(k, v)]) @ map (\<lambda>(k, t, v). (k, v)) (q # ps)), r))"
    using parse_members_mono [OF n2, of ?N] by simp
  ultimately have "parse_members (Suc ?N) acc (json_quote k @ CHR '':'' # t @ CHR '','' # ?rest) =
                     Some (Inr (JObj ((acc @ [(k, v)]) @ map (\<lambda>(k, t, v). (k, v)) (q # ps)), r))"
    by (simp only: parse_members_step [OF _ json_ws_delims(1)]) simp
  then show ?case using p by (intro exI [of _ "Suc ?N"]) (simp del: parse_members.simps)
qed

lemma parse_literals:
  "parse_value (Suc n) (''null'' @ r) = Some (Inr (JNull, r))"
  "parse_value (Suc n) (''true'' @ r) = Some (Inr (JBool True, r))"
  "parse_value (Suc n) (''false'' @ r) = Some (Inr (JBool False, r))"
  by (simp_all add: lex_literal_def json_ws_def)

lemma parse_quoted: "parse_value (Suc n) (json_quote s @ r) = Some (Inr (JStr s, r))"
  using parse_chars_quoted [of s r] by (simp add: json_quote_def)

lemma num_to_string_head: "hd (num_to_string (Fin x)) = CHR ''-'' \<or> is_digit (hd (num_to_string (Fin x)))"
proof -
  have "is_digit (hd (format_decimal (dec_string s) n))" for s n
    using format_decimal_head [OF dec_string_nonempty dec_string_digits] by blast
  then show ?thesis by (auto simp: format_positive_def digit_zero split: prod.splits)
qed

lemma parse_number:
  assumes "decimal_real x" and "json_after r"
  shows "parse_value (Suc n) (num_to_string (Fin x) @ r) = Some (Inr (JNum (Fin x), r))"
proof -
  let ?t = "num_to_string (Fin x)"
  have tok: "token_start ?t" by (rule num_to_string_token)
  then obtain c t' where t: "?t = c # t'" by (cases ?t) (auto simp: token_start_def)
  have c: "c = CHR ''-'' \<or> is_digit c" using num_to_string_head [of x] t by simp
  then have nc: "c \<noteq> CHR ''['' \<and> c \<noteq> CHR ''{'' \<and> c \<noteq> CHR 0x22 \<and> c \<noteq> CHR ''t'' \<and> c \<noteq> CHR ''f'' \<and> c \<noteq> CHR ''n''"
    by (auto simp: is_radix_digit_def digit_of_def)
  then have "lex_literal (c # t' @ r) = None" by (simp add: lex_literal_def)
  moreover have "lex_number (?t @ r) = Some (?t, r)"
    using assms by (intro lex_num_to_string) (simp_all add: decimal_real_def json_after_def)
  moreover have "str_to_number ?t = Fin x"
    using assms(1) by (intro str_to_number_num_to_string [OF order_refl]) (simp add: decimal_real_def)
  moreover have "dropWhile json_ws (?t @ r) = ?t @ r" using tok by (rule dropWhile_token)
  ultimately show ?thesis using t nc by (simp del: num_to_string.simps)
qed

lemma parse_value_array:
  "token_start J \<Longrightarrow> parse_value (Suc n) (CHR ''['' # J @ CHR '']'' # r) = parse_elems n [] (J @ CHR '']'' # r)"
  by (cases J) (auto simp: token_start_def simp del: parse_elems.simps)

lemma parse_value_object:
  "token_start M \<Longrightarrow> parse_value (Suc n) (CHR ''{'' # M @ CHR ''}'' # r) = parse_members n [] (M @ CHR ''}'' # r)"
  by (cases M) (auto simp: token_start_def simp del: parse_members.simps)

lemma token_start_join: "token_start t \<Longrightarrow> token_start (join_strings sep (t # ts))"
  by (cases ts) (auto simp: token_start_def)

lemma own_entries_in_set: "(k, v) \<in> set (own_entries kvs) \<Longrightarrow> v \<noteq> JUndef \<Longrightarrow> (k, v) \<in> set kvs"
  by (auto simp: own_entries_def intro: lookup_last_Some_in_set split: option.splits)

lemma members_text:
  "concat (map (\<lambda>(k, v). case json_stringify v of Some t \<Rightarrow> [json_quote k @ CHR '':'' # t] | None \<Rightarrow> []) es) =
   map (\<lambda>(k, t, v). json_quote k @ CHR '':'' # t)
     (map (\<lambda>(k, v). (k, the (json_stringify v), json_normal v)) (filter (\<lambda>(k, v). v \<noteq> JUndef) es))"
  by (induction es) (auto simp: stringify_None_iff split: option.splits)

lemma parse_stringify:
  "list_all decimal_real (json_numbers v) \<Longrightarrow> json_stringify v = Some t \<Longrightarrow> json_after r \<Longrightarrow>
   \<exists>n. parse_value n (t @ r) = Some (Inr (json_normal v, r))"
proof (induction v arbitrary: t r rule: json_normal.induct)
  case 1
  then show ?case by simp
next
  case 2
  then show ?case using parse_literals(1) [of 0 r] by (intro exI [of _ 1]) (simp del: parse_value.simps)
next
  case (3 b)
  then show ?case using parse_literals(2,3) [of 0 r]
    by (cases b; intro exI [of _ 1]; simp del: parse_value.simps)
next
  case (4 m)
  then show ?case
  proof (cases m)
    case (Fin x)
    with 4 show ?thesis using parse_number [of x r 0]
      by (intro exI [of _ 1]) (simp del: parse_value.simps num_to_string.simps)
  qed (use 4 parse_literals(1) [of 0 r] in \<open>intro exI [of _ 1], simp del: parse_value.simps\<close>)+
next
  case (5 s)
  then show ?case using parse_quoted [of 0 s r] by (intro exI [of _ 1]) (simp del: parse_value.simps)
next
  case (6 xs)
  define ps where "ps = map (\<lambda>x. (case json_stringify x of Some t \<Rightarrow> t | None \<Rightarrow> ''null'',
                                   if x = JUndef then JNull else json_normal x)) xs"
  have t: "t = CHR ''['' # join_strings '','' (map fst ps) @ '']''" and nv: "json_normal (JArr xs) = JArr (map snd ps)"
    using "6.prems"(2) by (simp_all add: ps_def comp_def)
  show ?case
  proof (cases "xs = []")
    case True
    with t nv show ?thesis by (auto simp: ps_def intro: exI [of _ 1])
  next
    case False
    have each: "\<forall>(t, v) \<in> set ps. \<forall>r. json_after r \<longrightarrow> (\<exists>n. parse_value n (t @ r) = Some (Inr (v, r)))"
    proof -
      have "\<exists>n. parse_value n ((case json_stringify x of Some t \<Rightarrow> t | None \<Rightarrow> ''null'') @ r) =
                Some (Inr (if x = JUndef then JNull else json_normal x, r))"
        if x: "x \<in> set xs" and r: "json_after r" for x r
      proof (cases "x = JUndef")
        case True
        then show ?thesis using parse_literals(1) [of 0 r] by (intro exI [of _ 1]) (simp del: parse_value.simps)
      next
        case False
        then obtain t' where t': "json_stringify x = Some t'" by (cases x) auto
        have "list_all decimal_real (json_numbers x)" using "6.prems"(1) x by (simp add: list_all_iff)
        with "6.IH" [OF x False _ t' r] t' False show ?thesis by simp
      qed
      then show ?thesis by (auto simp: ps_def simp del: parse_value.simps)
    qed
    have tok: "token_start (join_strings '','' (map fst ps))"
    proof -
      obtain x xs' where xs: "xs = x # xs'" using False by (cases xs) auto
      have "token_start (case json_stringify x of Some t \<Rightarrow> t | None \<Rightarrow> ''null'')"
        using stringify_token by (auto simp: token_start_def json_ws_def split: option.splits)
      then show ?thesis by (simp add: ps_def xs token_start_join)
    qed
    have ne: "ps \<noteq> []" using False by (simp add: ps_def)
    obtain n where
      "parse_elems n [] (join_strings '','' (map fst ps) @ CHR '']'' # r) = Some (Inr (JArr (map snd ps), r))"
      using parse_elems_join [OF each ne, of "[]" r] by auto
    with parse_value_array [OF tok, of n r] t nv show ?thesis
      by (intro exI [of _ "Suc n"]) (simp del: parse_elems.simps parse_value.simps)
  qed
next
  case (7 kvs)
  define es where "es = filter (\<lambda>(k, v). v \<noteq> JUndef) (own_entries kvs)"
  define ps where "ps = map (\<lambda>(k, v). (k, the (json_stringify v), json_normal v)) es"
  have t: "t = CHR ''{'' # join_strings '','' (map (\<lambda>(k, t, v). json_quote k @ CHR '':'' # t) ps) @ ''}''"
    using "7.prems"(2) by (simp add: ps_def es_def members_text)
  have nv: "json_normal (JObj kvs) = JObj (map (\<lambda>(k, t, v). (k, v)) ps)"
    by (simp add: ps_def es_def comp_def case_prod_beta)
  show ?case
  proof (cases "es = []")
    case True
    with t nv show ?thesis by (auto simp: ps_def intro: exI [of _ 1])
  next
    case False
    have each: "\<forall>(k, t, v) \<in> set ps. \<forall>r. json_after r \<longrightarrow> (\<exists>n. parse_value n (t @ r) = Some (Inr (v, r)))"
    proof -
      have "\<exists>n. parse_value n (the (json_stringify v) @ r) = Some (Inr (json_normal v, r))"
        if kv: "(k, v) \<in> set (own_entries kvs)" and v: "v \<noteq> JUndef" and r: "json_after r" for k v r
      proof -
        obtain t' where t': "json_stringify v = Some t'" using v by (cases v) auto
        have "(k, v) \<in> set kvs" using own_entries_in_set [OF kv v] .
        then have "list_all decimal_real (json_numbers v)" using "7.prems"(1) by (auto simp: list_all_iff)
        with "7.IH" [of "(k, v)" k v, OF _ refl _ t' r] kv v t' show ?thesis by (simp add: es_def)
      qed
      then show ?thesis by (auto simp: ps_def es_def simp del: parse_value.simps)
    qed
    have tok: "token_start (join_strings '','' (map (\<lambda>(k, t, v). json_quote k @ CHR '':'' # t) ps))"
    proof -
      obtain k v es' where es: "es = (k, v) # es'" using False by (cases es) auto
      have "token_start (json_quote k @ CHR '':'' # the (json_stringify v))"
        by (simp add: token_start_def json_quote_def json_ws_def)
      then show ?thesis using token_start_join by (simp add: ps_def es)
    qed
    have ne: "ps \<noteq> []" using False by (simp add: ps_def)
    obtain n where
      "parse_members n [] (join_strings '','' (map (\<lambda>(k, t, v). json_quote k @ CHR '':'' # t) ps) @ CHR ''}'' # r)
         = Some (Inr (JObj (map (\<lambda>(k, t, v). (k, v)) ps), r))"
      using parse_members_join [OF each ne, of "[]" r] by auto
    with parse_value_object [OF tok, of n r] t nv show ?thesis
      by (intro exI [of _ "Suc n"]) (simp del: parse_members.simps parse_value.simps)
  qed
qed

lemma parse_value_enough:
  assumes "parse_value n s = Some x"
  shows "parse_value (2 * length s + 1) s = Some x"
proof -
  have "parse_value (2 * length s + 1) s \<noteq> None" using parse_total [of s "2 * length s + 1"] by simp
  then obtain y where y: "parse_value (2 * length s + 1) s = Some y" by blast
  have "parse_value (max n (2 * length s + 1)) s = Some x" using parse_value_mono [OF assms] by simp
  moreover have "parse_value (max n (2 * length s + 1)) s = Some y" using parse_value_mono [OF y] by simp
  ultimately show ?thesis using y by simp
qed

lemma json_parse_stringify:
  assumes "list_all decimal_real (json_numbers v)" and "json_stringify v = Some t"
  shows "json_parse t = Inr (json_normal v)"
proof -
  from parse_stringify [OF assms, of "[]"] obtain n where
    "parse_value n t = Some (Inr (json_normal v, []))" by (auto simp: json_after_def)
  then have "parse_value (2 * length t + 1) t = Some (Inr (json_normal v, []))"
    by (rule parse_value_enough)
  then show ?thesis by (simp add: json_parse_def)
qed



end
