(* ===== verification/HttpPipeline.thy ===== *)
theory HttpPipeline
  imports FareFlow JsonText
begin

text \<open>
  The Express application of \<^verbatim>\<open>src/server.js\<close> around the handlers: the middleware
  registered on lines 12, 13 and 39 (\<^verbatim>\<open>cors()\<close>, \<^verbatim>\<open>express.json()\<close>,
  \<^verbatim>\<open>express.static\<close> on the \<^verbatim>\<open>public\<close> directory), the routes of lines 42, 53 and 90, the
  final 404 handler, and the writing of each handler's \<^verbatim>\<open>res.json\<close> / \<^verbatim>\<open>res.send\<close> as an
  HTTP response.  The repository does not pin the Express version; the two major
  versions differ in what \<^verbatim>\<open>req.body\<close> is when the body parser left it alone
  (\<^verbatim>\<open>{}\<close> in Express 4, \<^verbatim>\<open>undefined\<close> in Express 5) and in what a rejected handler
  promise does (nothing catches it in Express 4, and Node ends the process on an
  unhandled rejection; Express 5 passes it to the final handler, a 500 page).  The
  major version is a parameter of the model.
\<close>

section \<open>Requests and responses\<close>

datatype express_major = Express4 | Express5

text \<open>
  A request as Node's HTTP parser delivers it: method, URL (path and query), header
  fields with lower-case names, and the body text.
\<close>

record http_request =
  req_method :: string
  req_url :: string
  req_headers :: "(string \<times> string) list"
  req_body :: string

text \<open>
  What a response carries: JSON text from \<^verbatim>\<open>res.json\<close>, HTML text from
  \<^verbatim>\<open>res.send\<close> of a string, a file of \<^verbatim>\<open>public\<close>, the HTML error page of Express's
  final handler for a status (its text depends on \<^verbatim>\<open>NODE_ENV\<close>), or nothing.
\<close>

datatype http_body = SendJson string | SendHtml string | SendFile string | ErrorPage nat | NoBody

record http_response =
  res_status :: nat
  res_headers :: "(string \<times> string) list"
  res_body :: http_body

text \<open>A request ends with a response, or the process ends on an unhandled rejection.\<close>

datatype served = Answered http_response | ProcessCrash js_error

definition header :: "http_request \<Rightarrow> string \<Rightarrow> string option" where
  "header rq n = map_of (req_headers rq) n"

text \<open>\<^verbatim>\<open>req.path\<close>: the URL up to its query string.\<close>

definition url_path :: "string \<Rightarrow> string" where
  "url_path u = takeWhile (\<lambda>c. c \<noteq> CHR ''?'') u"

definition lower_char :: "char \<Rightarrow> char" where
  "lower_char c = (let n = (of_char c :: nat) in if 65 \<le> n \<and> n \<le> 90 then char_of (n + 32) else c)"

definition lower :: "string \<Rightarrow> string" where
  "lower s = map lower_char s"

text \<open>
  Headers every response gets before any route runs: \<^verbatim>\<open>X-Powered-By\<close> from Express's
  own initialisation, \<^verbatim>\<open>Access-Control-Allow-Origin: *\<close> from \<^verbatim>\<open>cors()\<close> (line 12).
\<close>

definition base_headers :: "(string \<times> string) list" where
  "base_headers = [(''X-Powered-By'', ''Express''), (''Access-Control-Allow-Origin'', ''*'')]"

section \<open>cors() (line 12)\<close>

text \<open>
  With the default options a preflight request (method \<^verbatim>\<open>OPTIONS\<close>) is answered at
  once with 204 and an empty body, allowing the default methods and reflecting the
  headers the request asks for; every other request goes on with the origin header set.
\<close>

definition cors_preflight :: "http_request \<Rightarrow> http_response" where
  "cors_preflight rq =
     \<lparr>res_status = 204,
      res_headers = base_headers @ [(''Access-Control-Allow-Methods'', ''GET,HEAD,PUT,PATCH,POST,DELETE''),
                                    (''Vary'', ''Access-Control-Request-Headers'')] @
                    (case header rq ''access-control-request-headers'' of
                       Some h \<Rightarrow> if h = [] then [] else [(''Access-Control-Allow-Headers'', h)]
                     | None \<Rightarrow> []) @ [(''Content-Length'', ''0'')],
      res_body = NoBody\<rparr>"

section \<open>express.json() (line 13)\<close>

text \<open>
  The body parser reads a body only if the request has one (a \<^verbatim>\<open>Transfer-Encoding\<close> or
  \<^verbatim>\<open>Content-Length\<close> header) and its media type is \<^verbatim>\<open>application/json\<close>; it refuses
  a charset other than UTF-n (415) and a body over its 100kb limit (413), and parses in
  strict mode: the empty body is \<^verbatim>\<open>{}\<close>, and a text whose first non-blank character is
  not \<^verbatim>\<open>{\<close> or \<^verbatim>\<open>[\<close> is a syntax error (400), as is anything \<^verbatim>\<open>JSON.parse\<close> rejects.
\<close>

definition has_body :: "http_request \<Rightarrow> bool" where
  "has_body rq \<longleftrightarrow> header rq ''transfer-encoding'' \<noteq> None \<or> header rq ''content-length'' \<noteq> None"

definition trim_ows :: "string \<Rightarrow> string" where
  "trim_ows s = rev (dropWhile (\<lambda>c. c = CHR '' '' \<or> c = CHR 0x09) (rev (dropWhile (\<lambda>c. c = CHR '' '' \<or> c = CHR 0x09) s)))"

text \<open>The \<^verbatim>\<open>;\<close>-separated parts of a header value.\<close>

function split_semi :: "string \<Rightarrow> string list" where
  "split_semi s =
     (case dropWhile (\<lambda>c. c \<noteq> CHR '';'') s of
        [] \<Rightarrow> [s]
      | c # r \<Rightarrow> takeWhile (\<lambda>c. c \<noteq> CHR '';'') s # split_semi r)"
  by pat_completeness auto

termination
  by (relation "measure length") (auto dest: dropWhile_Cons_shorter)

definition media_type :: "string \<Rightarrow> string" where
  "media_type ct = lower (trim_ows (hd (split_semi ct)))"

definition charset_param :: "string \<Rightarrow> string option" where
  "charset_param ct =
     (case filter (\<lambda>p. lower (trim_ows (takeWhile (\<lambda>c. c \<noteq> CHR ''='') p)) = ''charset'') (tl (split_semi ct)) of
        [] \<Rightarrow> None
      | p # ps \<Rightarrow>
          Some (lower (filter (\<lambda>c. c \<noteq> CHR 0x22) (trim_ows (drop 1 (dropWhile (\<lambda>c. c \<noteq> CHR ''='') p))))))"

text \<open>The length of the body in UTF-8 bytes: one for ASCII, two for the rest of Latin-1.\<close>

definition utf8_length :: "string \<Rightarrow> nat" where
  "utf8_length s = sum_list (map (\<lambda>c. if (of_char c :: nat) < 128 then 1 else 2) s)"

definition body_limit :: nat where
  "body_limit = 102400"

definition first_char :: "string \<Rightarrow> char option" where
  "first_char s = (case dropWhile json_ws s of [] \<Rightarrow> None | c # r \<Rightarrow> Some c)"

definition strict_parse :: "string \<Rightarrow> json_error + jsval" where
  "strict_parse s =
     (if s = [] then Inr (JObj [])
      else if first_char s \<noteq> Some (CHR ''{'') \<and> first_char s \<noteq> Some (CHR ''['') then Inl JsonSyntax
      else json_parse s)"

text \<open>\<^verbatim>\<open>req.body\<close> after the parser, or the status of the error it passes on.\<close>

definition json_body :: "express_major \<Rightarrow> http_request \<Rightarrow> nat + jsval" where
  "json_body ver rq =
     (let unparsed = (case ver of Express4 \<Rightarrow> JObj [] | Express5 \<Rightarrow> JUndef) in
      if \<not> has_body rq then Inr unparsed
      else case header rq ''content-type'' of
             None \<Rightarrow> Inr unparsed
           | Some ct \<Rightarrow>
               if media_type ct \<noteq> ''application/json'' then Inr unparsed
               else if (case charset_param ct of None \<Rightarrow> False | Some c \<Rightarrow> take 4 c \<noteq> ''utf-'') then Inl 415
               else if body_limit < utf8_length (req_body rq) then Inl 413
               else (case strict_parse (req_body rq) of Inl e \<Rightarrow> Inl 400 | Inr v \<Rightarrow> Inr v))"

section \<open>express.static (line 39)\<close>

text \<open>
  \<^verbatim>\<open>public\<close> is not in the repository: its files are an input, as paths from the
  directory (\<^verbatim>\<open>/index.html\<close>).  For \<^verbatim>\<open>GET\<close> and \<^verbatim>\<open>HEAD\<close> a path naming a file is
  served, a path ending in \<^verbatim>\<open>/\<close> serves that directory's \<^verbatim>\<open>index.html\<close>, a directory
  named without the slash is redirected to it (301); a path with a segment starting
  with a dot is ignored; anything else falls through to the routes.
\<close>

definition is_dir :: "string list \<Rightarrow> string \<Rightarrow> bool" where
  "is_dir files p \<longleftrightarrow> list_ex (\<lambda>f. take (Suc (length p)) f = p @ ''/'') files"

definition dot_segment :: "string \<Rightarrow> bool" where
  "dot_segment p \<longleftrightarrow> (\<exists>i < length p. p ! i = CHR ''.'' \<and> 0 < i \<and> p ! (i - 1) = CHR ''/'')"

definition file_response :: "http_request \<Rightarrow> string \<Rightarrow> http_response" where
  "file_response rq f =
     \<lparr>res_status = 200, res_headers = base_headers,
      res_body = (if req_method rq = ''HEAD'' then NoBody else SendFile f)\<rparr>"

definition static_lookup :: "string list \<Rightarrow> http_request \<Rightarrow> http_response option" where
  "static_lookup files rq =
     (let p = url_path (req_url rq) in
      if req_method rq \<notin> {''GET'', ''HEAD''} \<or> dot_segment p then None
      else if p \<in> set files then Some (file_response rq p)
      else if p \<noteq> [] \<and> last p = CHR ''/'' \<and> p @ ''index.html'' \<in> set files
      then Some (file_response rq (p @ ''index.html''))
      else if (p = [] \<or> last p \<noteq> CHR ''/'') \<and> is_dir files p
      then Some \<lparr>res_status = 301, res_headers = base_headers @ [(''Location'', p @ ''/'')], res_body = NoBody\<rparr>
      else None)"

section \<open>Routes (lines 42, 53 and 90) and the final 404\<close>

text \<open>
  A route path matches case-insensitively, with an optional trailing slash
  (the regular expression \<^verbatim>\<open>^\/api\/tickets\/?$\<close> with flag \<^verbatim>\<open>i\<close>); a \<^verbatim>\<open>GET\<close> route
  also answers \<^verbatim>\<open>HEAD\<close>.
\<close>

definition route_matches :: "string \<Rightarrow> string \<Rightarrow> bool" where
  "route_matches route p \<longleftrightarrow>
     (let r = (if route \<noteq> [] \<and> last route = CHR ''/'' then butlast route else route)
      in lower p = lower r \<or> lower p = lower r @ ''/'')"

definition is_get :: "http_request \<Rightarrow> bool" where
  "is_get rq \<longleftrightarrow> req_method rq = ''GET'' \<or> req_method rq = ''HEAD''"

text \<open>The handler a request reaches, with what it answers and the store afterwards.\<close>

definition route_request ::
  "http_request \<Rightarrow> jsval \<Rightarrow> fetch_outcome \<Rightarrow> db_outcome \<Rightarrow> store \<Rightarrow> (outcome \<times> store) option" where
  "route_request rq b rr dr st =
     (let p = url_path (req_url rq) in
      if is_get rq \<and> route_matches ''/api/tickets'' p then Some (get_api_tickets dr st, st)
      else if req_method rq = ''POST'' \<and> route_matches ''/api/tickets'' p
      then Some (fst (post_api_tickets b rr dr st), fst (snd (post_api_tickets b rr dr st)))
      else if is_get rq \<and> route_matches ''/'' p then Some (get_root, st)
      else None)"

section \<open>Writing the response\<close>

text \<open>
  What \<^verbatim>\<open>res.json\<close> serialises for each payload.  A Mongoose document serialises
  through its \<^verbatim>\<open>toJSON\<close>: \<^verbatim>\<open>_id\<close> first (an ObjectId, shown as its hexadecimal
  string; \<open>oid\<close> gives the one the database assigned to each identifier), the paths in
  the order \<^verbatim>\<open>new Ticket\<close> set them, then the version key \<^verbatim>\<open>__v\<close> (0 for a new
  document); an unset path has no member.
\<close>

definition doc_json :: "(nat \<Rightarrow> string) \<Rightarrow> stored_ticket \<Rightarrow> jsval" where
  "doc_json oid d =
     JObj [(''_id'', JStr (oid (ticket_id d))), (''passenger_id'', passenger_id d),
           (''start_lat'', start_lat d), (''start_lng'', start_lng d), (''end_lat'', end_lat d),
           (''end_lng'', end_lng d), (''distance_km'', JNum (distance_km d)), (''fare'', JNum (fare d)),
           (''__v'', JNum (Fin 0))]"

fun payload_json :: "(nat \<Rightarrow> string) \<Rightarrow> payload \<Rightarrow> jsval" where
  "payload_json oid (ErrorBody m) = JObj [(''error'', JStr m)]"
| "payload_json oid (TicketBody d) = doc_json oid d"
| "payload_json oid (ListBody ds t) = JObj [(''tickets'', JArr (map (doc_json oid) ds)), (''totalFare'', JNum t)]"
| "payload_json oid (TextBody s) = JStr s"

definition error_page :: "nat \<Rightarrow> http_response" where
  "error_page s = \<lparr>res_status = s, res_headers = base_headers, res_body = ErrorPage s\<rparr>"

text \<open>
  A handler's response: \<^verbatim>\<open>res.send\<close> of text (line 90) is HTML, every other payload is
  JSON; a \<^verbatim>\<open>HEAD\<close> response has no body.  A rejected handler promise ends the process
  under Express 4 and is a 500 page under Express 5.
\<close>

definition render :: "express_major \<Rightarrow> (nat \<Rightarrow> string) \<Rightarrow> http_request \<Rightarrow> outcome \<Rightarrow> served" where
  "render ver oid rq out =
     (case out of
        Respond r \<Rightarrow>
          Answered \<lparr>res_status = status r, res_headers = base_headers,
                    res_body = (if req_method rq = ''HEAD'' then NoBody
                                else case body r of
                                       TextBody s \<Rightarrow> SendHtml s
                                     | p \<Rightarrow> SendJson (case json_stringify (payload_json oid p) of
                                                        Some t \<Rightarrow> t | None \<Rightarrow> []))\<rparr>
      | Unhandled e \<Rightarrow> (case ver of Express4 \<Rightarrow> ProcessCrash e | Express5 \<Rightarrow> Answered (error_page 500)))"

section \<open>The application\<close>

text \<open>
  One request through the stack in registration order: \<^verbatim>\<open>cors()\<close>, \<^verbatim>\<open>express.json()\<close>,
  \<^verbatim>\<open>express.static\<close>, the routes, the 404 of the final handler.  The routing service
  answers \<open>rr\<close> and the database \<open>dr\<close>, as for the handlers.
\<close>

definition express_app ::
  "express_major \<Rightarrow> string list \<Rightarrow> (nat \<Rightarrow> string) \<Rightarrow> http_request \<Rightarrow> fetch_outcome \<Rightarrow> db_outcome \<Rightarrow>
   store \<Rightarrow> served \<times> store" where
  "express_app ver files oid rq rr dr st =
     (if req_method rq = ''OPTIONS'' then (Answered (cors_preflight rq), st)
      else case json_body ver rq of
        Inl s \<Rightarrow> (Answered (error_page s), st)
      | Inr b \<Rightarrow>
          (case static_lookup files rq of
             Some r \<Rightarrow> (Answered r, st)
           | None \<Rightarrow>
               (case route_request rq b rr dr st of
                  None \<Rightarrow> (Answered (error_page 404), st)
                | Some (out, st') \<Rightarrow> (render ver oid rq out, st'))))"


section \<open>Lemmas\<close>

subsection \<open>What the body parser can leave in req.body\<close>

text \<open>
  The strict parser only ever returns an array or an object: the parser of elements
  ends with an array, the parser of members with an object.
\<close>

lemma parse_elems_JArr: "parse_elems n acc s = Some (Inr (v, r)) \<Longrightarrow> \<exists>xs. v = JArr xs"
  and parse_members_JObj: "parse_members n acc' s' = Some (Inr (v', r')) \<Longrightarrow> \<exists>kvs. v' = JObj kvs"
proof (induction n arbitrary: acc s v r acc' s' v' r')
  case 0 { case 1 thus ?case by simp next case 2 thus ?case by simp }
next
  case (Suc n)
  { case 1 thus ?case using Suc.IH(1)
      by (auto split: option.splits sum.splits prod.splits list.splits if_splits simp del: parse_value.simps)
  next
    case 2 thus ?case using Suc.IH(2)
      by (auto split: option.splits sum.splits prod.splits list.splits if_splits simp del: parse_value.simps parse_chars.simps)
  }
qed

lemma strict_parse_shape:
  "strict_parse s = Inr v \<Longrightarrow> (\<exists>kvs. v = JObj kvs) \<or> (\<exists>xs. v = JArr xs)"
proof -
  assume p: "strict_parse s = Inr v"
  show ?thesis
  proof (cases "s = []")
    case True with p show ?thesis by (auto simp: strict_parse_def)
  next
    case False
    with p obtain c r0 where d: "dropWhile json_ws s = c # r0" and c: "c = CHR ''{'' \<or> c = CHR ''[''"
      and j: "json_parse s = Inr v"
      by (auto simp: strict_parse_def first_char_def split: list.splits if_splits)
    from j obtain r where "parse_value (Suc (2 * length s)) s = Some (Inr (v, r))"
      by (auto simp: json_parse_def split: option.splits sum.splits prod.splits if_splits)
    with d c show ?thesis
      using parse_elems_JArr parse_members_JObj
      by (auto split: option.splits sum.splits prod.splits list.splits if_splits simp del: parse_elems.simps parse_members.simps)
  qed
qed

lemma json_body_Express4_shape:
  "json_body Express4 rq = Inr b \<Longrightarrow> (\<exists>kvs. b = JObj kvs) \<or> (\<exists>xs. b = JArr xs)"
  by (auto simp: json_body_def Let_def dest: strict_parse_shape split: option.splits if_splits sum.splits)

lemma destructure_trip_container:
  "(\<exists>kvs. b = JObj kvs) \<or> (\<exists>xs. b = JArr xs) \<Longrightarrow> \<exists>f. destructure_trip b = Inr f"
  by (auto simp: destructure_trip_def)

lemma post_api_tickets_answers:
  "destructure_trip b = Inr f \<Longrightarrow> fst (post_api_tickets b rr dr st) \<noteq> Unhandled e"
  by (auto simp: post_api_tickets_def post_begin_def resp_def post_on_route_def post_on_save_def fail_500_def
      split: phase.splits prod.splits sum.splits bool.splits)

lemma route_request_responds:
  assumes "(\<exists>kvs. b = JObj kvs) \<or> (\<exists>xs. b = JArr xs)" and "route_request rq b rr dr st = Some (out, st')"
  shows "\<exists>x. out = Respond x"
proof -
  obtain f where "destructure_trip b = Inr f"
    using assms(1) destructure_trip_container by blast
  with assms(2) show ?thesis
    using post_api_tickets_answers [of b f rr dr st]
    by (cases out) (auto simp: route_request_def Let_def get_api_tickets_def get_root_def resp_def
        split: if_splits sum.splits)
qed

text \<open>
  C23 (safety under Express 4).  With Express 4 no request ends the process: the body
  parser leaves \<^verbatim>\<open>{}\<close> or a parsed object or array in \<^verbatim>\<open>req.body\<close>, never
  \<^verbatim>\<open>undefined\<close> or \<^verbatim>\<open>null\<close>, so line 54 cannot throw and the unhandled rejection
  of C15 is unreachable through the application.
\<close>

theorem express4_no_crash: "fst (express_app Express4 files oid rq rr dr st) \<noteq> ProcessCrash e"
proof (cases "req_method rq = ''OPTIONS''")
  case False
  then show ?thesis
  proof (cases "json_body Express4 rq")
    case (Inr b)
    then have "route_request rq b rr dr st = Some (out, st') \<Longrightarrow> render Express4 oid rq out \<noteq> ProcessCrash e"
      for out st'
      using json_body_Express4_shape route_request_responds by (fastforce simp: render_def)
    with False Inr show ?thesis
      by (simp add: express_app_def split: option.split)
  qed (simp add: express_app_def)
qed (simp add: express_app_def)

subsection \<open>A JSON POST through the stack\<close>

lemma first_char_stringify_obj:
  "json_stringify (JObj kvs) = Some t \<Longrightarrow> t \<noteq> [] \<and> first_char t = Some (CHR ''{'')"
  by (auto simp: first_char_def json_ws_def)

lemma json_body_parsed:
  assumes "has_body rq" and "header rq ''content-type'' = Some ct"
    and "media_type ct = ''application/json''" and "charset_param ct = None"
    and "utf8_length (req_body rq) \<le> body_limit"
  shows "json_body ver rq = (case strict_parse (req_body rq) of Inl e \<Rightarrow> Inl 400 | Inr v \<Rightarrow> Inr v)"
  using assms by (simp add: json_body_def Let_def)

lemma json_body_stringified:
  assumes "has_body rq" and "header rq ''content-type'' = Some ct"
    and "media_type ct = ''application/json''" and "charset_param ct = None"
    and "utf8_length (req_body rq) \<le> body_limit"
    and t: "json_stringify (JObj kvs) = Some (req_body rq)"
    and d: "list_all decimal_real (json_numbers (JObj kvs))"
  shows "json_body ver rq = Inr (json_normal (JObj kvs))"
  using json_body_parsed [OF assms(1-5)] first_char_stringify_obj [OF t] json_parse_stringify [OF d t]
  by (simp add: strict_parse_def)

lemma static_lookup_not_get: "\<not> is_get rq \<Longrightarrow> static_lookup files rq = None"
  by (simp add: static_lookup_def is_get_def Let_def)

lemma route_request_post:
  assumes "req_method rq = ''POST''" and "route_matches ''/api/tickets'' (url_path (req_url rq))"
  shows "route_request rq b rr dr st =
           Some (fst (post_api_tickets b rr dr st), fst (snd (post_api_tickets b rr dr st)))"
  using assms by (simp add: route_request_def is_get_def)

lemma express_app_post:
  assumes "req_method rq = ''POST''" and "route_matches ''/api/tickets'' (url_path (req_url rq))"
    and "json_body ver rq = Inr b"
  shows "express_app ver files oid rq rr dr st =
           (render ver oid rq (fst (post_api_tickets b rr dr st)), fst (snd (post_api_tickets b rr dr st)))"
  using assms route_request_post [OF assms(1,2)] static_lookup_not_get [of rq files]
  by (simp add: express_app_def is_get_def)

text \<open>
  C11 (composition of the middleware and the handler, spec 6).  A \<^verbatim>\<open>POST\<close> to
  \<^verbatim>\<open>/api/tickets\<close> (in any case, with or without a trailing slash) whose body is the
  \<^verbatim>\<open>JSON.stringify\<close> text of an object, sent as \<^verbatim>\<open>application/json\<close> within the
  100kb limit, reaches the handler of lines 53--87 with \<^verbatim>\<open>req.body\<close> the parsed object
  (its normal form): the application answers what the handler answers, written by
  \<^verbatim>\<open>res.json\<close>, and the store is the handler's store.  Static files are never
  consulted for a \<^verbatim>\<open>POST\<close>.
\<close>

theorem app_post_json:
  assumes "req_method rq = ''POST''" and "route_matches ''/api/tickets'' (url_path (req_url rq))"
    and "has_body rq" and "header rq ''content-type'' = Some ct"
    and "media_type ct = ''application/json''" and "charset_param ct = None"
    and "utf8_length (req_body rq) \<le> body_limit"
    and "json_stringify (JObj kvs) = Some (req_body rq)"
    and "list_all decimal_real (json_numbers (JObj kvs))"
  shows "express_app ver files oid rq rr dr st =
           (render ver oid rq (fst (post_api_tickets (json_normal (JObj kvs)) rr dr st)),
            fst (snd (post_api_tickets (json_normal (JObj kvs)) rr dr st)))"
  by (rule express_app_post [OF assms(1,2) json_body_stringified [OF assms(3-9)]])

theorem app_post_json_witness:
  "express_app Express5 [] (\<lambda>i. ''0'')
     \<lparr>req_method = ''POST'', req_url = ''/api/tickets'',
      req_headers = [(''content-type'', ''application/json''), (''content-length'', ''76'')],
      req_body = ''{\"passenger_id\":\"P1\",\"start_lat\":7,\"start_lng\":80,\"end_lat\":8,\"end_lng\":81}''\<rparr>
     (JsonBody (ors_response (JNum (Fin 2000)))) DbOk empty_store =
   (render Express5 (\<lambda>i. ''0'')
     \<lparr>req_method = ''POST'', req_url = ''/api/tickets'',
      req_headers = [(''content-type'', ''application/json''), (''content-length'', ''76'')],
      req_body = ''{\"passenger_id\":\"P1\",\"start_lat\":7,\"start_lng\":80,\"end_lat\":8,\"end_lng\":81}''\<rparr>
     (fst (post_api_tickets (json_normal (JObj [(''passenger_id'', JStr ''P1''), (''start_lat'', JNum (Fin 7)),
        (''start_lng'', JNum (Fin 80)), (''end_lat'', JNum (Fin 8)), (''end_lng'', JNum (Fin 81))]))
        (JsonBody (ors_response (JNum (Fin 2000)))) DbOk empty_store)),
    fst (snd (post_api_tickets (json_normal (JObj [(''passenger_id'', JStr ''P1''), (''start_lat'', JNum (Fin 7)),
        (''start_lng'', JNum (Fin 80)), (''end_lat'', JNum (Fin 8)), (''end_lng'', JNum (Fin 81))]))
        (JsonBody (ors_response (JNum (Fin 2000)))) DbOk empty_store)))"
proof (rule app_post_json [where ct = "''application/json''"])
  show "route_matches ''/api/tickets'' (url_path (req_url
     \<lparr>req_method = ''POST'', req_url = ''/api/tickets'',
      req_headers = [(''content-type'', ''application/json''), (''content-length'', ''76'')],
      req_body = ''{\"passenger_id\":\"P1\",\"start_lat\":7,\"start_lng\":80,\"end_lat\":8,\"end_lng\":81}''\<rparr>))"
    by code_simp
  show "media_type ''application/json'' = ''application/json''" by code_simp
  show "charset_param ''application/json'' = None" by code_simp
  show "list_all decimal_real (json_numbers (JObj [(''passenger_id'', JStr ''P1''), (''start_lat'', JNum (Fin 7)),
        (''start_lng'', JNum (Fin 80)), (''end_lat'', JNum (Fin 8)), (''end_lng'', JNum (Fin 81))]))"
    using decimal_real_int [of 7] decimal_real_int [of 80] decimal_real_int [of 8] decimal_real_int [of 81]
    by simp
qed (code_simp | simp add: has_body_def header_def)+


subsection \<open>Requests the body parser leaves alone\<close>

lemma json_body_unparsed:
  "map_option media_type (header rq ''content-type'') \<noteq> Some ''application/json'' \<Longrightarrow>
   json_body ver rq = Inr (case ver of Express4 \<Rightarrow> JObj [] | Express5 \<Rightarrow> JUndef)"
  by (auto simp: json_body_def Let_def split: option.split)

lemma post_api_tickets_undefined:
  "post_api_tickets JUndef rr dr st = (Unhandled (ReadOfUndefined (KName ''passenger_id'')), st, [])"
  by (simp add: post_api_tickets_def post_begin_def destructure_trip_def)

text \<open>
  C24 (error path, spec 7 and 8).  Under Express 5 a \<^verbatim>\<open>POST /api/tickets\<close> without a
  body, or with a body of another media type, leaves \<^verbatim>\<open>req.body\<close> undefined; the
  destructuring of line 54 throws outside the \<^verbatim>\<open>try\<close>, and Express 5 answers its
  HTML 500 page instead of the 400 JSON error of line 57.  The store is unchanged.
\<close>

theorem express5_post_unparsed:
  assumes "req_method rq = ''POST''" and "route_matches ''/api/tickets'' (url_path (req_url rq))"
    and "\<not> has_body rq \<or> map_option media_type (header rq ''content-type'') \<noteq> Some ''application/json''"
  shows "express_app Express5 files oid rq rr dr st = (Answered (error_page 500), st)"
proof -
  have "json_body Express5 rq = Inr JUndef"
  proof (cases "has_body rq")
    case True
    with assms(3) json_body_unparsed [of rq Express5] show ?thesis by simp
  qed (simp add: json_body_def)
  then show ?thesis
    by (simp add: express_app_post [OF assms(1,2)] post_api_tickets_undefined render_def)
qed

theorem express5_post_unparsed_witness:
  "express_app Express5 [] (\<lambda>i. ''0'')
     \<lparr>req_method = ''POST'', req_url = ''/api/tickets'', req_headers = [], req_body = []\<rparr>
     (NetworkFailure ''down'') DbOk empty_store = (Answered (error_page 500), empty_store)"
  by (rule express5_post_unparsed) (code_simp | simp add: has_body_def header_def)+

subsection \<open>The store through the stack\<close>

lemma express_app_store:
  "snd (express_app ver files oid rq rr dr st) = st \<or>
   (req_method rq = ''POST'' \<and> route_matches ''/api/tickets'' (url_path (req_url rq)) \<and>
    (\<exists>b. snd (express_app ver files oid rq rr dr st) = fst (snd (post_api_tickets b rr dr st))))"
proof (cases "req_method rq = ''POST'' \<and> route_matches ''/api/tickets'' (url_path (req_url rq))")
  case True
  show ?thesis
  proof (cases "json_body ver rq")
    case (Inr b)
    with True show ?thesis by (auto simp: express_app_post)
  qed (simp add: express_app_def)
next
  case False
  then have "route_request rq b rr dr st = Some (out, st') \<Longrightarrow> st' = st"
    for b out st'
    by (auto simp: route_request_def Let_def split: if_splits)
  then show ?thesis
    by (auto simp: express_app_def split: sum.splits option.splits prod.splits)
qed

text \<open>
  C25 (store invariant through the whole stack).  Serving any request keeps the store's
  invariant (distinct identifiers, \<open>fare = distance_km * 50\<close>, schema types), and
  only a \<^verbatim>\<open>POST\<close> to the tickets route can change the store: preflights, parser
  errors, static files, \<^verbatim>\<open>GET\<close>s and 404s leave it as it was.
\<close>

theorem app_store_inv:
  assumes "store_inv st"
  shows "store_inv (snd (express_app ver files oid rq rr dr st)) \<and>
         (snd (express_app ver files oid rq rr dr st) \<noteq> st \<longrightarrow>
            req_method rq = ''POST'' \<and> route_matches ''/api/tickets'' (url_path (req_url rq)))"
  using express_app_store [of ver files oid rq rr dr st] assms post_preserves_inv [OF assms, of _ rr dr]
  by (metis prod.collapse)


theorem app_store_inv_witness:
  "store_inv (snd (express_app Express4 [] (\<lambda>i. ''0'')
     \<lparr>req_method = ''GET'', req_url = ''/api/tickets'', req_headers = [], req_body = []\<rparr>
     (NetworkFailure ''down'') DbOk empty_store))"
  using app_store_inv [OF store_inv_empty, of Express4 "[]" "\<lambda>i. ''0''"
      "\<lparr>req_method = ''GET'', req_url = ''/api/tickets'', req_headers = [], req_body = []\<rparr>"
      "NetworkFailure ''down''" DbOk]
  by (rule conjunct1)

lemma dot_segment_root: "\<not> dot_segment ''/''"
  by (simp add: dot_segment_def)

text \<open>
  C26 (order of the middleware, lines 39 and 90).  \<^verbatim>\<open>express.static\<close> is
  registered before the routes: when \<^verbatim>\<open>public\<close> holds an \<^verbatim>\<open>index.html\<close>, a
  \<^verbatim>\<open>GET /\<close> is answered with that file and the liveness route of line 90 is never
  reached.
\<close>

theorem app_index_shadows_root:
  assumes "req_method rq = ''GET''" and "url_path (req_url rq) = ''/''" and "\<not> has_body rq"
    and "''/index.html'' \<in> set files" and "''/'' \<notin> set files"
  shows "express_app ver files oid rq rr dr st = (Answered (file_response rq ''/index.html''), st)"
  using assms dot_segment_root
  by (simp add: express_app_def json_body_def static_lookup_def Let_def)

theorem app_index_shadows_root_witness:
  "express_app Express4 [''/index.html''] (\<lambda>i. ''0'')
     \<lparr>req_method = ''GET'', req_url = ''/'', req_headers = [], req_body = []\<rparr>
     (NetworkFailure ''down'') DbOk empty_store =
   (Answered \<lparr>res_status = 200, res_headers = base_headers, res_body = SendFile ''/index.html''\<rparr>, empty_store)"
  using app_index_shadows_root [of "\<lparr>req_method = ''GET'', req_url = ''/'', req_headers = [], req_body = []\<rparr>"
      "[''/index.html'']" Express4 "\<lambda>i. ''0''" "NetworkFailure ''down''" DbOk empty_store]
  by (simp add: url_path_def has_body_def header_def file_response_def)

lemma json_body_parsed_shape:
  assumes "has_body rq" and "map_option media_type (header rq ''content-type'') = Some ''application/json''"
  shows "json_body Express4 rq = json_body Express5 rq \<and>
         (\<forall>b. json_body ver rq = Inr b \<longrightarrow> (\<exists>kvs. b = JObj kvs) \<or> (\<exists>xs. b = JArr xs))"
  using assms strict_parse_shape
  by (auto simp: json_body_def Let_def split: option.splits sum.splits)

lemma render_versions: "(\<exists>r. out = Respond r) \<Longrightarrow> render Express4 oid rq out = render Express5 oid rq out"
  by (auto simp: render_def)

text \<open>
  C27 (equivalence of the two Express versions).  On every request that carries a JSON
  body the application serves it identically under Express 4 and Express 5, the store
  included: the versions differ only on requests the body parser leaves alone (C24).
\<close>

theorem express_versions_agree:
  assumes "has_body rq" and "map_option media_type (header rq ''content-type'') = Some ''application/json''"
  shows "express_app Express4 files oid rq rr dr st = express_app Express5 files oid rq rr dr st"
proof (cases "req_method rq = ''OPTIONS''")
  case False
  note shape = json_body_parsed_shape [OF assms]
  show ?thesis
  proof (cases "json_body Express5 rq")
    case (Inr b)
    then have "route_request rq b rr dr st = Some (out, st') \<Longrightarrow>
               render Express4 oid rq out = render Express5 oid rq out" for out st'
      using shape route_request_responds render_versions by blast
    with False shape Inr show ?thesis
      by (simp add: express_app_def split: option.split)
  qed (use False shape in \<open>simp add: express_app_def\<close>)
qed (simp add: express_app_def)

theorem express_versions_agree_witness:
  "express_app Express4 [] (\<lambda>i. ''0'')
     \<lparr>req_method = ''POST'', req_url = ''/api/tickets'',
      req_headers = [(''content-type'', ''application/json''), (''content-length'', ''2'')], req_body = ''{}''\<rparr>
     (NetworkFailure ''down'') DbOk empty_store =
   express_app Express5 [] (\<lambda>i. ''0'')
     \<lparr>req_method = ''POST'', req_url = ''/api/tickets'',
      req_headers = [(''content-type'', ''application/json''), (''content-length'', ''2'')], req_body = ''{}''\<rparr>
     (NetworkFailure ''down'') DbOk empty_store"
proof (rule express_versions_agree)
  show "map_option media_type (header \<lparr>req_method = ''POST'', req_url = ''/api/tickets'',
      req_headers = [(''content-type'', ''application/json''), (''content-length'', ''2'')], req_body = ''{}''\<rparr>
      ''content-type'') = Some ''application/json''"
    by code_simp
qed (simp add: has_body_def header_def)

end
