(* ===== verification/Startup.thy ===== *)
theory Startup
  imports Dotenv HttpPipeline "HOL-Library.Word"
begin

text \<open>
  The top level of \<^verbatim>\<open>src/server.js\<close>, run once when the process starts, in order:
  \<^verbatim>\<open>dotenv.config()\<close> (line 9, theory \<open>Dotenv\<close>), \<^verbatim>\<open>mongoose.connect\<close> with its
  two log lines (lines 16--21), and \<^verbatim>\<open>app.listen(PORT)\<close> with
  \<^verbatim>\<open>PORT = process.env.PORT || 5000\<close> (lines 92--93); and the environment reads of
  the handlers and of \<^verbatim>\<open>src/testORS.js\<close>.  The environment the process starts with,
  the text of \<^verbatim>\<open>.env\<close> and whether the database answers are inputs.
\<close>

section \<open>The environment\<close>

text \<open>\<^verbatim>\<open>process.env.X\<close>: a string, or \<^verbatim>\<open>undefined\<close> when the variable is not set.\<close>

definition env_value :: "env \<Rightarrow> string \<Rightarrow> jsval" where
  "env_value env k = (case env k of None \<Rightarrow> JUndef | Some s \<Rightarrow> JStr s)"

text \<open>
  The \<^verbatim>\<open>Authorization\<close> header of the routing request, line 64
  (\<^verbatim>\<open>headers: { Authorization: process.env.ORS_API_KEY }\<close>): node-fetch turns each
  header value into a string with \<^verbatim>\<open>String(value)\<close>, so an unset key is sent as the
  text \<^verbatim>\<open>undefined\<close>.
\<close>

definition ors_authorization :: "env \<Rightarrow> string" where
  "ors_authorization env = (case env_value env ''ORS_API_KEY'' of JStr s \<Rightarrow> s | _ \<Rightarrow> ''undefined'')"

text \<open>
  \<^verbatim>\<open>src/testORS.js\<close>, lines 2--5 and 11: its own \<^verbatim>\<open>dotenv.config()\<close>, then the header
  value of its request.
\<close>

definition testORS_authorization :: "env \<Rightarrow> string option \<Rightarrow> string" where
  "testORS_authorization env0 file = ors_authorization (dotenv_config env0 file)"

section \<open>app.listen(PORT) (lines 92--93)\<close>

text \<open>Line 92: \<^verbatim>\<open>process.env.PORT || 5000\<close>, the string when it is not empty.\<close>

definition port_setting :: "env \<Rightarrow> jsval" where
  "port_setting env = (let p = env_value env ''PORT'' in if truthy p then p else JNum (Fin 5000))"

text \<open>
  \<^verbatim>\<open>x >>> 0\<close> (\<^verbatim>\<open>ToUint32\<close>): \<open>NaN\<close> and the infinities give 0, a finite number is
  truncated towards zero and taken modulo \<open>2^32\<close>.
\<close>

definition to_uint32 :: "num \<Rightarrow> 32 word" where
  "to_uint32 x = (case x of Fin r \<Rightarrow> word_of_int (if 0 \<le> r then \<lfloor>r\<rfloor> else - \<lfloor>- r\<rfloor>) | _ \<Rightarrow> 0)"

text \<open>\<^verbatim>\<open>x >= 0\<close> on a number.\<close>

definition num_nonneg :: "num \<Rightarrow> bool" where
  "num_nonneg x = (case x of Fin r \<Rightarrow> 0 \<le> r | NaN \<Rightarrow> False | Infty b \<Rightarrow> b)"

text \<open>
  Node's \<^verbatim>\<open>isPipeName(s)\<close> in \<^verbatim>\<open>net.Server.listen\<close>: a string is the path of a
  pipe (a Unix domain socket) when \<^verbatim>\<open>Number(s) >= 0\<close> fails.
\<close>

definition is_pipe_name :: "string \<Rightarrow> bool" where
  "is_pipe_name s \<longleftrightarrow> \<not> num_nonneg (str_to_number s)"

text \<open>
  Node's \<^verbatim>\<open>validatePort\<close>: the port is refused (\<^verbatim>\<open>ERR_SOCKET_BAD_PORT\<close>) when it is
  a blank string, when \<^verbatim>\<open>+port !== (+port >>> 0)\<close>, or when \<^verbatim>\<open>port > 0xFFFF\<close>;
  otherwise it is \<^verbatim>\<open>port | 0\<close>, a 16-bit port.
\<close>

definition validate_port :: "jsval \<Rightarrow> 16 word option" where
  "validate_port p =
     (let x = (case p of JStr s \<Rightarrow> str_to_number s | JNum n \<Rightarrow> n | _ \<Rightarrow> NaN);
          w = to_uint32 x in
      if (case p of JStr s \<Rightarrow> trim_ws s = [] | JNum n \<Rightarrow> False | _ \<Rightarrow> True) then None
      else if x \<noteq> Fin (real (unat w)) then None
      else if 65535 < unat w then None
      else Some (ucast w))"

text \<open>Where the server listens, or the port \<^verbatim>\<open>validatePort\<close> throws on.\<close>

datatype listen_target = ListenPort "16 word" | ListenPipe string | BadPort jsval

text \<open>
  Line 93, \<^verbatim>\<open>app.listen(PORT, ...)\<close>: Express passes its arguments to
  \<^verbatim>\<open>server.listen\<close>, whose \<^verbatim>\<open>normalizeArgs\<close> reads a number as a port and a string
  as a pipe path or a port.
\<close>

definition app_listen :: "jsval \<Rightarrow> listen_target" where
  "app_listen p =
     (case p of
        JStr s \<Rightarrow> if is_pipe_name s then ListenPipe s
                 else (case validate_port p of Some n \<Rightarrow> ListenPort n | None \<Rightarrow> BadPort p)
      | _ \<Rightarrow> (case validate_port p of Some n \<Rightarrow> ListenPort n | None \<Rightarrow> BadPort p))"

section \<open>mongoose.connect (lines 16--21)\<close>

text \<open>
  What the database server does with the connection attempt: it accepts it, or the
  attempt fails with a message (server selection timing out, authentication,
  a malformed URI string).
\<close>

datatype conn_outcome = ServerAccepts | ServerRefuses string

datatype db_conn = Connected | ConnectFailed string

text \<open>
  Mongoose rejects a URI that is not a string (here: \<^verbatim>\<open>MONGO_URI\<close> unset) before any
  network traffic, with this message.
\<close>

definition uri_error_msg :: string where
  "uri_error_msg =
     ''The `uri` parameter to `openUri()` must be a string, got \"undefined\". '' @
     ''Make sure the first parameter to `mongoose.connect()` or `mongoose.createConnection()` is a string.''"

text \<open>Lines 16--19: the connection the models use once the promise settles.\<close>

definition mongoose_connect :: "env \<Rightarrow> conn_outcome \<Rightarrow> db_conn" where
  "mongoose_connect env co =
     (case env_value env ''MONGO_URI'' of
        JStr u \<Rightarrow> (case co of ServerAccepts \<Rightarrow> Connected | ServerRefuses m \<Rightarrow> ConnectFailed m)
      | _ \<Rightarrow> ConnectFailed uri_error_msg)"

text \<open>Lines 20--21: the \<^verbatim>\<open>then\<close> and \<^verbatim>\<open>catch\<close> log lines (the emoji are left out).\<close>

datatype startup_log = LogConnected | LogDbError string

definition connect_log :: "db_conn \<Rightarrow> startup_log" where
  "connect_log c = (case c of Connected \<Rightarrow> LogConnected | ConnectFailed m \<Rightarrow> LogDbError m)"

text \<open>
  Line 34: the model \<^verbatim>\<open>Ticket\<close> stores its documents in the collection named by
  Mongoose's pluralisation of the model name.
\<close>

definition ticket_collection :: string where
  "ticket_collection = ''tickets''"

text \<open>
  With the connection failed, Mongoose keeps each operation of the model in a buffer
  (\<^verbatim>\<open>bufferCommands\<close>) and rejects it after \<^verbatim>\<open>bufferTimeoutMS\<close>, 10000 ms, with this
  message; \<^verbatim>\<open>Ticket.find\<close> is the operation \<^verbatim>\<open>find\<close>, \<^verbatim>\<open>ticket.save()\<close> of a new
  document \<^verbatim>\<open>insertOne\<close>.
\<close>

definition buffer_timeout_msg :: "string \<Rightarrow> string" where
  "buffer_timeout_msg op =
     ''Operation `'' @ ticket_collection @ ''.'' @ op @ ''()` buffering timed out after 10000ms''"

text \<open>
  What a store operation named \<open>op\<close> gets from the database: its answer \<open>r\<close> when
  connected, the buffering timeout otherwise.
\<close>

definition conn_db :: "db_conn \<Rightarrow> string \<Rightarrow> db_outcome \<Rightarrow> db_outcome" where
  "conn_db c op r = (case c of Connected \<Rightarrow> r | ConnectFailed e \<Rightarrow> DbFail (buffer_timeout_msg op))"

section \<open>Start-up\<close>

record running =
  running_env :: env
  running_conn :: db_conn
  running_listen :: listen_target

text \<open>
  The module's top level in order: \<^verbatim>\<open>dotenv.config()\<close> on the process environment,
  \<^verbatim>\<open>mongoose.connect\<close> with the resulting environment, \<^verbatim>\<open>app.listen\<close>.  A port
  that \<^verbatim>\<open>validatePort\<close> refuses throws synchronously at line 93; nothing catches it,
  so the process ends before serving anything.
\<close>

datatype boot = BootCrash jsval | Running running

definition boot :: "env \<Rightarrow> string option \<Rightarrow> conn_outcome \<Rightarrow> boot" where
  "boot env0 file co =
     (let env = dotenv_config env0 file; c = mongoose_connect env co in
      case app_listen (port_setting env) of
        BadPort p \<Rightarrow> BootCrash p
      | t \<Rightarrow> Running \<lparr>running_env = env, running_conn = c, running_listen = t\<rparr>)"

section \<open>Lemmas\<close>

subsection \<open>The environment\<close>

lemma dotenv_keeps_process_env: "env0 k = Some v \<Longrightarrow> dotenv_config env0 file k = Some v"
  by (simp add: dotenv_config_def split: option.split)

lemma ors_authorization_unset: "env ''ORS_API_KEY'' = None \<Longrightarrow> ors_authorization env = ''undefined''"
  by (simp add: ors_authorization_def env_value_def)

subsection \<open>The port\<close>

lemma unat_ucast_16: "unat w < 65536 \<Longrightarrow> unat (ucast (w :: 32 word) :: 16 word) = unat w"
  by (simp add: unsigned_ucast_eq take_bit_nat_eq_self)

lemma unat_ucast_32: "unat (ucast (p :: 16 word) :: 32 word) = unat p"
  by (simp add: unsigned_ucast_eq take_bit_nat_eq_self_iff order.strict_trans [OF unsigned_less])

lemma ucast_ucast_16: "ucast (ucast (p :: 16 word) :: 32 word) = p"
  by (simp add: ucast_up_ucast_id is_up)

lemma to_uint32_nat: "to_uint32 (Fin (real n)) = word_of_nat n"
  by (simp add: to_uint32_def)

lemma validate_port_string:
  "validate_port (JStr s) = Some p \<longleftrightarrow> trim_ws s \<noteq> [] \<and> str_to_number s = Fin (real (unat p))"
proof
  assume v: "validate_port (JStr s) = Some p"
  let ?w = "to_uint32 (str_to_number s)"
  from v have x: "str_to_number s = Fin (real (unat ?w))" and b: "unat ?w \<le> 65535"
    and p: "p = ucast ?w" and t: "trim_ws s \<noteq> []"
    by (auto simp: validate_port_def Let_def split: if_splits)
  from b p have "unat p = unat ?w" by (simp add: unat_ucast_16)
  with x t show "trim_ws s \<noteq> [] \<and> str_to_number s = Fin (real (unat p))" by simp
next
  assume a: "trim_ws s \<noteq> [] \<and> str_to_number s = Fin (real (unat p))"
  then have w: "to_uint32 (str_to_number s) = ucast p" using to_uint32_nat [of "unat p"] by simp
  have "unat p < 65536" using unsigned_less [of p] by simp
  moreover have "real (unat (ucast p :: 32 word)) = real (unat p)" by (simp only: unat_ucast_32)
  then have "(unsigned (ucast p :: 32 word) :: real) = unsigned p" by simp
  ultimately show "validate_port (JStr s) = Some p"
    using a w by (simp add: validate_port_def Let_def unat_ucast_32 ucast_ucast_16)
qed

lemma listen_default: "app_listen (JNum (Fin 5000)) = ListenPort 5000"
  by (simp add: app_listen_def validate_port_def to_uint32_def)

lemma port_setting_cases:
  "port_setting env =
     (case env ''PORT'' of Some s \<Rightarrow> if s = [] then JNum (Fin 5000) else JStr s | None \<Rightarrow> JNum (Fin 5000))"
  by (simp add: port_setting_def env_value_def split: option.split)

lemma num_nonneg_Fin_nat: "num_nonneg (Fin (real n))"
  by (simp add: num_nonneg_def)

text \<open>
  C12 (the listening port, a 16-bit bound).  The server listens on port \<open>p\<close> exactly
  when \<^verbatim>\<open>PORT\<close> is unset or empty and \<open>p\<close> is 5000, or \<^verbatim>\<open>PORT\<close> is a non-blank
  string whose numeric value (\<^verbatim>\<open>Number(PORT)\<close>: decimal, hexadecimal \<^verbatim>\<open>0x\<close>,
  exponent, blanks around) is \<open>p\<close>.  Every port is a 16-bit word, and every 16-bit word
  can be chosen.
\<close>

theorem listen_port_iff:
  "app_listen (port_setting env) = ListenPort p \<longleftrightarrow>
     (p = 5000 \<and> (env ''PORT'' = None \<or> env ''PORT'' = Some [])) \<or>
     (\<exists>s. env ''PORT'' = Some s \<and> trim_ws s \<noteq> [] \<and> str_to_number s = Fin (real (unat p)))"
proof (cases "env ''PORT''")
  case None
  then show ?thesis by (auto simp: port_setting_cases listen_default)
next
  case (Some s)
  show ?thesis
  proof (cases "s = []")
    case True
    with Some show ?thesis by (auto simp: port_setting_cases listen_default trim_ws_def)
  next
    case False
    have "app_listen (JStr s) = ListenPort p \<longleftrightarrow> trim_ws s \<noteq> [] \<and> str_to_number s = Fin (real (unat p))"
      using validate_port_string [of s p] num_nonneg_Fin_nat [of "unat p"]
      by (auto simp: app_listen_def is_pipe_name_def split: option.split)
    with Some False show ?thesis by (simp add: port_setting_cases)
  qed
qed

theorem listen_port_iff_witness:
  "app_listen (port_setting [''PORT'' \<mapsto> ''0x1F90'']) = ListenPort 8080"
proof -
  have "str_to_number ''0x1F90'' = Fin 8080" by code_simp
  moreover have "trim_ws ''0x1F90'' \<noteq> []" by code_simp
  ultimately show ?thesis
    using listen_port_iff [of "[''PORT'' \<mapsto> ''0x1F90'']" 8080] by simp
qed

text \<open>
  C16 (a port that is not a number, spec 6).  The server listens on a pipe (a Unix
  domain socket named by the text, in the working directory) exactly when \<^verbatim>\<open>PORT\<close>
  is a non-empty string whose numeric value is not \<open>\<ge> 0\<close>: a mistyped
  \<^verbatim>\<open>PORT=8080x\<close> or a negative \<^verbatim>\<open>PORT=-1\<close> is not refused.
\<close>

theorem listen_pipe_iff:
  "app_listen (port_setting env) = ListenPipe s \<longleftrightarrow>
     env ''PORT'' = Some s \<and> s \<noteq> [] \<and> \<not> num_nonneg (str_to_number s)"
  by (auto simp: port_setting_cases app_listen_def is_pipe_name_def validate_port_def Let_def
      split: option.splits if_splits)

theorem listen_pipe_iff_witness:
  "app_listen (port_setting [''PORT'' \<mapsto> ''-1'']) = ListenPipe ''-1''"
proof -
  have "str_to_number ''-1'' = Fin (- 1)" by code_simp
  then show ?thesis
    using listen_pipe_iff [of "[''PORT'' \<mapsto> ''-1'']" "''-1''"] by (simp add: num_nonneg_def)
qed

subsection \<open>Start-up without a database\<close>

lemma mongoose_connect_unset:
  "env ''MONGO_URI'' = None \<Longrightarrow> mongoose_connect env co = ConnectFailed uri_error_msg"
  by (simp add: mongoose_connect_def env_value_def)

lemma post_without_database:
  assumes "post_begin b = Await (f, q)" and "post_on_route f rr = Await t" and "cast_errors t = []"
  shows "post_api_tickets b rr (conn_db (ConnectFailed e) ''insertOne'' dr) st =
           (resp 500 (ErrorBody (''Failed to calculate fare. '' @ buffer_timeout_msg ''insertOne'')), st,
            [RouteCall q, SaveCall t])"
  using assms by (simp add: post_api_tickets_def post_on_save_def save_def conn_db_def fail_500_def)

end
