(* ===== verification/Spec2Isabelle.thy ===== *)
theory Spec2Isabelle
  imports EventLoop Startup
begin

text \<open>
  \<^bold>\<open>Smart Fare backend: a verification development.\<close>

  \<^bold>\<open>The program.\<close>  \<^verbatim>\<open>src/server.js\<close> is an Express server over a MongoDB
  collection of tickets.  \<^verbatim>\<open>POST /api/tickets\<close> (lines 53--87) destructures a trip
  from the JSON body, rejects it with 400 when a field is falsy, asks the
  OpenRouteService directions API for the driving distance (lines 62--67), answers 400
  when the answer has no route (line 71), computes \<^verbatim>\<open>distance_km = distance / 1000\<close>
  and \<^verbatim>\<open>fare = distance_km * 50\<close> (lines 75--76), saves the ticket (lines 79--80) and
  answers it; any exception inside its \<^verbatim>\<open>try\<close> becomes a 500.
  \<^verbatim>\<open>GET /api/tickets\<close> (lines 42--50) lists every ticket with the sum of their fares.
  \<^verbatim>\<open>GET /\<close> (line 90) answers a fixed text.  \<^verbatim>\<open>src/testORS.js\<close> sends one fixed
  directions request and logs the answer.  Before the routes, every request passes
  \<^verbatim>\<open>cors()\<close> (line 12), the JSON body parser \<^verbatim>\<open>express.json()\<close> (line 13) and
  \<^verbatim>\<open>express.static\<close> on \<^verbatim>\<open>public\<close> (line 39); what no route takes gets Express's
  404.  At start-up the module loads \<^verbatim>\<open>.env\<close> (line 9), starts connecting to the
  database (lines 16--21) and listens on \<^verbatim>\<open>PORT\<close> or 5000 (lines 92--93).  The
  components interact only by calls: the handlers call the Routing Gateway
  and the Ticket Store Gateway; they share no state but the collection.

  \<^bold>\<open>Theories and what models what.\<close>
  \<^item> \<open>Prelude\<close>: the named collections \<open>js_simps\<close> and \<open>flow_simps\<close>, the error
    sequencing \<open>err_bind\<close> that an \<^verbatim>\<open>await\<close> inside a \<^verbatim>\<open>try\<close> follows, folds
    with an additive accumulator, and association lists read from the right.
  \<^item> \<open>JsValue\<close>: the JavaScript the program relies on.  \<open>jsval\<close> is a JSON value,
    \<open>num\<close> a number (exact real, \<open>NaN\<close>, or an infinity); \<open>truthy\<close> is the
    \<^verbatim>\<open>!x\<close> of lines 56 and 71, \<open>get\<close>/\<open>get_path\<close> the property reads of lines 71
    and 75 with their \<^verbatim>\<open>TypeError\<close>, \<open>strict_eq_num\<close> the \<^verbatim>\<open>=== 0\<close> of line 71,
    \<open>num_add\<close>/\<open>num_mul\<close>/\<open>num_div\<close> the arithmetic of lines 45, 75, 76, and
    \<open>err_message\<close> what \<^verbatim>\<open>err.message\<close> reads.
  \<^item> \<open>JsNumber\<close>: \<open>to_number\<close>, ECMAScript's \<^verbatim>\<open>ToNumber\<close> that the division of
    line 75 applies to the distance, with \<open>str_to_number\<close> (\<^verbatim>\<open>StringToNumber\<close>),
    and \<open>num_to_string\<close> (\<^verbatim>\<open>Number::toString\<close>, through \<open>decimal_parts\<close> and
    \<open>format_decimal\<close>), which \<^verbatim>\<open>ToNumber\<close> of a one-element array and Mongoose's
    \<^verbatim>\<open>castString\<close> use.
  \<^item> \<open>MongooseCast\<close>: the library code that the schema of lines 24--32 runs at lines
    79--80.  \<open>cast_string\<close> and \<open>cast_number\<close> are Mongoose's \<^verbatim>\<open>castString\<close> and
    \<^verbatim>\<open>castNumber\<close> (with the \<^verbatim>\<open>_id\<close> unwrapping of \<open>number_cast_input\<close>),
    \<open>cast_path\<close> the cast of one path by \<^verbatim>\<open>new Ticket\<close>, returning a
    \<open>cast_failure\<close> (a \<^verbatim>\<open>CastError\<close>) or the cast value; \<open>cast_failure_message\<close>
    and \<open>validation_message\<close> are the messages of \<^verbatim>\<open>CastError\<close> and of the
    \<^verbatim>\<open>ValidationError\<close> that \<^verbatim>\<open>ticket.save()\<close> rejects with, the value printed by
    \<open>inspect_value\<close> (Node's \<^verbatim>\<open>util.inspect\<close>: quoting, escapes, key order,
    depth 2, at most 100 elements).
  \<^item> \<open>Routing\<close>: the Routing Gateway.  \<open>ors_directions_query\<close> is the request of
    lines 62--65 (each point longitude first) and \<open>ors_url\<close> its URL text, each value
    rendered by the template literal's \<^verbatim>\<open>ToString\<close> (\<open>template_string\<close>);
    \<open>fetch_outcome\<close> is what awaiting \<^verbatim>\<open>fetch\<close> and \<^verbatim>\<open>response.json()\<close>
    yields, \<open>fetch_json\<close> its rejections, \<open>no_route\<close> line 71,
    \<open>route_distance_km\<close> line 75; \<open>testORS_query\<close>, \<open>testORS_url\<close> and
    \<open>testORS\<close> model \<^verbatim>\<open>src/testORS.js\<close>.  \<open>url_point\<close> (with
    \<open>query_param\<close>, \<open>read_point\<close>, \<open>split_at_char\<close>) is how the service reads a
    point from the URL, not code of the program.
  \<^item> \<open>TicketStore\<close>: the Ticket Store Gateway.  The Mongoose schema (lines 23--34) is
    the record \<open>ticket\<close> (extending \<open>trip\<close>, the five client fields), a saved
    document \<open>stored_ticket\<close> adds its identifier, the collection is \<open>store\<close>;
    \<open>new_Ticket\<close> is line 79, \<open>save\<close> line 80, \<open>find_all\<close> line 44.
    \<open>ticket_casts\<close>, \<open>cast_errors\<close> and \<open>cast_doc\<close> are what \<^verbatim>\<open>new Ticket\<close>
    keeps of the casts; \<open>save\<close> first validates (rejecting with the
    \<^verbatim>\<open>ValidationError\<close> when a cast failed) and then writes the cast document.
    \<open>doc_typed\<close> says that each field has its schema type.
    \<open>store_wf\<close> is its invariant (distinct identifiers) and \<open>contents\<close> its
    abstraction to a multiset of tickets, the Gateway contract of spec 4.2.
  \<^item> \<open>FareFlow\<close>: the handlers.  The POST handler is split at its two external
    \<^verbatim>\<open>await\<close>s into \<open>post_begin\<close> (lines 54--65), \<open>post_on_route\<close> (62--79) and
    \<open>post_on_save\<close> (80--86); \<open>post_api_tickets\<close> runs them in order and records
    the external calls (\<open>ext_call\<close>).  \<open>get_api_tickets\<close> and \<open>total_fare\<close> are
    lines 42--50, \<open>get_root\<close> line 90.
  \<^item> \<open>JsonText\<close>: the JSON text behind \<^verbatim>\<open>res.json\<close> and
    \<^verbatim>\<open>express.json()\<close>.  \<open>json_stringify\<close> is \<^verbatim>\<open>JSON.stringify\<close> (with
    \<open>json_quote\<close>/\<open>json_escape\<close>, numbers through \<open>num_to_string\<close>);
    \<open>json_parse\<close> is \<^verbatim>\<open>JSON.parse\<close>, a recursive-descent parser
    (\<open>parse_value\<close>, \<open>parse_elems\<close>, \<open>parse_members\<close>, with the lexers
    \<open>parse_chars\<close>, \<open>lex_number\<close>, \<open>lex_literal\<close>) written with fuel;
    \<open>json_normal\<close> is what a value becomes through the text.
  \<^item> \<open>HttpPipeline\<close>: the Express application around the handlers.  A request
    (\<open>http_request\<close>: method, URL, headers, body text) goes through
    \<open>cors_preflight\<close> (line 12), \<open>json_body\<close> (line 13: \<open>has_body\<close>,
    \<open>media_type\<close>, \<open>charset_param\<close>, the limit \<open>body_limit\<close> on
    \<open>utf8_length\<close>, \<open>strict_parse\<close>), \<open>static_lookup\<close> (line 39, the files of
    \<^verbatim>\<open>public\<close> an input list), \<open>route_request\<close> (lines 42, 53, 90 with
    \<open>route_matches\<close>), the final 404; \<open>render\<close> writes a handler's outcome as
    \<^verbatim>\<open>res.json\<close> of \<open>payload_json\<close> (a document through \<open>doc_json\<close>) or
    \<^verbatim>\<open>res.send\<close>.  \<open>express_app\<close> is the whole stack.  The Express major version
    is a parameter (\<open>express_major\<close>): the repository does not pin it, and versions 4
    and 5 differ in \<^verbatim>\<open>req.body\<close> without a JSON body and in rejected handlers.
  \<^item> \<open>Dotenv\<close>: \<^verbatim>\<open>dotenv.config()\<close> (line 9; line 3 of
    \<^verbatim>\<open>src/testORS.js\<close>).  \<open>dotenv_lines\<close> is the loop of dotenv's line regular
    expression over the whole text (its pieces \<open>dotenv_match\<close>,
    \<open>dotenv_key_sep\<close>, \<open>dotenv_raw\<close>, \<open>quoted_value\<close>, \<open>quoted_close\<close>,
    \<open>tail_ok\<close>), \<open>dotenv_value\<close> its value clean-up, \<open>dotenv_parse\<close> the parsed
    object, \<open>dotenv_config\<close> the environment afterwards (existing variables win).
  \<^item> \<open>Startup\<close>: the module's top level.  \<open>env_value\<close> is
    \<^verbatim>\<open>process.env.X\<close>, \<open>ors_authorization\<close> the header value of line 64;
    \<open>port_setting\<close> line 92 and \<open>app_listen\<close> line 93 with Node's
    \<open>is_pipe_name\<close> and \<open>validate_port\<close> (\<open>to_uint32\<close> is \<^verbatim>\<open>>>> 0\<close> on a
    \<open>32 word\<close>, the port a \<open>16 word\<close>); \<open>mongoose_connect\<close> and
    \<open>connect_log\<close> lines 16--21; \<open>conn_db\<close> what the store operations get when
    the connection failed (Mongoose's \<open>buffer_timeout_msg\<close>); \<open>boot\<close> the three in
    order.
  \<^item> \<open>EventLoop\<close>: Node's event loop over the handlers.  A \<open>server\<close> holds the
    collection, the requests in flight, each suspended at one of its \<^verbatim>\<open>await\<close>s
    (\<open>pending\<close>: waiting for the route, for the write, or for the acknowledgement of
    a committed write, or for the listing), and the responses sent.  \<open>step\<close> is one
    callback of the loop: a request arriving and running to its first \<^verbatim>\<open>await\<close>, or
    a suspended one resumed with any answer of its service.  The write of line 80 is
    two steps, the commit in the collection and its acknowledgement, which can be lost:
    a rejection after the commit.  Every resumption runs the handler's own phase
    (\<open>post_on_route\<close>, \<open>post_on_save\<close>, \<open>get_api_tickets\<close>), a lost
    acknowledgement included: it is \<open>post_on_save\<close> with the store's error.  \<open>reachable\<close> is the set of states of runs from
    \<open>init_server\<close>, \<open>server_inv\<close> its invariant, proved by rule induction.
  \<^item> \<open>Spec2Isabelle\<close> (this theory): the example of spec section 8 run through the
    handler, and the request \<^verbatim>\<open>src/testORS.js\<close> probes.

  \<^bold>\<open>External services as inputs.\<close>  The routing service and the database are
  outside the program.  Their answers are arguments of the model: a
  \<open>fetch_outcome\<close> for the routing request and a \<open>db_outcome\<close> for each store
  operation, any value being possible.  The theorems hold for every answer, so they
  cover failing and misbehaving services.

  \<^bold>\<open>What the lemmas show.\<close>
  \<^item> The POST handler on every branch: the fare of a routed trip (C1), validation
    (C2) and its zero-coordinate boundary (C13), no route (C3), routing failure (C9),
    malformed routing answers (C14), store failure (C7), the one exception that escapes
    the \<^verbatim>\<open>try\<close> (C15); the URL of the routing request gives the service each
    point longitude first and each number exactly (C10).
  \<^item> The GET handler: the total is the sum of the fares (C4); fares \<open>+\<infinity>\<close> and
    \<open>-\<infinity>\<close> in the collection make it \<open>NaN\<close> (C22).
  \<^item> Refinement: a POST changes the abstract collection at most by the ticket it sent
    to the store, and a 200 response's ticket has been added (C6).
  \<^item> Number conversion: the distance read on line 75 from a decimal string of \<open>n\<close>
    metres is \<open>n / 1000\<close> (C17).
  \<^item> Interleaved runs: every reachable collection keeps the store invariant (C18);
    every ticket a response reported with 200 is in the collection (C5); a lost
    acknowledgement answers 500 for a ticket that is stored (C19).
  \<^item> Casting and validation: every written document has the schema's types whatever
    the request carried (C8); a ticket whose casts fail (a distance that is not a
    number) is answered 500 with Mongoose's validation message and not written (C20); a
    coordinate of white space passes the presence check and is stored as 0 (C21).
  \<^item> The application: a JSON POST reaches the handler with the parsed object and is
    answered as the handler answers (C11); under Express 4 no request ends the process
    (C23), under Express 5 a POST without a JSON body is a 500 page (C24), and on every
    JSON request the two versions agree (C27); every request keeps the store invariant
    and only the POST route changes the store (C25); a \<^verbatim>\<open>public/index.html\<close>
    shadows \<^verbatim>\<open>GET /\<close> (C26).
  \<^item> Start-up: the server listens on port \<open>p\<close> exactly when \<^verbatim>\<open>PORT\<close> is unset or
    empty and \<open>p = 5000\<close>, or its numeric value is \<open>p\<close> (C12); a \<^verbatim>\<open>PORT\<close> that
    is not a number \<open>\<ge> 0\<close> makes it listen on a pipe of that name (C16).

  \<^bold>\<open>Bounds and fuel.\<close>  Every function of the model is total and terminates by
  structural recursion (\<open>get_path\<close>, \<open>to_number\<close>, \<open>split_at_char\<close>) or by
  a decreasing argument (\<open>dec_string\<close>, \<open>strip_zeros\<close>, \<open>inspect_value\<close> on the
  size of the value).  \<open>Number::toString\<close> searches the least \<open>j\<close> with \<open>x * 10^j\<close>
  integral up to \<open>decimal_fuel = 400\<close>: the shortest decimal of a double has at most
  17 digits and an exponent above -325, so \<open>j \<le> 341\<close> for every double, and the
  read-back lemma \<open>str_to_number_num_to_string\<close> (behind C10 and C11) holds for
  every \<open>j\<close> within the bound.  Numbers are otherwise unbounded reals.
  \<open>json_parse\<close> runs \<open>parse_value\<close> with fuel \<open>2 * length s + 1\<close>: every unit of fuel
  spent either consumes a character or opens a nested value after one, so this fuel
  never runs out, and more gives the same result (lemmas \<open>parse_total\<close> and
  \<open>parse_mono\<close>).  The body limit is Express's
  default of 100kb, \<open>body_limit = 102400\<close> bytes.  \<open>dotenv_lines\<close> terminates on the
  length of the text: each match consumes its key.  Ports are 16-bit words and
  \<^verbatim>\<open>ToUint32\<close> a 32-bit word, as in Node.

  \<^bold>\<open>Not modelled.\<close>  Rounding of doubles, their overflow and negative zero (finite
  numbers are exact reals): \<open>str_to_number\<close> reads \<^verbatim>\<open>"1e400"\<close> as \<open>10\<^sup>4\<^sup>0\<^sup>0\<close>
  where JavaScript gives \<^verbatim>\<open>Infinity\<close>, a sum of finite fares never overflows to an
  infinity (so C4 and C22 are stated for the exact sum, and C22 only in the direction
  that overflow does not affect), and the shortest round-trip digits of
  \<^verbatim>\<open>Number::toString\<close> on a value with an infinite decimal expansion are not
  modelled; the order in which \<^verbatim>\<open>Ticket.find({})\<close> returns documents, which
  MongoDB does not guarantee (\<open>find_all\<close> returns them in insertion order, and no
  theorem depends on that order beyond the multiset \<open>contents\<close>, except where a
  concrete store is listed); the line breaking of
  \<^verbatim>\<open>util.inspect\<close> for values wider than 72 characters in a cast message; the HTTP status of the routing answer (the program
  does not read it); \<^verbatim>\<open>console\<close> output other than
  the two connection log lines (the routing answer logged at line 68, the error at
  line 84, the message of line 93), and the stack trace Node prints for a logged
  error; of start-up, dotenv's encrypted \<^verbatim>\<open>.env.vault\<close> (used only with
  \<^verbatim>\<open>DOTENV_KEY\<close>), the options of \<^verbatim>\<open>mongoose.connect\<close> (the driver's handling of
  them and its retries are part of the input \<open>conn_outcome\<close>), the port the system
  assigns for \<^verbatim>\<open>PORT=0\<close> and the failures \<^verbatim>\<open>listen\<close> reports later (a port in
  use); of the HTTP layer,
  the response headers beyond the fixed set \<open>base_headers\<close> that \<^verbatim>\<open>cors()\<close> with
  its default options adds to every response (written into each response of the model,
  not derived; \<^verbatim>\<open>Content-Type\<close>, \<^verbatim>\<open>ETag\<close>,
  caching, ranges and conditional requests), percent-decoding of static paths, the
  text of Express's HTML error pages, and the file system beyond the list of files of
  \<^verbatim>\<open>public\<close>; body charsets other than UTF-8, since text is Latin-1 here; prototype properties of JavaScript values, which the program never
  reads; characters outside Latin-1; of the connection, the message of Mongoose's
  buffering timeout is fixed in \<open>conn_db\<close> (the library's text for the collection
  \<^verbatim>\<open>tickets\<close>), not derived.  The interleaving of \<open>EventLoop\<close> has no timeouts
  and no fairness: that a request in flight is eventually answered depends on the
  services answering, which the program does not enforce, so no liveness is claimed.
\<close>

section \<open>The example of spec section 8\<close>

text \<open>The ticket spec section 8 expects for its example.\<close>

definition spec_ticket :: stored_ticket where
  "spec_ticket =
     \<lparr>passenger_id = JStr ''P1'', start_lat = JNum (Fin 9.6610), start_lng = JNum (Fin 80.0250),
      end_lat = JNum (Fin 9.6781), end_lng = JNum (Fin 80.0150), distance_km = Fin 2,
      fare = Fin 100, ticket_id = 0\<rparr>"

section \<open>Lemmas\<close>

lemma spec_ticket_eq:
  "spec_ticket = ticket.extend (new_Ticket spec_trip (Fin 2) (Fin 100)) \<lparr>ticket_id = 0\<rparr>"
  by (simp add: spec_ticket_def new_Ticket_def spec_trip_def trip.defs ticket.defs
      stored_ticket.defs)

text \<open>
  The end-to-end example of spec 8: the body
  \<^verbatim>\<open>{passenger_id:"P1", start_lat:9.6610, start_lng:80.0250, end_lat:9.6781, end_lng:80.0150}\<close>
  with a routing answer of 2000 metres and an empty store is answered 200 with the
  stored ticket \<^verbatim>\<open>distance_km: 2, fare: 100\<close>, which becomes the collection's only
  document.
\<close>

theorem end_to_end_example:
  "post_api_tickets (trip_body spec_trip) (JsonBody (ors_response (JNum (Fin 2000)))) DbOk
     empty_store =
   (resp 200 (TicketBody
      \<lparr>passenger_id = JStr ''P1'', start_lat = JNum (Fin 9.6610), start_lng = JNum (Fin 80.0250),
       end_lat = JNum (Fin 9.6781), end_lng = JNum (Fin 80.0150), distance_km = Fin 2,
       fare = Fin 100, ticket_id = 0\<rparr>),
    \<lparr>docs = [spec_ticket], next_id = 1\<rparr>,
    [RouteCall testORS_query, SaveCall (new_Ticket spec_trip (Fin 2) (Fin 100))])"
  by (simp add: spec_ticket_eq [symmetric] post_api_tickets_def post_begin_spec_trip
      post_on_route_spec_response post_on_save_def save_def empty_store_def trip_typed_spec_trip)
    (simp add: spec_ticket_def)

text \<open>
  \<^verbatim>\<open>src/testORS.js\<close> probes the server's request: for the spec's example trip, whatever the services
  answer, the first external call of the POST handler is exactly the directions request
  that \<^verbatim>\<open>testORS.js\<close> sends, so the script probes the request the server makes.
\<close>

theorem testORS_probes_spec_request:
  "hd (snd (snd (post_api_tickets (trip_body spec_trip) rr dr st))) = RouteCall testORS_query"
  by (simp add: post_api_tickets_def post_begin_spec_trip split: phase.splits prod.splits)

end
